(* ===== verification/Prelude.thy ===== *)
theory Prelude
  imports "HOL-Library.Word" "HOL-Library.AList" "HOL-Library.Char_ord" "HOL-Library.List_Lexorder"
begin

text \<open>
  What every component shares: the machine types of the code (\<open>quint8\<close>, \<open>quint16\<close>,
  \<open>quint64\<close>, \<open>QUuid\<close>), \<open>QHash\<close> and \<open>QMap\<close> as association lists, the
  \<open>QByteArray\<close> and \<open>QString\<close> operations the code calls, and the two generic
  interfaces of the development: \<open>byte_receiver\<close>, a stateful reader fed with chunks of a
  byte stream, and \<open>event_machine\<close>, a state machine with an invariant.
\<close>

section \<open>Machine types\<close>

type_synonym byte = "8 word"
type_synonym bytes = "byte list"
type_synonym quint16 = "16 word"
type_synonym quint32 = "32 word"
type_synonym quint64 = "64 word"

text \<open>A \<open>QUuid\<close> is a 128 bit value; the null uuid is 0.\<close>

type_synonym uuid = "128 word"

abbreviation nullUuid :: uuid where
  "nullUuid \<equiv> 0"

section \<open>QHash and QMap\<close>

text \<open>
  \<open>QHash\<close> and \<open>QMap\<close> are association lists with distinct keys. The order of the list is
  the order of insertion; \<open>QHash\<close> leaves its order open, and \<open>QMap\<close> iterates in key
  order, which \<open>qkeys\<close> restores where the code iterates over a \<open>QMap\<close>.
\<close>

type_synonym ('k, 'v) qhash = "('k \<times> 'v) list"

abbreviation qvalue :: "('k, 'v) qhash \<Rightarrow> 'k \<Rightarrow> 'v option" where
  "qvalue \<equiv> map_of"

abbreviation qinsert :: "'k \<Rightarrow> 'v \<Rightarrow> ('k, 'v) qhash \<Rightarrow> ('k, 'v) qhash" where
  "qinsert \<equiv> AList.update"

abbreviation qremove :: "'k \<Rightarrow> ('k, 'v) qhash \<Rightarrow> ('k, 'v) qhash" where
  "qremove \<equiv> AList.delete"

definition qcontains :: "('k, 'v) qhash \<Rightarrow> 'k \<Rightarrow> bool" where
  "qcontains h k = (map_of h k \<noteq> None)"

definition qvalues :: "('k, 'v) qhash \<Rightarrow> 'v list" where
  "qvalues h = map snd h"

text \<open>\<open>QHash::key(value)\<close>: the first key that has the value.\<close>

definition qkey :: "('k, 'v) qhash \<Rightarrow> 'v \<Rightarrow> 'k option" where
  "qkey h v = map_option fst (find (\<lambda>p. snd p = v) h)"

text \<open>\<open>QMap::keys()\<close> of a map with string keys, in ascending order.\<close>

definition qkeys :: "(string, 'v) qhash \<Rightarrow> string list" where
  "qkeys m = sort (remdups (map fst m))"

definition qwf :: "('k, 'v) qhash \<Rightarrow> bool" where
  "qwf h = distinct (map fst h)"

named_theorems qhash_simps

lemma map_of_qinsert [simp]: "map_of (qinsert k v h) = (map_of h)(k \<mapsto> v)"
  by (rule AList.update_conv')

lemma map_of_qremove [simp]: "map_of (qremove k h) = (map_of h)(k := None)"
  by (rule AList.delete_conv')

lemma length_qinsert: "length (qinsert k v h) = (if map_of h k = None then Suc (length h) else length h)"
  by (induction h) auto

lemma qwf_Nil [simp]: "qwf []"
  by (simp add: qwf_def)

lemma qwf_qinsert [simp]: "qwf (qinsert k v h) = qwf h"
  by (simp add: qwf_def update_keys)

lemma qwf_qremove [simp]: "qwf h \<Longrightarrow> qwf (qremove k h)"
  by (simp add: qwf_def distinct_delete)

lemma qcontains_iff [qhash_simps]: "qcontains h k \<longleftrightarrow> k \<in> fst ` set h"
  by (auto simp: qcontains_def map_of_eq_None_iff)

lemma qcontains_conv: "qcontains h k \<longleftrightarrow> (\<exists>v. map_of h k = Some v)"
  by (auto simp: qcontains_def)

lemma set_qkeys [simp]: "set (qkeys m) = fst ` set m"
  by (simp add: qkeys_def)

lemma qwf_map_of_eq: "qwf h \<Longrightarrow> (map_of h k = Some v) = ((k, v) \<in> set h)"
  by (auto simp: qwf_def dest: map_of_SomeD)

lemma qvalues_mem: "qwf h \<Longrightarrow> v \<in> set (qvalues h) \<longleftrightarrow> (\<exists>k. map_of h k = Some v)"
  by (force simp: qvalues_def qwf_map_of_eq)

lemma qkey_Some:
  assumes "qwf h" "qkey h v = Some k"
  shows "map_of h k = Some v"
proof -
  from assms(2) obtain p where p: "find (\<lambda>p. snd p = v) h = Some p" "k = fst p"
    by (auto simp: qkey_def)
  then have "p \<in> set h" "snd p = v"
    by (auto simp: find_Some_iff)
  with p assms(1) show ?thesis
    by (cases p) (simp add: qwf_map_of_eq)
qed

lemma qkey_None: "qkey h v = None \<longleftrightarrow> v \<notin> snd ` set h"
  by (force simp: qkey_def find_None_iff)

text \<open>Applying a function to the value of one key, as code does through a pointer it looked up.\<close>

definition qadjust :: "'k \<Rightarrow> ('v \<Rightarrow> 'v) \<Rightarrow> ('k, 'v) qhash \<Rightarrow> ('k, 'v) qhash" where
  "qadjust k f h = (case map_of h k of None \<Rightarrow> h | Some v \<Rightarrow> qinsert k (f v) h)"

lemma map_of_qadjust [simp]:
  "map_of (qadjust k f h) = (map_of h)(k := map_option f (map_of h k))"
  by (auto simp: qadjust_def split: option.splits)

lemma qwf_qadjust [simp]: "qwf (qadjust k f h) = qwf h"
  by (simp add: qadjust_def split: option.splits)

lemma fst_set_qadjust [simp]: "fst ` set (qadjust k f h) = fst ` set h"
proof -
  have "dom (map_of (qadjust k f h)) = dom (map_of h)"
    by (auto simp: dom_def)
  then show ?thesis by (simp only: dom_map_of_conv_image_fst)
qed

section \<open>QByteArray and QString\<close>

text \<open>\<open>indexOf\<close>: the position of the first occurrence of a pattern, \<open>None\<close> for -1.\<close>

fun indexOf :: "'a list \<Rightarrow> 'a list \<Rightarrow> nat option" where
  "indexOf pat [] = (if pat = [] then Some 0 else None)"
| "indexOf pat (x # xs) =
     (if take (length pat) (x # xs) = pat then Some 0 else map_option Suc (indexOf pat xs))"

definition endsWith :: "'a list \<Rightarrow> 'a list \<Rightarrow> bool" where
  "endsWith xs suf = (length suf \<le> length xs \<and> drop (length xs - length suf) xs = suf)"

definition startsWith :: "'a list \<Rightarrow> 'a list \<Rightarrow> bool" where
  "startsWith xs pre = (take (length pre) xs = pre)"

text \<open>\<open>QString::split(c)\<close>, which keeps empty parts.\<close>

fun qsplit :: "char \<Rightarrow> string \<Rightarrow> string list" where
  "qsplit c [] = [[]]"
| "qsplit c (x # xs) =
     (if x = c then [] # qsplit c xs
      else (case qsplit c xs of [] \<Rightarrow> [[x]] | p # ps \<Rightarrow> (x # p) # ps))"

definition bytes_of :: "string \<Rightarrow> bytes" where
  "bytes_of s = map of_char s"

lemma indexOf_le: "indexOf pat xs = Some i \<Longrightarrow> i + length pat \<le> length xs"
proof (induction pat xs arbitrary: i rule: indexOf.induct)
  case (1 pat)
  then show ?case by (simp split: if_splits)
next
  case (2 pat x xs)
  show ?case
  proof (cases "take (length pat) (x # xs) = pat")
    case True
    then have "length pat \<le> length (x # xs)"
      by (metis length_take min.cobounded1)
    with True "2.prems" show ?thesis by simp
  next
    case False
    with "2.prems" obtain j where "indexOf pat xs = Some j" "i = Suc j"
      by (auto split: if_splits)
    with "2.IH" [OF False] show ?thesis by simp
  qed
qed

lemma endsWith_append_iff: "endsWith xs suf \<longleftrightarrow> (\<exists>pre. xs = pre @ suf)"
  unfolding endsWith_def
  by (metis append_eq_conv_conj append_take_drop_id diff_add_inverse2 le_add2 length_append)

lemma endsWith_single: "endsWith xs [y] \<longleftrightarrow> xs \<noteq> [] \<and> last xs = y"
  unfolding endsWith_append_iff by (metis append_butlast_last_id last_snoc snoc_eq_iff_butlast)

lemma qsplit_not_Nil [simp]: "qsplit c s \<noteq> []"
  by (induction s) (auto split: list.splits)

lemma qsplit_length: "length (qsplit c s) = Suc (count_list s c)"
  by (induction s) (auto split: list.splits)

section \<open>Readers of a byte stream\<close>

text \<open>
  A receiver gets the bytes of a stream in chunks of any size, in the order of the stream.
  \<open>feed st chunk\<close> gives what the receiver hands on and its next state. A receiver whose
  state after two chunks is the one after their concatenation does not see how the network
  cuts the stream.
\<close>

fun feed_all :: "('st \<Rightarrow> bytes \<Rightarrow> 'o list \<times> 'st) \<Rightarrow> 'st \<Rightarrow> bytes list \<Rightarrow> 'o list \<times> 'st" where
  "feed_all feed st [] = ([], st)"
| "feed_all feed st (c # cs) =
     (let (out, st') = feed st c; (out', st'') = feed_all feed st' cs in (out @ out', st''))"

locale byte_receiver =
  fixes feed :: "'st \<Rightarrow> bytes \<Rightarrow> 'o list \<times> 'st"
  assumes feed_Nil: "feed st [] = ([], st)"
    and feed_append:
      "feed st (a @ b) = (let (out, st') = feed st a; (out', st'') = feed st' b in (out @ out', st''))"
begin

lemma feed_all_concat: "feed_all feed st cs = feed st (concat cs)"
  by (induction cs arbitrary: st) (simp_all add: feed_Nil feed_append Let_def split: prod.splits)

lemma feed_all_chunking: "concat cs = concat ds \<Longrightarrow> feed_all feed st cs = feed_all feed st ds"
  by (simp add: feed_all_concat)

end

text \<open>
  A framed link: after each encoded packet the receiver has handed on exactly that packet and is
  back in its start state. Then a whole conversation arrives packet by packet, however it is cut.
\<close>

locale frame_link = byte_receiver +
  fixes start :: "'st"
    and encode :: "'p \<Rightarrow> bytes"
    and arrived :: "'p \<Rightarrow> 'o"
    and valid :: "'p \<Rightarrow> bool"
  assumes packet_arrives: "valid p \<Longrightarrow> feed start (encode p) = ([arrived p], start)"
begin

lemma packets_arrive:
  "\<forall>p \<in> set ps. valid p \<Longrightarrow> feed start (concat (map encode ps)) = (map arrived ps, start)"
  by (induction ps) (simp_all add: feed_Nil feed_append packet_arrives Let_def)

lemma packets_arrive_chunked:
  "\<forall>p \<in> set ps. valid p \<Longrightarrow> concat cs = concat (map encode ps) \<Longrightarrow>
     feed_all feed start cs = (map arrived ps, start)"
  by (simp add: feed_all_concat packets_arrive)

end

section \<open>State machines\<close>

inductive reaches :: "('s \<Rightarrow> 'e \<Rightarrow> 's) \<Rightarrow> 's \<Rightarrow> 's \<Rightarrow> bool" for step and s0 where
  reaches_start: "reaches step s0 s0"
| reaches_step: "reaches step s0 s \<Longrightarrow> reaches step s0 (step s e)"

fun run_events :: "('s \<Rightarrow> 'e \<Rightarrow> 's) \<Rightarrow> 's \<Rightarrow> 'e list \<Rightarrow> 's" where
  "run_events step s [] = s"
| "run_events step s (e # es) = run_events step (step s e) es"

lemma run_events_append: "run_events step s (es @ fs) = run_events step (run_events step s es) fs"
  by (induction es arbitrary: s) auto

lemma run_events_reaches: "reaches step s0 s \<Longrightarrow> reaches step s0 (run_events step s es)"
  by (induction es arbitrary: s) (auto intro: reaches_step)

locale event_machine =
  fixes step :: "'s \<Rightarrow> 'e \<Rightarrow> 's"
    and start :: "'s"
    and inv :: "'s \<Rightarrow> bool"
  assumes inv_start: "inv start"
    and inv_step: "inv s \<Longrightarrow> inv (step s e)"
begin

lemma reaches_inv: "reaches step start s \<Longrightarrow> inv s"
  by (induction rule: reaches.induct) (auto intro: inv_start inv_step)

lemma run_inv: "inv (run_events step start es)"
  by (rule reaches_inv) (rule run_events_reaches [OF reaches_start])

end

end
