(* ===== verification/Variant.thy ===== *)
theory Variant
  imports Prelude
begin

text \<open>
  The values that travel in JSON messages. \<open>QVariant\<close> is a datatype with the types the code
  stores. What Qt's JSON reader and writer, its uuid text form and its conversions compute is not
  part of the repository: it is the record \<open>env\<close>, a parameter of every definition that
  needs it, together with the strings the build generates (\<open>version.h\<close>).
\<close>

section \<open>QVariant\<close>

text \<open>A double is kept as its 64 bit pattern: only \<open>env\<close> functions look inside.\<close>

datatype variant =
    VInvalid
  | VBool bool
  | VInt int
  | VUInt int
  | VULongLong quint64
  | VDouble "64 word"
  | VString string
  | VUuid uuid
  | VList "variant list"
  | VMap "(string \<times> variant) list"

type_synonym vmap = "(string, variant) qhash"

datatype vtype = TInvalid | TBool | TInt | TUInt | TDouble | TString | TUuid | TMap | TList | TOther

fun vtype_of :: "variant \<Rightarrow> vtype" where
  "vtype_of VInvalid = TInvalid"
| "vtype_of (VBool _) = TBool"
| "vtype_of (VInt _) = TInt"
| "vtype_of (VUInt _) = TUInt"
| "vtype_of (VULongLong _) = TOther"
| "vtype_of (VDouble _) = TDouble"
| "vtype_of (VString _) = TString"
| "vtype_of (VUuid _) = TUuid"
| "vtype_of (VList _) = TList"
| "vtype_of (VMap _) = TMap"

section \<open>What Qt and the build provide\<close>

text \<open>
  \<^item> \<open>env_fromJson\<close>: \<open>QJsonDocument::fromJson(..).toVariant()\<close>, \<open>Inl\<close> the
    text of the parse error;
  \<^item> \<open>env_toJson\<close>, \<open>env_toJsonText\<close>: \<open>toJson\<close> in compact form as bytes, and in
    indented form as text;
  \<^item> \<open>env_toInt\<close>: \<open>toInt(&ok)\<close>, \<open>None\<close> when \<open>ok\<close> is false;
  \<^item> \<open>env_canConvert\<close>, \<open>env_convert\<close>: \<open>canConvert(type)\<close> and the result of
    \<open>convert(type)\<close>;
  \<^item> \<open>env_uuidOfString\<close>: \<open>QUuid(text)\<close>, null for a text that is no uuid.
\<close>

record env =
  env_fromJson :: "bytes \<Rightarrow> string + variant"
  env_toJson :: "variant \<Rightarrow> bytes"
  env_toJsonText :: "variant \<Rightarrow> string"
  env_toInt :: "variant \<Rightarrow> int option"
  env_toUInt :: "variant \<Rightarrow> quint32"
  env_toBool :: "variant \<Rightarrow> bool"
  env_toString :: "variant \<Rightarrow> string"
  env_uuidOfString :: "string \<Rightarrow> uuid"
  env_uuidToString :: "uuid \<Rightarrow> string"
  env_canConvert :: "vtype \<Rightarrow> variant \<Rightarrow> bool"
  env_convert :: "vtype \<Rightarrow> variant \<Rightarrow> bool"
  env_SERVER_NAME_STRING :: string
  env_SERVER_VERSION_STRING :: string
  env_API_VERSION_STRING :: string

section \<open>Access\<close>

text \<open>\<open>QVariantMap::value(key)\<close> is the invalid variant for a missing key.\<close>

definition vvalue :: "vmap \<Rightarrow> string \<Rightarrow> variant" where
  "vvalue m k = (case map_of m k of None \<Rightarrow> VInvalid | Some v \<Rightarrow> v)"

fun vtoMap :: "variant \<Rightarrow> vmap" where
  "vtoMap (VMap m) = m"
| "vtoMap _ = []"

fun vtoList :: "variant \<Rightarrow> variant list" where
  "vtoList (VList xs) = xs"
| "vtoList _ = []"

fun vtoString :: "env \<Rightarrow> variant \<Rightarrow> string" where
  "vtoString E VInvalid = []"
| "vtoString E (VString s) = s"
| "vtoString E v = env_toString E v"

fun vtoUuid :: "env \<Rightarrow> variant \<Rightarrow> uuid" where
  "vtoUuid E (VUuid u) = u"
| "vtoUuid E (VString s) = env_uuidOfString E s"
| "vtoUuid E _ = nullUuid"

fun vtoInt :: "env \<Rightarrow> variant \<Rightarrow> int option" where
  "vtoInt E VInvalid = None"
| "vtoInt E (VInt i) = Some i"
| "vtoInt E v = env_toInt E v"

text \<open>\<open>toInt()\<close> without the flag is 0 where the conversion fails.\<close>

definition vtoInt0 :: "env \<Rightarrow> variant \<Rightarrow> int" where
  "vtoInt0 E v = (case vtoInt E v of None \<Rightarrow> 0 | Some i \<Rightarrow> i)"

fun vtoUInt :: "env \<Rightarrow> variant \<Rightarrow> quint32" where
  "vtoUInt E VInvalid = 0"
| "vtoUInt E (VUInt i) = word_of_int i"
| "vtoUInt E v = env_toUInt E v"

fun vtoBool :: "env \<Rightarrow> variant \<Rightarrow> bool" where
  "vtoBool E VInvalid = False"
| "vtoBool E (VBool b) = b"
| "vtoBool E v = env_toBool E v"

lemma vvalue_Nil [simp]: "vvalue [] k = VInvalid"
  by (simp add: vvalue_def)

lemma vvalue_qinsert [simp]:
  "vvalue (qinsert k v m) k' = (if k' = k then v else vvalue m k')"
  by (simp add: vvalue_def)

lemma size_vvalue_less: "map_of m k = Some v \<Longrightarrow> size v < size_list (size_prod (\<lambda>_. 0) size) m"
  by (induction m) (auto split: if_splits)

end
