(* ===== verification/TransportClient.thy ===== *)
theory TransportClient
  imports Variant
begin

text \<open>
  \<open>server/transportclient.{h,cpp}\<close>: what the proxy keeps for each connected socket, whatever
  the transport. A call on the transport interface is a value of type \<open>effect\<close>, handed to the
  transports after the operation; they report a closed socket back with a later event.
\<close>

datatype transport_kind = TransportTcp | TransportWebSocket | TransportUnix

instantiation transport_kind :: enum
begin

definition enum_transport_kind :: "transport_kind list" where
  "enum_transport_kind = [TransportTcp, TransportWebSocket, TransportUnix]"

definition enum_all_transport_kind :: "(transport_kind \<Rightarrow> bool) \<Rightarrow> bool" where
  "enum_all_transport_kind P \<longleftrightarrow> P TransportTcp \<and> P TransportWebSocket \<and> P TransportUnix"

definition enum_ex_transport_kind :: "(transport_kind \<Rightarrow> bool) \<Rightarrow> bool" where
  "enum_ex_transport_kind P \<longleftrightarrow> P TransportTcp \<or> P TransportWebSocket \<or> P TransportUnix"

instance
proof
  have kinds: "(UNIV :: transport_kind set) = {TransportTcp, TransportWebSocket, TransportUnix}"
    by (auto intro: transport_kind.exhaust)
  show "(UNIV :: transport_kind set) = set enum_class.enum"
    by (simp add: kinds enum_transport_kind_def)
  show "distinct (enum_class.enum :: transport_kind list)"
    by (simp add: enum_transport_kind_def)
  show "enum_class.enum_all P \<longleftrightarrow> Ball UNIV P" for P :: "transport_kind \<Rightarrow> bool"
    unfolding kinds by (simp add: enum_all_transport_kind_def)
  show "enum_class.enum_ex P \<longleftrightarrow> Bex UNIV P" for P :: "transport_kind \<Rightarrow> bool"
    unfolding kinds by (simp add: enum_ex_transport_kind_def)
qed

end

datatype effect =
    SendData transport_kind uuid bytes
  | KillClientConnection transport_kind uuid string

fun effect_target :: "effect \<Rightarrow> uuid" where
  "effect_target (SendData _ c _) = c"
| "effect_target (KillClientConnection _ c _) = c"

fun is_kill :: "effect \<Rightarrow> bool" where
  "is_kill (KillClientConnection _ _ _) = True"
| "is_kill (SendData _ _ _) = False"

text \<open>\<open>tc_interface\<close> is the pointer \<open>m_interface\<close>, \<open>None\<close> the null pointer.\<close>

record transport_client =
  tc_interface :: "transport_kind option"
  tc_clientId :: uuid
  tc_peerAddress :: string
  tc_creationTimeStamp :: quint64
  tc_name :: string
  tc_uuid :: uuid
  tc_dataBuffer :: bytes
  tc_killConnectionRequested :: bool
  tc_killConnectionReason :: string
  tc_slipAfterResponseEnabled :: bool
  tc_slipEnabled :: bool
  tc_messageId :: int
  tc_rxDataCount :: quint64
  tc_txDataCount :: quint64

text \<open>The constructor; \<open>now\<close> is the current time in seconds since the epoch.\<close>

definition newTransportClient :: "transport_kind \<Rightarrow> uuid \<Rightarrow> string \<Rightarrow> quint64 \<Rightarrow> transport_client" where
  "newTransportClient interface clientId address now =
     \<lparr>tc_interface = Some interface, tc_clientId = clientId, tc_peerAddress = address,
      tc_creationTimeStamp = now, tc_name = [], tc_uuid = nullUuid, tc_dataBuffer = [],
      tc_killConnectionRequested = False, tc_killConnectionReason = [],
      tc_slipAfterResponseEnabled = False, tc_slipEnabled = False, tc_messageId = 0,
      tc_rxDataCount = 0, tc_txDataCount = 0\<rparr>"

definition killConnectionAfterResponse ::
  "string \<Rightarrow> 'a transport_client_scheme \<Rightarrow> 'a transport_client_scheme" where
  "killConnectionAfterResponse reason c =
     c\<lparr>tc_killConnectionRequested := True, tc_killConnectionReason := reason\<rparr>"

definition enableSlipAfterResponse :: "'a transport_client_scheme \<Rightarrow> 'a transport_client_scheme" where
  "enableSlipAfterResponse c = c\<lparr>tc_slipAfterResponseEnabled := True\<rparr>"

definition setSlipEnabled :: "bool \<Rightarrow> 'a transport_client_scheme \<Rightarrow> 'a transport_client_scheme" where
  "setSlipEnabled b c = c\<lparr>tc_slipEnabled := b\<rparr>"

definition setUuid :: "uuid \<Rightarrow> 'a transport_client_scheme \<Rightarrow> 'a transport_client_scheme" where
  "setUuid u c = c\<lparr>tc_uuid := u\<rparr>"

definition setName :: "string \<Rightarrow> 'a transport_client_scheme \<Rightarrow> 'a transport_client_scheme" where
  "setName n c = c\<lparr>tc_name := n\<rparr>"

text \<open>The result's flag tells whether \<open>rxDataCountChanged\<close> is emitted.\<close>

definition addRxDataCount :: "int \<Rightarrow> 'a transport_client_scheme \<Rightarrow> 'a transport_client_scheme \<times> bool" where
  "addRxDataCount dataCount c =
     (c\<lparr>tc_rxDataCount := tc_rxDataCount c + word_of_int dataCount\<rparr>, 0 < dataCount)"

definition addTxDataCount :: "int \<Rightarrow> 'a transport_client_scheme \<Rightarrow> 'a transport_client_scheme \<times> bool" where
  "addTxDataCount dataCount c =
     (c\<lparr>tc_txDataCount := tc_txDataCount c + word_of_int dataCount\<rparr>, 0 < dataCount)"

definition bufferSize :: "'a transport_client_scheme \<Rightarrow> nat" where
  "bufferSize c = length (tc_dataBuffer c)"

definition generateMessageId :: "'a transport_client_scheme \<Rightarrow> 'a transport_client_scheme \<times> int" where
  "generateMessageId c = (c\<lparr>tc_messageId := tc_messageId c + 1\<rparr>, tc_messageId c + 1)"

definition tc_sendData ::
  "bytes \<Rightarrow> 'a transport_client_scheme \<Rightarrow> 'a transport_client_scheme \<times> effect list" where
  "tc_sendData data c =
     (case tc_interface c of
        None \<Rightarrow> (c, [])
      | Some interface \<Rightarrow>
          (fst (addTxDataCount (int (length data)) c), [SendData interface (tc_clientId c) data]))"

definition tc_killConnection :: "string \<Rightarrow> 'a transport_client_scheme \<Rightarrow> effect list" where
  "tc_killConnection reason c =
     (case tc_interface c of
        None \<Rightarrow> []
      | Some interface \<Rightarrow> [KillClientConnection interface (tc_clientId c) reason])"

lemmas transport_client_defs = killConnectionAfterResponse_def enableSlipAfterResponse_def
  setSlipEnabled_def setUuid_def setName_def addRxDataCount_def addTxDataCount_def

lemma tc_sendData_effects:
  "e \<in> set (snd (tc_sendData data c)) \<Longrightarrow> effect_target e = tc_clientId c"
  by (auto simp: tc_sendData_def split: option.splits)

lemma tc_killConnection_effects:
  "e \<in> set (tc_killConnection reason c) \<Longrightarrow> effect_target e = tc_clientId c"
  by (auto simp: tc_killConnection_def split: option.splits)

text \<open>The traffic counters are 64 bit and wrap.\<close>

lemma addRxDataCount_unat:
  "unat (tc_rxDataCount (fst (addRxDataCount (int n) c))) = (unat (tc_rxDataCount c) + n) mod 2 ^ 64"
  by (simp add: addRxDataCount_def unat_word_ariths unat_of_nat mod_add_right_eq)

end
