(* ===== verification/Slip.thy ===== *)
theory Slip
  imports Prelude
begin

text \<open>
  \<open>common/slipdataprocessor.{h,cpp}\<close>: the SLIP encoding of a packet and the frame (a 16 bit
  socket address and the data) that server connections and the proxy exchange. The lemmas show
  that decoding inverts encoding, that an encoded packet holds the END byte at its end only, and
  which inputs the decoder refuses.
\<close>

section \<open>Protocol bytes\<close>

definition ProtocolByteEnd :: byte where
  "ProtocolByteEnd = 0xC0"

definition ProtocolByteEsc :: byte where
  "ProtocolByteEsc = 0xDB"

definition ProtocolByteTransposedEnd :: byte where
  "ProtocolByteTransposedEnd = 0xDC"

definition ProtocolByteTransposedEsc :: byte where
  "ProtocolByteTransposedEsc = 0xDD"

lemmas protocol_bytes = ProtocolByteEnd_def ProtocolByteEsc_def
  ProtocolByteTransposedEnd_def ProtocolByteTransposedEsc_def

lemma protocol_bytes_distinct [simp]:
  "ProtocolByteEnd \<noteq> ProtocolByteEsc" "ProtocolByteEsc \<noteq> ProtocolByteEnd"
  "ProtocolByteEnd \<noteq> ProtocolByteTransposedEnd" "ProtocolByteTransposedEnd \<noteq> ProtocolByteEnd"
  "ProtocolByteEnd \<noteq> ProtocolByteTransposedEsc" "ProtocolByteTransposedEsc \<noteq> ProtocolByteEnd"
  "ProtocolByteEsc \<noteq> ProtocolByteTransposedEnd" "ProtocolByteTransposedEnd \<noteq> ProtocolByteEsc"
  "ProtocolByteEsc \<noteq> ProtocolByteTransposedEsc" "ProtocolByteTransposedEsc \<noteq> ProtocolByteEsc"
  "ProtocolByteTransposedEnd \<noteq> ProtocolByteTransposedEsc"
  "ProtocolByteTransposedEsc \<noteq> ProtocolByteTransposedEnd"
  by (simp_all add: protocol_bytes)

section \<open>Packets\<close>

text \<open>
  The loop of \<open>deserializeData\<close>: \<open>escaped\<close> is the local flag, \<open>acc\<close> the array
  built so far. \<open>None\<close> is the early return of a default constructed array.
\<close>

fun deserialize_loop :: "bool \<Rightarrow> bytes \<Rightarrow> bytes \<Rightarrow> bytes option" where
  "deserialize_loop escaped acc [] = Some acc"
| "deserialize_loop escaped acc (b # bs) =
     (if escaped then
        if b = ProtocolByteTransposedEnd then deserialize_loop False (acc @ [ProtocolByteEnd]) bs
        else if b = ProtocolByteTransposedEsc then deserialize_loop False (acc @ [ProtocolByteEsc]) bs
        else None
      else if b = ProtocolByteEsc then deserialize_loop True acc bs
      else if b = ProtocolByteEnd then Some acc
      else deserialize_loop False (acc @ [b]) bs)"

text \<open>
  The returned \<open>QByteArray\<close> is null exactly when nothing was appended to it: on the error
  return, and when the packet is empty. The callers test \<open>isNull()\<close>; \<open>None\<close> is the
  null array.
\<close>

definition deserializeData :: "bytes \<Rightarrow> bytes option" where
  "deserializeData data =
     (case deserialize_loop False [] data of
        None \<Rightarrow> None
      | Some acc \<Rightarrow> if acc = [] then None else Some acc)"

definition serialize_byte :: "byte \<Rightarrow> bytes" where
  "serialize_byte b =
     (if b = ProtocolByteEnd then [ProtocolByteEsc, ProtocolByteTransposedEnd]
      else if b = ProtocolByteEsc then [ProtocolByteEsc, ProtocolByteTransposedEsc]
      else [b])"

fun serialize_loop :: "bytes \<Rightarrow> bytes" where
  "serialize_loop [] = []"
| "serialize_loop (b # bs) = serialize_byte b @ serialize_loop bs"

definition serializeData :: "bytes \<Rightarrow> bytes" where
  "serializeData data = serialize_loop data @ [ProtocolByteEnd]"

section \<open>Frames\<close>

record Frame =
  fr_socketAddress :: quint16
  fr_data :: bytes

text \<open>
  \<open>QDataStream\<close> reads and writes a \<open>quint16\<close> with the high byte first. Reading past the
  end gives 0 and consumes what is left.
\<close>

fun stream_read_u16 :: "bytes \<Rightarrow> quint16 \<times> bytes" where
  "stream_read_u16 (hi # lo # rest) = (word_cat hi lo, rest)"
| "stream_read_u16 _ = (0, [])"

definition stream_write_u16 :: "quint16 \<Rightarrow> bytes" where
  "stream_write_u16 a = [ucast (drop_bit 8 a), ucast a]"

definition parseFrame :: "bytes \<Rightarrow> Frame" where
  "parseFrame data =
     (let (address, rest) = stream_read_u16 data
      in \<lparr>fr_socketAddress = address, fr_data = rest\<rparr>)"

definition buildFrame :: "Frame \<Rightarrow> bytes" where
  "buildFrame frame = stream_write_u16 (fr_socketAddress frame) @ fr_data frame"

section \<open>Encoding\<close>

lemma serialize_byte_not_Nil [simp]: "serialize_byte b \<noteq> []"
  by (simp add: serialize_byte_def)

lemma serialize_loop_append [simp]:
  "serialize_loop (xs @ ys) = serialize_loop xs @ serialize_loop ys"
  by (induction xs) simp_all

lemma serialize_loop_Nil_iff [simp]: "serialize_loop xs = [] \<longleftrightarrow> xs = []"
  by (cases xs) simp_all

lemma End_notin_serialize_byte [simp]: "ProtocolByteEnd \<notin> set (serialize_byte b)"
  by (simp add: serialize_byte_def)

lemma End_notin_serialize_loop [simp]: "ProtocolByteEnd \<notin> set (serialize_loop xs)"
  by (induction xs) simp_all

lemma serialize_loop_plain:
  "ProtocolByteEnd \<notin> set xs \<Longrightarrow> ProtocolByteEsc \<notin> set xs \<Longrightarrow> serialize_loop xs = xs"
  by (induction xs) (auto simp: serialize_byte_def)

lemma length_serialize_loop:
  "length (serialize_loop xs) =
     length xs + length (filter (\<lambda>b. b = ProtocolByteEnd \<or> b = ProtocolByteEsc) xs)"
  by (induction xs) (auto simp: serialize_byte_def)

lemma deserialize_loop_serialize:
  "deserialize_loop False acc (serialize_loop xs @ ys) = deserialize_loop False (acc @ xs) ys"
  by (induction xs arbitrary: acc) (auto simp: serialize_byte_def)

lemma deserialize_serialize_loop:
  "deserializeData (serialize_loop xs) = (if xs = [] then None else Some xs)"
  using deserialize_loop_serialize [of "[]" xs "[]"] by (simp add: deserializeData_def)

text \<open>What the decoder returns is what was appended, before or after the accumulator.\<close>

lemma deserialize_loop_acc:
  "deserialize_loop e acc xs = map_option (\<lambda>r. acc @ r) (deserialize_loop e [] xs)"
proof (induction xs arbitrary: e acc)
  case Nil
  then show ?case by simp
next
  case (Cons b bs)
  have "deserialize_loop False (acc @ [c]) bs =
      map_option (\<lambda>r. acc @ r) (deserialize_loop False [c] bs)" for c
    by (simp add: Cons.IH [of False "acc @ [c]"] Cons.IH [of False "[c]"] option.map_comp comp_def)
  moreover have "deserialize_loop True acc bs =
      map_option (\<lambda>r. acc @ r) (deserialize_loop True [] bs)"
    by (rule Cons.IH)
  ultimately show ?case by simp
qed

text \<open>A refused prefix refuses every continuation; what follows the END byte is never read.\<close>

lemma deserialize_loop_None_append:
  "deserialize_loop e acc xs = None \<Longrightarrow> deserialize_loop e acc (xs @ ys) = None"
  by (induction e acc xs rule: deserialize_loop.induct) (auto split: if_splits)

lemma deserialize_loop_stop:
  "deserialize_loop False acc (serialize_loop xs @ ProtocolByteEnd # rest) = Some (acc @ xs)"
  by (simp add: deserialize_loop_serialize)

section \<open>Decoding\<close>

text \<open>Where the decoder accepts a packet without END byte, it inverts the encoder.\<close>

lemma deserialize_loop_inverse:
  assumes "deserialize_loop e acc xs = Some out" "ProtocolByteEnd \<notin> set xs"
  shows "(\<exists>ys. out = acc @ ys \<and>
      serialize_loop ys = (if e then [ProtocolByteEsc] else []) @ xs) \<or>
    (\<exists>ys. out = acc @ ys \<and>
      serialize_loop ys @ [ProtocolByteEsc] = (if e then [ProtocolByteEsc] else []) @ xs)"
  using assms
proof (induction e acc xs arbitrary: out rule: deserialize_loop.induct)
  case (1 escaped acc)
  then show ?case by auto
next
  case (2 escaped acc b bs)
  consider (esc_end) "escaped" "b = ProtocolByteTransposedEnd"
    | (esc_esc) "escaped" "b = ProtocolByteTransposedEsc"
    | (esc) "\<not> escaped" "b = ProtocolByteEsc"
    | (plain) "\<not> escaped" "b \<noteq> ProtocolByteEsc" "b \<noteq> ProtocolByteEnd"
    using "2.prems" by (auto split: if_splits)
  then show ?case
  proof cases
    case esc_end
    from "2.IH"(1) [OF esc_end] "2.prems" esc_end obtain ys where
      "out = acc @ ProtocolByteEnd # ys" "serialize_loop ys = bs \<or> serialize_loop ys @ [ProtocolByteEsc] = bs"
      by auto
    with esc_end show ?thesis
      by (auto intro!: exI [of _ "ProtocolByteEnd # ys"] simp: serialize_byte_def)
  next
    case esc_esc
    from "2.IH"(2) [OF esc_esc(1) _ esc_esc(2)] "2.prems" esc_esc obtain ys where
      "out = acc @ ProtocolByteEsc # ys" "serialize_loop ys = bs \<or> serialize_loop ys @ [ProtocolByteEsc] = bs"
      by auto
    with esc_esc show ?thesis
      by (auto intro!: exI [of _ "ProtocolByteEsc # ys"] simp: serialize_byte_def)
  next
    case esc
    with "2.IH"(3) "2.prems" show ?thesis by auto
  next
    case plain
    from "2.IH"(4) [OF plain] "2.prems" plain obtain ys where
      "out = acc @ b # ys" "serialize_loop ys = bs \<or> serialize_loop ys @ [ProtocolByteEsc] = bs"
      by auto
    with plain show ?thesis
      by (auto intro!: exI [of _ "b # ys"] simp: serialize_byte_def)
  qed
qed

lemma serialize_loop_inject: "serialize_loop xs = serialize_loop ys \<Longrightarrow> xs = ys"
  using deserialize_loop_serialize [of "[]" xs "[]"] deserialize_loop_serialize [of "[]" ys "[]"]
  by simp

section \<open>Words of the stream\<close>

lemma stream_u16_roundtrip [simp]:
  "stream_read_u16 (stream_write_u16 a @ rest) = (a, rest)"
proof -
  have "word_cat (ucast (drop_bit 8 a) :: 8 word) (ucast a :: 8 word) = a"
    by (rule bit_word_eqI) (auto simp: bit_word_cat_iff bit_ucast_iff bit_drop_bit_eq)
  then show ?thesis by (simp add: stream_write_u16_def)
qed

lemma parse_build: "parseFrame (buildFrame f) = f"
  by (simp add: parseFrame_def buildFrame_def)

lemma buildFrame_not_Nil [simp]: "buildFrame f \<noteq> []"
  by (simp add: buildFrame_def stream_write_u16_def)

end
