(* ===== verification/ProxyClient.thy ===== *)
theory ProxyClient
  imports TransportClient Slip
begin

text \<open>
  \<open>tunnelproxy/tunnelproxyclient.{h,cpp}\<close>: a transport client with the role it registered for,
  the timer that ends inactive connections, and the reassembly of packets from the chunks a
  socket delivers: SLIP packets once SLIP is enabled, JSON objects before. The lemmas show which
  packets come out of a stream, for every way to cut it into chunks.
\<close>

section \<open>State\<close>

datatype ClientType = TypeNone | TypeServer | TypeClient

record qtimer =
  tm_interval :: int
  tm_singleShot :: bool
  tm_active :: bool

text \<open>\<open>pc_rxRestartsTimer\<close>: \<open>rxDataCountChanged\<close> is connected to the start of the timer.\<close>

record tunnel_proxy_client = transport_client +
  pc_type :: ClientType
  pc_inactiveTimer :: qtimer
  pc_rxRestartsTimer :: bool

definition newTunnelProxyClient ::
  "int \<Rightarrow> transport_kind \<Rightarrow> uuid \<Rightarrow> string \<Rightarrow> quint64 \<Rightarrow> tunnel_proxy_client" where
  "newTunnelProxyClient inactiveTimeout interface clientId address now =
     transport_client.extend (newTransportClient interface clientId address now)
       \<lparr>pc_type = TypeNone,
        pc_inactiveTimer = \<lparr>tm_interval = inactiveTimeout, tm_singleShot = True, tm_active = True\<rparr>,
        pc_rxRestartsTimer = False\<rparr>"

definition setType :: "ClientType \<Rightarrow> tunnel_proxy_client \<Rightarrow> tunnel_proxy_client" where
  "setType t c = (if pc_type c = t then c else c\<lparr>pc_type := t\<rparr>)"

definition timer_start :: "qtimer \<Rightarrow> qtimer" where
  "timer_start t = t\<lparr>tm_active := True\<rparr>"

definition timer_stop :: "qtimer \<Rightarrow> qtimer" where
  "timer_stop t = t\<lparr>tm_active := False\<rparr>"

text \<open>The slot of the inactivity timer; a single shot timer is inactive after it fired.\<close>

definition inactiveTimerTimeout :: "tunnel_proxy_client \<Rightarrow> tunnel_proxy_client \<times> effect list" where
  "inactiveTimerTimeout c =
     (if \<not> tm_active (pc_inactiveTimer c) then (c, [])
      else (if tm_singleShot (pc_inactiveTimer c)
            then c\<lparr>pc_inactiveTimer := timer_stop (pc_inactiveTimer c)\<rparr> else c,
            tc_killConnection ''Tunnelproxy client timeout occurred. The socket was inactive.'' c))"

definition activateClient :: "tunnel_proxy_client \<Rightarrow> tunnel_proxy_client" where
  "activateClient c =
     (let c = c\<lparr>pc_inactiveTimer := timer_stop (pc_inactiveTimer c)\<rparr> in
      if pc_type c \<noteq> TypeServer then c
      else c\<lparr>pc_rxRestartsTimer := True,
             pc_inactiveTimer := \<lparr>tm_interval = 60000, tm_singleShot = False, tm_active = True\<rparr>\<rparr>)"

text \<open>\<open>addRxDataCount\<close> with the slot that \<open>activateClient\<close> connected.\<close>

definition client_addRxDataCount :: "int \<Rightarrow> tunnel_proxy_client \<Rightarrow> tunnel_proxy_client" where
  "client_addRxDataCount dataCount c =
     (case addRxDataCount dataCount c of
        (c', changed) \<Rightarrow>
          if changed \<and> pc_rxRestartsTimer c'
          then c'\<lparr>pc_inactiveTimer := timer_start (pc_inactiveTimer c')\<rparr> else c')"

section \<open>Packets\<close>

text \<open>
  The SLIP branch: the buffer and the bytes still to read give the packets and the buffer left.
  At an END byte the buffer is decoded to see whether it is well formed; the packet that is
  appended is the buffer itself, and only a well formed buffer is cleared.
\<close>

fun slip_loop :: "bytes \<Rightarrow> bytes \<Rightarrow> bytes list \<times> bytes" where
  "slip_loop buffer [] = ([], buffer)"
| "slip_loop buffer (b # bs) =
     (if b = ProtocolByteEnd then
        if buffer = [] then slip_loop buffer bs
        else (case deserializeData buffer of
                None \<Rightarrow> slip_loop buffer bs
              | Some frame \<Rightarrow> (let (packets, rest) = slip_loop [] bs in (buffer # packets, rest)))
      else slip_loop (buffer @ [b]) bs)"

definition braceOpen :: byte where
  "braceOpen = 123"

definition braceClose :: byte where
  "braceClose = 125"

definition newline :: byte where
  "newline = 10"

text \<open>The loop of the JSON branch: cut the buffer after each brace that a newline and an opening
  brace follow.\<close>

function json_split :: "bytes \<Rightarrow> bytes list \<times> bytes" where
  "json_split buffer =
     (case indexOf [braceClose, newline, braceOpen] buffer of
        None \<Rightarrow> ([], buffer)
      | Some i \<Rightarrow> (let (packets, rest) = json_split (drop (i + 2) buffer)
                   in (take (i + 1) buffer # packets, rest)))"
  by pat_completeness auto
termination
  by (relation "measure length") (auto dest!: indexOf_le)

declare json_split.simps [simp del]

definition json_feed :: "bytes \<Rightarrow> bytes \<Rightarrow> bytes list \<times> bytes" where
  "json_feed buffer data =
     (let (packets, rest) = json_split (buffer @ data)
      in if endsWith rest [braceClose, newline] \<or> endsWith rest [braceClose]
         then (packets @ [rest], []) else (packets, rest))"

definition processData :: "bytes \<Rightarrow> 'a transport_client_scheme \<Rightarrow> bytes list \<times> 'a transport_client_scheme" where
  "processData data c =
     (let (packets, rest) =
        (if tc_slipEnabled c then slip_loop (tc_dataBuffer c) data
         else json_feed (tc_dataBuffer c) data)
      in (packets, c\<lparr>tc_dataBuffer := rest\<rparr>))"

section \<open>The SLIP reader\<close>

lemma slip_loop_append:
  "slip_loop buffer (xs @ ys) =
     (let (out, rest) = slip_loop buffer xs; (out', rest') = slip_loop rest ys in (out @ out', rest'))"
  by (induction buffer xs rule: slip_loop.induct) (auto simp: Let_def split: option.splits prod.splits)

interpretation slip_reader: byte_receiver slip_loop
  by unfold_locales (simp_all add: slip_loop_append)

lemma slip_loop_no_End:
  "ProtocolByteEnd \<notin> set xs \<Longrightarrow> slip_loop buffer xs = ([], buffer @ xs)"
  by (induction xs arbitrary: buffer) auto

text \<open>What comes out for an encoded packet is its escaped form, not the packet.\<close>

lemma slip_loop_packet:
  "d \<noteq> [] \<Longrightarrow> slip_loop [] (serializeData d) = ([serialize_loop d], [])"
  by (simp add: serializeData_def slip_loop_append slip_loop_no_End deserialize_serialize_loop)

interpretation slip_link: frame_link slip_loop "[]" "\<lambda>f. serializeData (buildFrame f)"
    "\<lambda>f. serialize_loop (buildFrame f)" "\<lambda>_. True"
  by unfold_locales (simp add: slip_loop_packet)

text \<open>
  A buffer the decoder refuses stays refused whatever is appended: no packet of the connection
  ever comes out again, and nothing is removed from the buffer.
\<close>

lemma deserializeData_None_append:
  "deserialize_loop False [] bad = None \<Longrightarrow> deserializeData (bad @ xs) = None"
  by (simp add: deserializeData_def deserialize_loop_None_append)

lemma slip_loop_stuck:
  assumes "deserialize_loop False [] bad = None"
  shows "slip_loop (bad @ junk) xs = ([], bad @ junk @ filter (\<lambda>b. b \<noteq> ProtocolByteEnd) xs)"
proof (induction xs arbitrary: junk)
  case Nil
  then show ?case by simp
next
  case (Cons b xs)
  have "bad @ junk \<noteq> []" using assms by auto
  then show ?case
    using Cons.IH [of junk] Cons.IH [of "junk @ [b]"] deserializeData_None_append [OF assms, of junk]
    by auto
qed

end
