(* ===== verification/Connections.thy ===== *)
theory Connections
  imports Prelude
begin

text \<open>
  \<open>tunnelproxy/tunnelproxyserverconnection.{h,cpp}\<close> and
  \<open>tunnelproxy/tunnelproxyclientconnection.{h,cpp}\<close>: a registered server with the clients
  connected to it, each under a 16 bit socket address, and a registered client with the server it
  is connected to. A pointer to one of these objects is the client id of the transport client it
  was made for: the proxy makes at most one of them for a transport client. The lemmas show when
  the address a new client gets is free.
\<close>

section \<open>Client connections\<close>

record client_connection =
  cc_transportClient :: uuid
  cc_serverConnection :: "uuid option"
  cc_clientUuid :: uuid
  cc_clientName :: string
  cc_serverUuid :: uuid
  cc_socketAddress :: quint16

definition newClientConnection :: "uuid \<Rightarrow> uuid \<Rightarrow> string \<Rightarrow> client_connection" where
  "newClientConnection transportClient clientUuid clientName =
     \<lparr>cc_transportClient = transportClient, cc_serverConnection = None,
      cc_clientUuid = clientUuid, cc_clientName = clientName,
      cc_serverUuid = nullUuid, cc_socketAddress = 0xFFFF\<rparr>"

text \<open>The argument is the pointer to a server connection and its uuid, \<open>None\<close> the null pointer.\<close>

definition setServerConnection :: "(uuid \<times> uuid) option \<Rightarrow> client_connection \<Rightarrow> client_connection" where
  "setServerConnection server c =
     (case server of
        Some (pointer, serverUuid) \<Rightarrow> c\<lparr>cc_serverConnection := Some pointer, cc_serverUuid := serverUuid\<rparr>
      | None \<Rightarrow> c\<lparr>cc_serverConnection := None, cc_serverUuid := nullUuid\<rparr>)"

definition setSocketAddress :: "quint16 \<Rightarrow> client_connection \<Rightarrow> client_connection" where
  "setSocketAddress a c = c\<lparr>cc_socketAddress := a\<rparr>"

section \<open>Server connections\<close>

record server_connection =
  sc_transportClient :: uuid
  sc_serverUuid :: uuid
  sc_serverName :: string
  sc_connectionLimit :: quint16
  sc_currentAddressCounter :: quint16
  sc_clientConnections :: "(uuid, uuid) qhash"
  sc_clientConnectionsAddresses :: "(quint16, uuid) qhash"
  sc_lastPingTimestamp :: quint64

definition newServerConnection :: "uuid \<Rightarrow> uuid \<Rightarrow> string \<Rightarrow> server_connection" where
  "newServerConnection transportClient serverUuid serverName =
     \<lparr>sc_transportClient = transportClient, sc_serverUuid = serverUuid, sc_serverName = serverName,
      sc_connectionLimit = 100, sc_currentAddressCounter = 0,
      sc_clientConnections = [], sc_clientConnectionsAddresses = [], sc_lastPingTimestamp = 0\<rparr>"

definition reservedAddress :: "quint16 \<Rightarrow> bool" where
  "reservedAddress a = (a = 0 \<or> a = 0xFFFF)"

text \<open>The loop of \<open>getFreeAddress\<close> with the rounds that are left.\<close>

fun freeAddress_loop :: "nat \<Rightarrow> (quint16, uuid) qhash \<Rightarrow> quint16 \<Rightarrow> quint16" where
  "freeAddress_loop 0 used address = address"
| "freeAddress_loop (Suc n) used address =
     (if qcontains used address \<or> reservedAddress address
      then freeAddress_loop n used (address + 1) else address)"

definition getFreeAddress :: "server_connection \<Rightarrow> quint16 \<times> server_connection" where
  "getFreeAddress sc =
     (let counter = sc_currentAddressCounter sc + 1
      in (freeAddress_loop (unat (sc_connectionLimit sc)) (sc_clientConnectionsAddresses sc) counter,
          sc\<lparr>sc_currentAddressCounter := counter\<rparr>))"

text \<open>
  \<open>registerClientConnection\<close> and \<open>unregisterClientConnection\<close> write the server connection
  (\<open>this\<close> is the pointer to it) and the client connection they are given a pointer to.
\<close>

definition registerClientConnection ::
  "uuid \<Rightarrow> server_connection \<Rightarrow> uuid \<Rightarrow> client_connection \<Rightarrow> server_connection \<times> client_connection" where
  "registerClientConnection this sc pointer cc =
     (let (socketAddress, sc') = getFreeAddress sc;
          cc' = setServerConnection (Some (this, sc_serverUuid sc)) (setSocketAddress socketAddress cc)
      in (sc'\<lparr>sc_clientConnectionsAddresses :=
                qinsert socketAddress pointer (sc_clientConnectionsAddresses sc'),
              sc_clientConnections :=
                qinsert (cc_clientUuid cc') pointer (sc_clientConnections sc')\<rparr>, cc'))"

definition unregisterClientConnection ::
  "server_connection \<Rightarrow> client_connection \<Rightarrow> server_connection \<times> client_connection" where
  "unregisterClientConnection sc cc =
     (sc\<lparr>sc_clientConnections := qremove (cc_clientUuid cc) (sc_clientConnections sc),
         sc_clientConnectionsAddresses :=
           qremove (cc_socketAddress cc) (sc_clientConnectionsAddresses sc)\<rparr>,
      setServerConnection None (setSocketAddress 0xFFFF cc))"

definition getClientConnection :: "server_connection \<Rightarrow> quint16 \<Rightarrow> uuid option" where
  "getClientConnection sc socketAddress = map_of (sc_clientConnectionsAddresses sc) socketAddress"

definition clientConnections :: "server_connection \<Rightarrow> uuid list" where
  "clientConnections sc = qvalues (sc_clientConnections sc)"

lemmas connection_defs = setServerConnection_def setSocketAddress_def getFreeAddress_def
  registerClientConnection_def unregisterClientConnection_def

section \<open>Free addresses\<close>

definition takenAddress :: "(quint16, uuid) qhash \<Rightarrow> quint16 \<Rightarrow> bool" where
  "takenAddress used a = (qcontains used a \<or> reservedAddress a)"

text \<open>A taken result means that the loop saw taken addresses only.\<close>

lemma freeAddress_loop_taken:
  "takenAddress used (freeAddress_loop n used a) \<Longrightarrow> k \<le> n \<Longrightarrow> takenAddress used (a + of_nat k)"
proof (induction n used a arbitrary: k rule: freeAddress_loop.induct)
  case (1 used address)
  then show ?case by simp
next
  case (2 n used address)
  have here: "takenAddress used address"
    using "2.prems"(1) by (auto simp: takenAddress_def split: if_splits)
  show ?case
  proof (cases k)
    case 0
    with here show ?thesis by simp
  next
    case (Suc j)
    with "2.IH" [of j] "2.prems" here show ?thesis
      by (simp add: takenAddress_def add.assoc)
  qed
qed

lemma freeAddress_loop_first:
  "\<not> takenAddress used a \<Longrightarrow> 0 < n \<Longrightarrow> freeAddress_loop n used a = a"
  by (cases n) (simp_all add: takenAddress_def)

lemma consecutive_addresses_inj: "inj_on (\<lambda>k. (a :: quint16) + of_nat k) {..n}" if "n < 65536"
proof (rule inj_onI)
  fix i j assume "i \<in> {..n}" "j \<in> {..n}" "a + of_nat i = a + of_nat j"
  then have "(of_nat i :: quint16) = of_nat j" "i < 65536" "j < 65536"
    using that by auto
  then have "take_bit 16 i = take_bit 16 j"
    by (simp add: word_of_nat_eq_iff)
  with \<open>i < 65536\<close> \<open>j < 65536\<close> show "i = j"
    by (simp add: take_bit_nat_def)
qed

text \<open>
  Every round rules out one more address, so the loop finds a free one as long as fewer than
  \<open>n - 1\<close> clients are connected: with 0 and 0xFFFF at most \<open>n\<close> addresses are taken.
\<close>

lemma freeAddress_loop_free:
  assumes "qwf used" "length used + 2 \<le> n" "n < 65536"
  shows "\<not> takenAddress used (freeAddress_loop n used a)"
proof
  let ?f = "\<lambda>k. a + of_nat k :: quint16"
  let ?T = "fst ` set used \<union> {0, 0xFFFF}"
  assume "takenAddress used (freeAddress_loop n used a)"
  then have "takenAddress used (?f k)" if "k \<le> n" for k
    using that by (rule freeAddress_loop_taken)
  then have "?f ` {..n} \<subseteq> ?T"
    unfolding takenAddress_def reservedAddress_def qcontains_iff by blast
  then have "card (?f ` {..n}) \<le> card ?T"
    by (rule card_mono [rotated]) simp
  also have "\<dots> \<le> card (fst ` set used) + card {0 :: quint16, 0xFFFF}"
    by (rule card_Un_le)
  also have "\<dots> \<le> length used + 2"
    using card_length [of "map fst used"] by (simp add: card_insert_if)
  finally have "card (?f ` {..n}) \<le> n"
    using assms(2) by simp
  moreover have "card (?f ` {..n}) = Suc n"
    by (simp add: card_image consecutive_addresses_inj [OF assms(3)])
  ultimately show False by simp
qed

lemma getFreeAddress_free:
  assumes "qwf (sc_clientConnectionsAddresses sc)" "sc_connectionLimit sc = 100"
    and "length (sc_clientConnectionsAddresses sc) \<le> 98"
  shows "\<not> takenAddress (sc_clientConnectionsAddresses sc) (fst (getFreeAddress sc))"
proof -
  have "\<not> takenAddress (sc_clientConnectionsAddresses sc)
      (freeAddress_loop 100 (sc_clientConnectionsAddresses sc) (sc_currentAddressCounter sc + 1))"
    by (rule freeAddress_loop_free) (use assms in auto)
  then show ?thesis
    using assms(2) by (simp add: getFreeAddress_def Let_def)
qed

end
