(* ===== verification/JsonTypes.thy ===== *)
theory JsonTypes
  imports Variant
begin

text \<open>
  \<open>jsonrpc/jsontypes.{h,cpp}\<close>: the type names of the JSON API and the validation of a parameter
  map against a template. A result is the pair (accepted, message), as \<open>QPair<bool, QString>\<close>.
  The main lemma characterises the accepted maps without the order in which the code visits keys.
\<close>

section \<open>Enumerations\<close>

datatype BasicType = BT_Uuid | BT_String | BT_Int | BT_UInt | BT_Double | BT_Bool | BT_Variant | BT_Object

fun basicTypeToString :: "BasicType \<Rightarrow> string" where
  "basicTypeToString BT_Uuid = ''Uuid''"
| "basicTypeToString BT_String = ''String''"
| "basicTypeToString BT_Int = ''Int''"
| "basicTypeToString BT_UInt = ''UInt''"
| "basicTypeToString BT_Double = ''Double''"
| "basicTypeToString BT_Bool = ''Bool''"
| "basicTypeToString BT_Variant = ''Variant''"
| "basicTypeToString BT_Object = ''Object''"

definition s_basicType :: "string list" where
  "s_basicType = map basicTypeToString
     [BT_Uuid, BT_String, BT_Int, BT_UInt, BT_Double, BT_Bool, BT_Variant, BT_Object]"

datatype TunnelProxyError =
    TunnelProxyErrorNoError
  | TunnelProxyErrorInvalidUuid
  | TunnelProxyErrorInternalServerError
  | TunnelProxyErrorServerNotFound
  | TunnelProxyErrorForbiddenCall
  | TunnelProxyErrorAlreadyRegistered
  | TunnelProxyErrorNotRegistered
  | TunnelProxyErrorUnknownSocketAddress

fun tunnelProxyErrorToString :: "TunnelProxyError \<Rightarrow> string" where
  "tunnelProxyErrorToString TunnelProxyErrorNoError = ''TunnelProxyErrorNoError''"
| "tunnelProxyErrorToString TunnelProxyErrorInvalidUuid = ''TunnelProxyErrorInvalidUuid''"
| "tunnelProxyErrorToString TunnelProxyErrorInternalServerError = ''TunnelProxyErrorInternalServerError''"
| "tunnelProxyErrorToString TunnelProxyErrorServerNotFound = ''TunnelProxyErrorServerNotFound''"
| "tunnelProxyErrorToString TunnelProxyErrorForbiddenCall = ''TunnelProxyErrorForbiddenCall''"
| "tunnelProxyErrorToString TunnelProxyErrorAlreadyRegistered = ''TunnelProxyErrorAlreadyRegistered''"
| "tunnelProxyErrorToString TunnelProxyErrorNotRegistered = ''TunnelProxyErrorNotRegistered''"
| "tunnelProxyErrorToString TunnelProxyErrorUnknownSocketAddress = ''TunnelProxyErrorUnknownSocketAddress''"

definition s_tunnelProxyError :: "string list" where
  "s_tunnelProxyError = map tunnelProxyErrorToString
     [TunnelProxyErrorNoError, TunnelProxyErrorInvalidUuid, TunnelProxyErrorInternalServerError,
      TunnelProxyErrorServerNotFound, TunnelProxyErrorForbiddenCall, TunnelProxyErrorAlreadyRegistered,
      TunnelProxyErrorNotRegistered, TunnelProxyErrorUnknownSocketAddress]"

definition basicTypeRef :: string where
  "basicTypeRef = ''$ref:BasicType''"

definition tunnelProxyErrorRef :: string where
  "tunnelProxyErrorRef = ''$ref:TunnelProxyError''"

definition allTypes :: vmap where
  "allTypes = [(''BasicType'', VList (map VString s_basicType)),
               (''TunnelProxyError'', VList (map VString s_tunnelProxyError))]"

section \<open>Validation of single values\<close>

type_synonym report = "bool \<times> string"

definition validateBasicType :: "env \<Rightarrow> variant \<Rightarrow> report" where
  "validateBasicType E v =
     (if env_canConvert E TUuid v \<and> env_convert E TUuid v then
        (if env_uuidOfString E (vtoString E v) = nullUuid then (False, ''Invalid uuid format.'')
         else (True, []))
      else if env_canConvert E TString v \<and> env_convert E TString v then (True, [])
      else if env_canConvert E TInt v \<and> env_convert E TInt v then (True, [])
      else if env_canConvert E TDouble v \<and> env_convert E TDouble v then (True, [])
      else if env_canConvert E (if env_convert E TBool v then TBool else TInvalid) v then (True, [])
      else (False, ''Error validating basic type '' @ vtoString E v @ ''.''))"

fun qjoin :: "string \<Rightarrow> string list \<Rightarrow> string" where
  "qjoin sep [] = []"
| "qjoin sep [s] = s"
| "qjoin sep (s # t # ts) = s @ sep @ qjoin sep (t # ts)"

definition validateEnum :: "env \<Rightarrow> string list \<Rightarrow> variant \<Rightarrow> report" where
  "validateEnum E enumStrings v =
     (vtoString E v \<in> set enumStrings,
      ''Value '' @ vtoString E v @ '' not allowed in '' @ qjoin '', '' enumStrings)"

definition validateProperty :: "env \<Rightarrow> variant \<Rightarrow> variant \<Rightarrow> report" where
  "validateProperty E templateValue v =
     (let t = vtoString E templateValue in
      if t = basicTypeToString BT_Variant then (True, [])
      else if t = basicTypeToString BT_Object then (True, [])
      else if t = ''Uuid'' then
        (env_canConvert E TUuid v, ''Param '' @ vtoString E v @ '' is not a uuid.'')
      else if t = ''String'' then
        (env_canConvert E TString v, ''Param '' @ vtoString E v @ '' is not a string.'')
      else if t = ''Bool'' then
        (env_canConvert E TBool v, ''Param '' @ vtoString E v @ '' is not a bool.'')
      else if t = ''Int'' then
        (env_canConvert E TInt v, ''Param '' @ vtoString E v @ '' is not a int.'')
      else if t = ''UInt'' then
        (env_canConvert E TUInt v, ''Param '' @ vtoString E v @ '' is not a int.'')
      else (False, ''Unhandled property type: '' @ vtoString E v @ '' (expected: '' @ t @ '')''))"

section \<open>Validation against a template\<close>

text \<open>
  A key of a template that starts with \<open>o:\<close> is optional. \<open>validateKeys\<close> is the first
  loop of \<open>validateMap\<close>, over the sorted keys of the template, \<open>forbiddenKeys\<close> the second,
  over those of the map.
\<close>

definition optionalKey :: "string \<Rightarrow> bool" where
  "optionalKey key = startsWith key ''o:''"

definition strippedKey :: "string \<Rightarrow> string" where
  "strippedKey key = (if optionalKey key then drop 2 key else key)"

fun forbiddenKeys :: "env \<Rightarrow> vmap \<Rightarrow> string list \<Rightarrow> vmap \<Rightarrow> report" where
  "forbiddenKeys E tm [] m = (True, [])"
| "forbiddenKeys E tm (key # keys) m =
     (if \<not> qcontains tm key \<and> \<not> qcontains tm (''o:'' @ key) then
        (False, ''Forbidden key \"'' @ key @ ''\" in '' @ env_toJsonText E (VMap m))
      else forbiddenKeys E tm keys m)"

function validateMap :: "env \<Rightarrow> vmap \<Rightarrow> vmap \<Rightarrow> report"
  and validateKeys :: "env \<Rightarrow> vmap \<Rightarrow> string list \<Rightarrow> vmap \<Rightarrow> report"
  and validateVariant :: "env \<Rightarrow> variant \<Rightarrow> variant \<Rightarrow> report"
  and validateList :: "env \<Rightarrow> variant \<Rightarrow> variant list \<Rightarrow> report" where
  "validateMap E tm m =
     (case validateKeys E tm (qkeys tm) m of
        (False, msg) \<Rightarrow> (False, msg)
      | (True, _) \<Rightarrow> forbiddenKeys E tm (qkeys m) m)"
| "validateKeys E tm [] m = (True, [])"
| "validateKeys E tm (key # keys) m =
     (if \<not> optionalKey key \<and> \<not> qcontains m (strippedKey key) then
        (False, ''Missing key '' @ key @ '' in '' @ env_toJsonText E (VMap m))
      else
        (case (map_of tm key, map_of m (strippedKey key)) of
           (Some t, Some v) \<Rightarrow>
             (case validateVariant E t v of
                (False, msg) \<Rightarrow> (False, msg)
              | (True, _) \<Rightarrow> validateKeys E tm keys m)
         | _ \<Rightarrow> validateKeys E tm keys m))"
| "validateVariant E t v =
     (case t of
        VString s \<Rightarrow>
          (if startsWith s ''$ref:'' then
             if s = basicTypeRef then
               (case validateBasicType E v of (False, msg) \<Rightarrow> (False, msg) | _ \<Rightarrow> (True, []))
             else if s = tunnelProxyErrorRef then
               (case validateEnum E s_tunnelProxyError v of (False, msg) \<Rightarrow> (False, msg) | _ \<Rightarrow> (True, []))
             else (False, ''Unhandled ref '' @ s @ ''. Server implementation incomplete.'')
           else (case validateProperty E t v of (False, msg) \<Rightarrow> (False, msg) | _ \<Rightarrow> (True, [])))
      | VMap tm \<Rightarrow>
          (case validateMap E tm (vtoMap v) of (False, msg) \<Rightarrow> (False, msg) | _ \<Rightarrow> (True, []))
      | VList (entry # _) \<Rightarrow>
          (case validateList E entry (vtoList v) of (False, msg) \<Rightarrow> (False, msg) | _ \<Rightarrow> (True, []))
      | _ \<Rightarrow> (False, ''Unhandled value '' @ vtoString E t @ ''.''))"
| "validateList E entry [] = (True, [])"
| "validateList E entry (v # vs) =
     (case validateVariant E entry v of
        (False, msg) \<Rightarrow> (False, msg)
      | (True, _) \<Rightarrow> validateList E entry vs)"
  by pat_completeness auto
termination
  by (relation "measures
      [\<lambda>x. case x of Inl (Inl (E, tm, m)) \<Rightarrow> size_list (size_prod (\<lambda>_. 0) size) tm
             | Inl (Inr (E, tm, ks, m)) \<Rightarrow> size_list (size_prod (\<lambda>_. 0) size) tm
             | Inr (Inl (E, t, v)) \<Rightarrow> size t
             | Inr (Inr (E, t, vs)) \<Rightarrow> size t,
       \<lambda>x. case x of Inl (Inl (E, tm, m)) \<Rightarrow> Suc (length (qkeys tm))
             | Inl (Inr (E, tm, ks, m)) \<Rightarrow> length ks
             | Inr (Inl (E, t, v)) \<Rightarrow> 0
             | Inr (Inr (E, t, vs)) \<Rightarrow> Suc (length vs)]")
    (auto simp: size_vvalue_less)

declare validateMap.simps [simp del] validateVariant.simps [simp del]

section \<open>Accepted maps\<close>

text \<open>
  The order of the visits only decides which error is reported. A map is accepted when every
  mandatory key is there, every value under a template key fits, and no other key occurs.
\<close>

definition mapFits :: "env \<Rightarrow> vmap \<Rightarrow> vmap \<Rightarrow> bool" where
  "mapFits E tm m =
     ((\<forall>k \<in> fst ` set tm. \<not> optionalKey k \<longrightarrow> qcontains m (strippedKey k)) \<and>
      (\<forall>k t v. map_of tm k = Some t \<longrightarrow> map_of m (strippedKey k) = Some v \<longrightarrow>
        fst (validateVariant E t v)) \<and>
      (\<forall>k \<in> fst ` set m. qcontains tm k \<or> qcontains tm (''o:'' @ k)))"

lemma forbiddenKeys_fst:
  "fst (forbiddenKeys E tm ks m) \<longleftrightarrow> (\<forall>k \<in> set ks. qcontains tm k \<or> qcontains tm (''o:'' @ k))"
  by (induction ks) auto

lemma validateKeys_fst:
  "fst (validateKeys E tm ks m) \<longleftrightarrow>
     (\<forall>k \<in> set ks. (optionalKey k \<or> qcontains m (strippedKey k)) \<and>
       (\<forall>t v. map_of tm k = Some t \<longrightarrow> map_of m (strippedKey k) = Some v \<longrightarrow>
         fst (validateVariant E t v)))"
proof (induction ks)
  case Nil
  then show ?case by simp
next
  case (Cons k ks)
  show ?case
  proof (cases "map_of tm k")
    case None
    with Cons show ?thesis by auto
  next
    case (Some t)
    show ?thesis
    proof (cases "map_of m (strippedKey k)")
      case None
      with Some Cons show ?thesis by (auto simp: qcontains_def)
    next
      case (Some v)
      with \<open>map_of tm k = Some t\<close> Cons show ?thesis
        by (auto simp: qcontains_def split: prod.splits bool.splits)
    qed
  qed
qed

lemma validateMap_fst: "fst (validateMap E tm m) \<longleftrightarrow> mapFits E tm m"
proof -
  have key: "k \<in> fst ` set tm" if "map_of tm k = Some t" for k t
    using that by (metis domI dom_map_of_conv_image_fst)
  have "fst (validateMap E tm m) \<longleftrightarrow>
      fst (validateKeys E tm (qkeys tm) m) \<and> fst (forbiddenKeys E tm (qkeys m) m)"
    by (auto simp: validateMap.simps split: prod.splits bool.splits)
  also have "\<dots> \<longleftrightarrow> mapFits E tm m"
    unfolding validateKeys_fst forbiddenKeys_fst mapFits_def set_qkeys
    using key by blast
  finally show ?thesis .
qed

lemma validateVariant_property:
  "\<not> startsWith s ''$ref:'' \<Longrightarrow>
     fst (validateVariant E (VString s) v) = fst (validateProperty E (VString s) v)"
  by (auto simp: validateVariant.simps split: prod.splits bool.splits)

lemma validateVariant_errorRef:
  "fst (validateVariant E (VString tunnelProxyErrorRef) v) \<longleftrightarrow> vtoString E v \<in> set s_tunnelProxyError"
  by (auto simp: validateVariant.simps validateEnum_def startsWith_def tunnelProxyErrorRef_def
      basicTypeRef_def split: bool.splits)

lemma tunnelProxyErrorToString_mem [simp]: "tunnelProxyErrorToString e \<in> set s_tunnelProxyError"
  by (cases e) (simp_all add: s_tunnelProxyError_def)

lemma tunnelProxyErrorToString_inject [simp]:
  "tunnelProxyErrorToString e = tunnelProxyErrorToString e' \<longleftrightarrow> e = e'"
  by (cases e; cases e') simp_all

text \<open>A rejected map says why: the report of the first loop, or of the second.\<close>

lemma validateMap_accept_message: "fst (validateMap E tm m) \<Longrightarrow> snd (validateMap E tm m) = []"
proof -
  have fk: "fst (forbiddenKeys E tm ks m) \<Longrightarrow> snd (forbiddenKeys E tm ks m) = []" for ks
    by (induction ks) (auto split: if_splits)
  assume "fst (validateMap E tm m)"
  with fk show ?thesis
    by (auto simp: validateMap.simps split: prod.splits bool.splits)
qed

end
