(* ===== verification/JsonHandler.thy ===== *)
theory JsonHandler
  imports JsonTypes
begin

text \<open>
  \<open>jsonrpc/jsonhandler.{h,cpp}\<close> and \<open>jsonrpc/jsonreply.{h,cpp}\<close>: a handler's tables of
  method descriptions, parameter and return templates, filled by its constructor and guarded by
  its meta object, and the replies its methods create.
\<close>

section \<open>Handlers\<close>

text \<open>
  \<open>jh_metaMethods\<close> is the part of the Qt meta object the code looks at: the invokable methods,
  signals and slots the class declares, with their kind, in the order of their indices.
\<close>

datatype MethodType = MetaMethod | MetaSignal | MetaSlot

record json_handler =
  jh_name :: string
  jh_metaMethods :: "(string \<times> MethodType) list"
  jh_descriptions :: "(string, string) qhash"
  jh_params :: "(string, vmap) qhash"
  jh_returns :: "(string, vmap) qhash"

definition newHandler :: "string \<Rightarrow> (string \<times> MethodType) list \<Rightarrow> json_handler" where
  "newHandler name metaMethods =
     \<lparr>jh_name = name, jh_metaMethods = metaMethods,
      jh_descriptions = [], jh_params = [], jh_returns = []\<rparr>"

definition declaresMethod :: "json_handler \<Rightarrow> string \<Rightarrow> bool" where
  "declaresMethod h methodName = list_ex (\<lambda>m. fst m = methodName) (jh_metaMethods h)"

definition setDescription :: "string \<Rightarrow> string \<Rightarrow> json_handler \<Rightarrow> json_handler" where
  "setDescription methodName description h =
     (if declaresMethod h methodName
      then h\<lparr>jh_descriptions := qinsert methodName description (jh_descriptions h)\<rparr> else h)"

definition setParams :: "string \<Rightarrow> vmap \<Rightarrow> json_handler \<Rightarrow> json_handler" where
  "setParams methodName params h =
     (if declaresMethod h methodName
      then h\<lparr>jh_params := qinsert methodName params (jh_params h)\<rparr> else h)"

definition setReturns :: "string \<Rightarrow> vmap \<Rightarrow> json_handler \<Rightarrow> json_handler" where
  "setReturns methodName returns h =
     (if declaresMethod h methodName
      then h\<lparr>jh_returns := qinsert methodName returns (jh_returns h)\<rparr> else h)"

definition hasMethod :: "json_handler \<Rightarrow> string \<Rightarrow> bool" where
  "hasMethod h methodName =
     (qcontains (jh_descriptions h) methodName \<and> qcontains (jh_params h) methodName \<and>
      qcontains (jh_returns h) methodName)"

definition templateOf :: "(string, vmap) qhash \<Rightarrow> string \<Rightarrow> vmap" where
  "templateOf h methodName = (case map_of h methodName of None \<Rightarrow> [] | Some t \<Rightarrow> t)"

definition validateParams :: "env \<Rightarrow> json_handler \<Rightarrow> string \<Rightarrow> vmap \<Rightarrow> report" where
  "validateParams E h methodName params = validateMap E (templateOf (jh_params h) methodName) params"

definition validateReturns :: "env \<Rightarrow> json_handler \<Rightarrow> string \<Rightarrow> vmap \<Rightarrow> report" where
  "validateReturns E h methodName returns = validateMap E (templateOf (jh_returns h) methodName) returns"

definition upperInitial :: "string \<Rightarrow> bool" where
  "upperInitial s = (case s of [] \<Rightarrow> False | c # _ \<Rightarrow> CHR ''A'' \<le> c \<and> c \<le> CHR ''Z'')"

text \<open>The entry of one meta method in the introspection map, if it has one.\<close>

definition introspectMethod :: "json_handler \<Rightarrow> string \<Rightarrow> MethodType \<Rightarrow> vmap option" where
  "introspectMethod h m kind =
     (case kind of
        MetaMethod \<Rightarrow>
          (if \<not> hasMethod h m then None
           else Some [(''description'', VString (the (map_of (jh_descriptions h) m))),
                      (''params'', VMap (templateOf (jh_params h) m)),
                      (''returns'', VMap (templateOf (jh_returns h) m))])
      | MetaSignal \<Rightarrow>
          (if \<not> qcontains (jh_descriptions h) m \<or> \<not> qcontains (jh_params h) m then None
           else if upperInitial m
           then Some [(''description'', VString (the (map_of (jh_descriptions h) m))),
                      (''params'', VMap (templateOf (jh_params h) m))]
           else None)
      | MetaSlot \<Rightarrow> None)"

fun introspect_loop :: "json_handler \<Rightarrow> MethodType \<Rightarrow> (string \<times> MethodType) list \<Rightarrow> vmap \<Rightarrow> vmap" where
  "introspect_loop h type [] data = data"
| "introspect_loop h type ((m, kind) # ms) data =
     (if kind \<noteq> type then introspect_loop h type ms data
      else case introspectMethod h m kind of
             None \<Rightarrow> introspect_loop h type ms data
           | Some methodData \<Rightarrow>
               introspect_loop h type ms (qinsert (jh_name h @ ''.'' @ m) (VMap methodData) data))"

definition introspect :: "json_handler \<Rightarrow> MethodType \<Rightarrow> vmap" where
  "introspect h type = introspect_loop h type (jh_metaMethods h) []"

lemma set_tables_simps [simp]:
  "jh_name (setDescription m d h) = jh_name h" "jh_name (setParams m p h) = jh_name h"
  "jh_name (setReturns m r h) = jh_name h"
  "declaresMethod (setDescription m d h) = declaresMethod h"
  "declaresMethod (setParams m p h) = declaresMethod h"
  "declaresMethod (setReturns m r h) = declaresMethod h"
  "jh_descriptions (setParams m p h) = jh_descriptions h"
  "jh_descriptions (setReturns m r h) = jh_descriptions h"
  "jh_params (setDescription m d h) = jh_params h" "jh_params (setReturns m r h) = jh_params h"
  "jh_returns (setDescription m d h) = jh_returns h" "jh_returns (setParams m p h) = jh_returns h"
  by (simp_all add: setDescription_def setParams_def setReturns_def declaresMethod_def [abs_def])

lemma map_of_tables [simp]:
  "map_of (jh_descriptions (setDescription m d h)) =
     (if declaresMethod h m then (map_of (jh_descriptions h))(m \<mapsto> d) else map_of (jh_descriptions h))"
  "map_of (jh_params (setParams m p h)) =
     (if declaresMethod h m then (map_of (jh_params h))(m \<mapsto> p) else map_of (jh_params h))"
  "map_of (jh_returns (setReturns m r h)) =
     (if declaresMethod h m then (map_of (jh_returns h))(m \<mapsto> r) else map_of (jh_returns h))"
  by (simp_all add: setDescription_def setParams_def setReturns_def)

lemma newHandler_simps [simp]:
  "jh_name (newHandler n ms) = n" "jh_descriptions (newHandler n ms) = []"
  "jh_params (newHandler n ms) = []" "jh_returns (newHandler n ms) = []"
  "declaresMethod (newHandler n ms) m \<longleftrightarrow> m \<in> fst ` set ms"
  by (auto simp: newHandler_def declaresMethod_def list_ex_iff)

text \<open>The constructors of the handlers run their setters one after the other.\<close>

definition buildHandler ::
  "string \<Rightarrow> (string \<times> MethodType) list \<Rightarrow> (json_handler \<Rightarrow> json_handler) list \<Rightarrow> json_handler" where
  "buildHandler name metaMethods setters = foldl (\<lambda>h f. f h) (newHandler name metaMethods) setters"

text \<open>Only a declared method gets an entry, so a method the API answers is always declared.\<close>

definition handler_ok :: "json_handler \<Rightarrow> bool" where
  "handler_ok h = (\<forall>m. hasMethod h m \<longrightarrow> declaresMethod h m)"

lemma handler_ok_new: "handler_ok (newHandler name ms)"
  by (simp add: handler_ok_def newHandler_def hasMethod_def qcontains_def)

lemma handler_ok_setDescription: "handler_ok h \<Longrightarrow> handler_ok (setDescription m d h)"
  by (auto simp: handler_ok_def setDescription_def hasMethod_def declaresMethod_def qcontains_def)

lemma handler_ok_setParams: "handler_ok h \<Longrightarrow> handler_ok (setParams m d h)"
  by (auto simp: handler_ok_def setParams_def hasMethod_def declaresMethod_def qcontains_def)

lemma handler_ok_setReturns: "handler_ok h \<Longrightarrow> handler_ok (setReturns m d h)"
  by (auto simp: handler_ok_def setReturns_def hasMethod_def declaresMethod_def qcontains_def)

lemmas handler_ok_intros = handler_ok_new handler_ok_setDescription handler_ok_setParams
  handler_ok_setReturns

section \<open>Replies\<close>

datatype ReplyType = TypeSync | TypeAsync

text \<open>\<open>rep_handler\<close> is the name of the handler; \<open>rep_waiting\<close> tells whether the timer runs.\<close>

record json_reply =
  rep_type :: ReplyType
  rep_data :: vmap
  rep_handler :: string
  rep_method :: string
  rep_clientId :: uuid
  rep_commandId :: int
  rep_timedOut :: bool
  rep_success :: bool
  rep_waiting :: bool

definition newJsonReply :: "ReplyType \<Rightarrow> string \<Rightarrow> string \<Rightarrow> vmap \<Rightarrow> bool \<Rightarrow> json_reply" where
  [simp]: "newJsonReply type handler method data success =
     \<lparr>rep_type = type, rep_data = data, rep_handler = handler, rep_method = method,
      rep_clientId = nullUuid, rep_commandId = 0, rep_timedOut = False, rep_success = success,
      rep_waiting = False\<rparr>"

definition createReply :: "string \<Rightarrow> string \<Rightarrow> vmap \<Rightarrow> json_reply" where
  "createReply handler method data = newJsonReply TypeSync handler method data True"

definition createAsyncReply :: "string \<Rightarrow> string \<Rightarrow> json_reply" where
  "createAsyncReply handler method = newJsonReply TypeAsync handler method [] True"

definition reply_setClientId :: "uuid \<Rightarrow> json_reply \<Rightarrow> json_reply" where
  "reply_setClientId clientId r = r\<lparr>rep_clientId := clientId\<rparr>"

definition reply_setCommandId :: "int \<Rightarrow> json_reply \<Rightarrow> json_reply" where
  "reply_setCommandId commandId r = r\<lparr>rep_commandId := commandId\<rparr>"

definition reply_setData :: "vmap \<Rightarrow> json_reply \<Rightarrow> json_reply" where
  "reply_setData data r = r\<lparr>rep_data := data\<rparr>"

definition reply_setSuccess :: "bool \<Rightarrow> json_reply \<Rightarrow> json_reply" where
  "reply_setSuccess success r = r\<lparr>rep_success := success\<rparr>"

definition reply_startWait :: "json_reply \<Rightarrow> json_reply" where
  "reply_startWait r = r\<lparr>rep_waiting := True\<rparr>"

text \<open>The timeout slot; the caller goes on with the finished signal.\<close>

definition reply_timeout :: "json_reply \<Rightarrow> json_reply" where
  "reply_timeout r = r\<lparr>rep_timedOut := True\<rparr>"

end
