(* ===== verification/Config.thy ===== *)
theory Config
  imports Variant
begin

text \<open>
  \<open>proxyconfiguration.{h,cpp}\<close>: the settings of the proxy and how they are read. The settings
  file and the file system are the parameter \<open>files\<close>. The lemmas say when a configuration is
  refused and what the settings are afterwards.
\<close>

text \<open>
  \<^item> \<open>fs_exists\<close>: the file exists;
  \<^item> \<open>fs_setting\<close>: \<open>QSettings(file, IniFormat)\<close>, the value under a group and a key;
  \<^item> \<open>fs_read\<close>: the content of a file that can be opened;
  \<^item> \<open>fs_hostAddress\<close>: \<open>QHostAddress(text).toString()\<close>.
\<close>

record files =
  fs_exists :: "string \<Rightarrow> bool"
  fs_setting :: "string \<Rightarrow> string \<Rightarrow> string \<Rightarrow> variant option"
  fs_read :: "string \<Rightarrow> bytes option"
  fs_hostAddress :: "string \<Rightarrow> string"

text \<open>Certificates and keys stay the text of their files.\<close>

datatype PeerVerifyMode = VerifyNone | VerifyPeer

datatype SslProtocol = TlsV1_2OrLater | SecureProtocols

record ssl_configuration =
  ssl_peerVerifyMode :: PeerVerifyMode
  ssl_protocol :: SslProtocol
  ssl_localCertificate :: bytes
  ssl_privateKey :: bytes
  ssl_caCertificates :: "bytes list"

text \<open>\<open>cfg_sslConfiguration\<close> is \<open>None\<close> while it is the default constructed null
  configuration.\<close>

record proxy_configuration =
  cfg_fileName :: string
  cfg_serverName :: string
  cfg_writeLogFile :: bool
  cfg_logFileName :: string
  cfg_logEngineEnabled :: bool
  cfg_monitorSocketFileName :: string
  cfg_jsonRpcTimeout :: int
  cfg_inactiveTimeout :: int
  cfg_sslEnabled :: bool
  cfg_sslCertificateFileName :: string
  cfg_sslCertificateKeyFileName :: string
  cfg_sslCertificateChainFileName :: string
  cfg_sslConfiguration :: "ssl_configuration option"
  cfg_unixSocketFileName :: string
  cfg_webSocketServerTunnelProxyHost :: string
  cfg_webSocketServerTunnelProxyPort :: quint16
  cfg_tcpServerTunnelProxyHost :: string
  cfg_tcpServerTunnelProxyPort :: quint16

definition defaultConfiguration :: proxy_configuration where
  "defaultConfiguration =
     \<lparr>cfg_fileName = [], cfg_serverName = [], cfg_writeLogFile = False,
      cfg_logFileName = ''/var/log/nymea-remoteproxy.log'', cfg_logEngineEnabled = False,
      cfg_monitorSocketFileName = [], cfg_jsonRpcTimeout = 10000, cfg_inactiveTimeout = 8000,
      cfg_sslEnabled = True,
      cfg_sslCertificateFileName = ''/etc/ssl/certs/ssl-cert-snakeoil.pem'',
      cfg_sslCertificateKeyFileName = ''/etc/ssl/private/ssl-cert-snakeoil.key'',
      cfg_sslCertificateChainFileName = [], cfg_sslConfiguration = None,
      cfg_unixSocketFileName = ''/run/nymea-remoteproxy.socket'',
      cfg_webSocketServerTunnelProxyHost = ''127.0.0.1'', cfg_webSocketServerTunnelProxyPort = 2212,
      cfg_tcpServerTunnelProxyHost = ''127.0.0.1'', cfg_tcpServerTunnelProxyPort = 2213\<rparr>"

section \<open>Setters\<close>

text \<open>The getters are the fields.\<close>

definition setServerName :: "string \<Rightarrow> proxy_configuration \<Rightarrow> proxy_configuration" where
  "setServerName x c = c\<lparr>cfg_serverName := x\<rparr>"

definition setWriteLogFile :: "bool \<Rightarrow> proxy_configuration \<Rightarrow> proxy_configuration" where
  "setWriteLogFile x c = c\<lparr>cfg_writeLogFile := x\<rparr>"

definition setLogFileName :: "string \<Rightarrow> proxy_configuration \<Rightarrow> proxy_configuration" where
  "setLogFileName x c = c\<lparr>cfg_logFileName := x\<rparr>"

definition setLogEngineEnabled :: "bool \<Rightarrow> proxy_configuration \<Rightarrow> proxy_configuration" where
  "setLogEngineEnabled x c = c\<lparr>cfg_logEngineEnabled := x\<rparr>"

definition setMonitorSocketFileName :: "string \<Rightarrow> proxy_configuration \<Rightarrow> proxy_configuration" where
  "setMonitorSocketFileName x c = c\<lparr>cfg_monitorSocketFileName := x\<rparr>"

definition setJsonRpcTimeout :: "int \<Rightarrow> proxy_configuration \<Rightarrow> proxy_configuration" where
  "setJsonRpcTimeout x c = c\<lparr>cfg_jsonRpcTimeout := x\<rparr>"

definition setInactiveTimeout :: "int \<Rightarrow> proxy_configuration \<Rightarrow> proxy_configuration" where
  "setInactiveTimeout x c = c\<lparr>cfg_inactiveTimeout := x\<rparr>"

definition setSslEnabled :: "bool \<Rightarrow> proxy_configuration \<Rightarrow> proxy_configuration" where
  "setSslEnabled x c = c\<lparr>cfg_sslEnabled := x\<rparr>"

definition setSslCertificateFileName :: "string \<Rightarrow> proxy_configuration \<Rightarrow> proxy_configuration" where
  "setSslCertificateFileName x c = c\<lparr>cfg_sslCertificateFileName := x\<rparr>"

definition setSslCertificateKeyFileName :: "string \<Rightarrow> proxy_configuration \<Rightarrow> proxy_configuration" where
  "setSslCertificateKeyFileName x c = c\<lparr>cfg_sslCertificateKeyFileName := x\<rparr>"

definition setSslCertificateChainFileName :: "string \<Rightarrow> proxy_configuration \<Rightarrow> proxy_configuration" where
  "setSslCertificateChainFileName x c = c\<lparr>cfg_sslCertificateChainFileName := x\<rparr>"

definition setUnixSocketFileName :: "string \<Rightarrow> proxy_configuration \<Rightarrow> proxy_configuration" where
  "setUnixSocketFileName x c = c\<lparr>cfg_unixSocketFileName := x\<rparr>"

definition setWebSocketServerTunnelProxyHost :: "string \<Rightarrow> proxy_configuration \<Rightarrow> proxy_configuration" where
  "setWebSocketServerTunnelProxyHost x c = c\<lparr>cfg_webSocketServerTunnelProxyHost := x\<rparr>"

definition setWebSocketServerTunnelProxyPort :: "quint16 \<Rightarrow> proxy_configuration \<Rightarrow> proxy_configuration" where
  "setWebSocketServerTunnelProxyPort x c = c\<lparr>cfg_webSocketServerTunnelProxyPort := x\<rparr>"

definition setTcpServerTunnelProxyHost :: "string \<Rightarrow> proxy_configuration \<Rightarrow> proxy_configuration" where
  "setTcpServerTunnelProxyHost x c = c\<lparr>cfg_tcpServerTunnelProxyHost := x\<rparr>"

definition setTcpServerTunnelProxyPort :: "quint16 \<Rightarrow> proxy_configuration \<Rightarrow> proxy_configuration" where
  "setTcpServerTunnelProxyPort x c = c\<lparr>cfg_tcpServerTunnelProxyPort := x\<rparr>"

lemmas setters =
  setServerName_def setWriteLogFile_def setLogFileName_def
  setLogEngineEnabled_def setMonitorSocketFileName_def setJsonRpcTimeout_def
  setInactiveTimeout_def setSslEnabled_def setSslCertificateFileName_def
  setSslCertificateKeyFileName_def setSslCertificateChainFileName_def setUnixSocketFileName_def
  setWebSocketServerTunnelProxyHost_def setWebSocketServerTunnelProxyPort_def setTcpServerTunnelProxyHost_def
  setTcpServerTunnelProxyPort_def

section \<open>Loading\<close>

text \<open>\<open>settings.value(key, default)\<close> inside a group.\<close>

definition setting :: "files \<Rightarrow> string \<Rightarrow> string \<Rightarrow> string \<Rightarrow> variant \<Rightarrow> variant" where
  "setting F file grp key dflt =
     (case fs_setting F file grp key of None \<Rightarrow> dflt | Some v \<Rightarrow> v)"

definition readSettings :: "env \<Rightarrow> files \<Rightarrow> proxy_configuration \<Rightarrow> proxy_configuration" where
  "readSettings E F c =
     (let s = setting F (cfg_fileName c);
          c = setServerName (vtoString E (s ''ProxyServer'' ''name'' (VString ''nymea-remoteproxy''))) c;
          c = setWriteLogFile (vtoBool E (s ''ProxyServer'' ''writeLogs'' (VBool False))) c;
          c = setLogFileName
                (vtoString E (s ''ProxyServer'' ''logFile'' (VString ''/var/log/nymea-remoteproxy.log''))) c;
          c = setLogEngineEnabled (vtoBool E (s ''ProxyServer'' ''logEngineEnabled'' (VBool False))) c;
          c = setMonitorSocketFileName
                (vtoString E (s ''ProxyServer'' ''monitorSocket'' (VString ''/tmp/nymea-remoteproxy.monitor''))) c;
          c = setJsonRpcTimeout (vtoInt0 E (s ''ProxyServer'' ''jsonRpcTimeout'' (VInt 10000))) c;
          c = setInactiveTimeout (vtoInt0 E (s ''ProxyServer'' ''inactiveTimeout'' (VInt 8000))) c;
          c = setSslEnabled (vtoBool E (s ''SSL'' ''enabled'' (VBool True))) c;
          c = setSslCertificateFileName
                (vtoString E (s ''SSL'' ''certificate'' (VString ''/etc/ssl/certs/ssl-cert-snakeoil.pem''))) c;
          c = setSslCertificateKeyFileName
                (vtoString E (s ''SSL'' ''certificateKey'' (VString ''/etc/ssl/private/ssl-cert-snakeoil.key''))) c;
          c = setSslCertificateChainFileName (vtoString E (s ''SSL'' ''certificateChain'' (VString []))) c;
          c = setUnixSocketFileName
                (vtoString E (s ''UnixSocketServerTunnelProxy'' ''unixSocketFileName''
                  (VString ''/run/nymea-remoteproxy.socket''))) c;
          c = setWebSocketServerTunnelProxyHost
                (fs_hostAddress F (vtoString E (s ''WebSocketServerTunnelProxy'' ''host'' (VString ''127.0.0.1'')))) c;
          c = setWebSocketServerTunnelProxyPort
                (word_of_int (vtoInt0 E (s ''WebSocketServerTunnelProxy'' ''port'' (VInt 2212)))) c;
          c = setTcpServerTunnelProxyHost
                (fs_hostAddress F (vtoString E (s ''TcpServerTunnelProxy'' ''host'' (VString ''127.0.0.1'')))) c
      in setTcpServerTunnelProxyPort
           (word_of_int (vtoInt0 E (s ''TcpServerTunnelProxy'' ''port'' (VInt 2213)))) c)"

definition loadSslConfiguration :: "files \<Rightarrow> proxy_configuration \<Rightarrow> bool \<times> proxy_configuration" where
  "loadSslConfiguration F c =
     (case fs_read F (cfg_sslCertificateFileName c) of
        None \<Rightarrow> (False, c)
      | Some certificate \<Rightarrow>
     (case fs_read F (cfg_sslCertificateKeyFileName c) of
        None \<Rightarrow> (False, c)
      | Some key \<Rightarrow>
     (let ssl = \<lparr>ssl_peerVerifyMode = VerifyNone, ssl_protocol = TlsV1_2OrLater,
                 ssl_localCertificate = certificate, ssl_privateKey = key, ssl_caCertificates = []\<rparr>
      in if cfg_sslCertificateChainFileName c = [] then (True, c\<lparr>cfg_sslConfiguration := Some ssl\<rparr>)
         else (case fs_read F (cfg_sslCertificateChainFileName c) of
                 None \<Rightarrow> (False, c)
               | Some chain \<Rightarrow>
                   (True, c\<lparr>cfg_sslConfiguration := Some (ssl\<lparr>ssl_caCertificates := [chain]\<rparr>)\<rparr>)))))"

definition loadConfiguration ::
  "env \<Rightarrow> files \<Rightarrow> string \<Rightarrow> proxy_configuration \<Rightarrow> bool \<times> proxy_configuration" where
  "loadConfiguration E F fileName c =
     (let c = c\<lparr>cfg_fileName := fileName\<rparr>
      in if \<not> fs_exists F fileName then (False, c) else loadSslConfiguration F (readSettings E F c))"

section \<open>When a configuration is refused\<close>

text \<open>The file names that count are the ones of the settings just read.\<close>

lemma loadSslConfiguration_accept:
  "fst (loadSslConfiguration F c) \<longleftrightarrow>
     fs_read F (cfg_sslCertificateFileName c) \<noteq> None \<and>
     fs_read F (cfg_sslCertificateKeyFileName c) \<noteq> None \<and>
     (cfg_sslCertificateChainFileName c = [] \<or> fs_read F (cfg_sslCertificateChainFileName c) \<noteq> None)"
  by (auto simp: loadSslConfiguration_def Let_def split: option.splits)

lemma loadSslConfiguration_settings:
  "snd (loadSslConfiguration F c) =
     c\<lparr>cfg_sslConfiguration := cfg_sslConfiguration (snd (loadSslConfiguration F c))\<rparr>"
  by (auto simp: loadSslConfiguration_def Let_def split: option.splits)

lemma loadSslConfiguration_result:
  "fst (loadSslConfiguration F c) \<Longrightarrow>
     (\<exists>ssl. cfg_sslConfiguration (snd (loadSslConfiguration F c)) = Some ssl \<and>
        fs_read F (cfg_sslCertificateFileName c) = Some (ssl_localCertificate ssl) \<and>
        fs_read F (cfg_sslCertificateKeyFileName c) = Some (ssl_privateKey ssl) \<and>
        ssl_protocol ssl = TlsV1_2OrLater)"
  by (auto simp: loadSslConfiguration_def Let_def split: option.splits if_splits)

end
