(* ===== verification/ProxyState.thy ===== *)
theory ProxyState
  imports ProxyClient Connections JsonHandler Config
begin

text \<open>
  The state that \<open>TunnelProxyServer\<close> and the \<open>JsonRpcServer\<close> it owns keep, and the three
  ways to send a JSON message: response, error response and notification. The transport clients
  live in \<open>ps_proxyClients\<close>, the connection objects in the two object tables; a pointer is a
  client id. \<open>ps_effects\<close> is what was handed to the transports so far, oldest first.
\<close>

record proxy_server =
  ps_proxyClients :: "(uuid, tunnel_proxy_client) qhash"
  ps_serverConnections :: "(uuid, uuid) qhash"
  ps_clientConnections :: "(uuid, uuid) qhash"
  ps_serverObjects :: "(uuid, server_connection) qhash"
  ps_clientObjects :: "(uuid, client_connection) qhash"
  ps_transportInterfaces :: "transport_kind list"
  ps_running :: bool
  ps_troughput :: int
  ps_troughputCounter :: int
  ps_configuration :: proxy_configuration
  rpc_handlers :: "(string, json_handler) qhash"
  rpc_replies :: "(nat, json_reply) qhash"
  rpc_asyncReplies :: "(nat, uuid) qhash"
  rpc_clients :: "uuid list"
  rpc_notificationId :: int
  ps_effects :: "effect list"

section \<open>Access through pointers\<close>

definition emit :: "effect list \<Rightarrow> proxy_server \<Rightarrow> proxy_server" where
  "emit es s = s\<lparr>ps_effects := ps_effects s @ es\<rparr>"

definition updClient ::
  "uuid \<Rightarrow> (tunnel_proxy_client \<Rightarrow> tunnel_proxy_client) \<Rightarrow> proxy_server \<Rightarrow> proxy_server" where
  "updClient clientId f s = s\<lparr>ps_proxyClients := qadjust clientId f (ps_proxyClients s)\<rparr>"

definition client_sendData :: "uuid \<Rightarrow> bytes \<Rightarrow> proxy_server \<Rightarrow> proxy_server" where
  "client_sendData clientId data s =
     (case map_of (ps_proxyClients s) clientId of
        None \<Rightarrow> s
      | Some c \<Rightarrow> (let (c', es) = tc_sendData data c in emit es (updClient clientId (\<lambda>_. c') s)))"

definition client_killConnection :: "uuid \<Rightarrow> string \<Rightarrow> proxy_server \<Rightarrow> proxy_server" where
  "client_killConnection clientId reason s =
     (case map_of (ps_proxyClients s) clientId of
        None \<Rightarrow> s
      | Some c \<Rightarrow> emit (tc_killConnection reason c) s)"

text \<open>The connection objects found under a uuid, with the pointer to them.\<close>

definition serverConnectionOf :: "proxy_server \<Rightarrow> uuid \<Rightarrow> (uuid \<times> server_connection) option" where
  "serverConnectionOf s serverUuid =
     (case map_of (ps_serverConnections s) serverUuid of
        None \<Rightarrow> None
      | Some p \<Rightarrow> map_option (\<lambda>sc. (p, sc)) (map_of (ps_serverObjects s) p))"

definition clientConnectionOf :: "proxy_server \<Rightarrow> uuid \<Rightarrow> (uuid \<times> client_connection) option" where
  "clientConnectionOf s clientUuid =
     (case map_of (ps_clientConnections s) clientUuid of
        None \<Rightarrow> None
      | Some p \<Rightarrow> map_option (\<lambda>cc. (p, cc)) (map_of (ps_clientObjects s) p))"

section \<open>Messages\<close>

text \<open>Data for the JSON RPC peer goes out as it is, or as a SLIP frame for address 0.\<close>

definition sendJson :: "uuid \<Rightarrow> bytes \<Rightarrow> proxy_server \<Rightarrow> proxy_server" where
  "sendJson clientId data s =
     (case map_of (ps_proxyClients s) clientId of
        None \<Rightarrow> s
      | Some c \<Rightarrow>
          if tc_slipEnabled c
          then client_sendData clientId
                 (serializeData (buildFrame \<lparr>fr_socketAddress = 0, fr_data = data @ [newline]\<rparr>)) s
          else client_sendData clientId (data @ [newline]) s)"

definition responseMap :: "int \<Rightarrow> vmap \<Rightarrow> variant" where
  "responseMap commandId params =
     VMap (qinsert ''params'' (VMap params)
       (qinsert ''status'' (VString ''success'') (qinsert ''id'' (VInt commandId) [])))"

definition errorResponseMap :: "int \<Rightarrow> string \<Rightarrow> variant" where
  "errorResponseMap commandId error =
     VMap (qinsert ''error'' (VString error)
       (qinsert ''status'' (VString ''error'') (qinsert ''id'' (VInt commandId) [])))"

definition notificationMap :: "int \<Rightarrow> string \<Rightarrow> string \<Rightarrow> vmap \<Rightarrow> variant" where
  "notificationMap notificationId nameSpace method params =
     VMap (qinsert ''params'' (VMap params)
       (qinsert ''notification'' (VString (nameSpace @ ''.'' @ method))
         (qinsert ''id'' (VInt notificationId) [])))"

definition sendResponse :: "env \<Rightarrow> uuid \<Rightarrow> int \<Rightarrow> vmap \<Rightarrow> proxy_server \<Rightarrow> proxy_server" where
  "sendResponse E clientId commandId params s =
     sendJson clientId (env_toJson E (responseMap commandId params)) s"

definition sendErrorResponse :: "env \<Rightarrow> uuid \<Rightarrow> int \<Rightarrow> string \<Rightarrow> proxy_server \<Rightarrow> proxy_server" where
  "sendErrorResponse E clientId commandId error s =
     sendJson clientId (env_toJson E (errorResponseMap commandId error)) s"

definition sendNotification ::
  "env \<Rightarrow> string \<Rightarrow> string \<Rightarrow> vmap \<Rightarrow> uuid \<Rightarrow> proxy_server \<Rightarrow> proxy_server" where
  "sendNotification E nameSpace method params clientId s =
     (let notificationId = rpc_notificationId s
      in sendJson clientId (env_toJson E (notificationMap notificationId nameSpace method params))
           (s\<lparr>rpc_notificationId := notificationId + 1\<rparr>))"

text \<open>\<open>registerClient\<close> and \<open>unregisterClient\<close> of the JSON RPC server.\<close>

definition rpc_registerClient :: "uuid \<Rightarrow> proxy_server \<Rightarrow> proxy_server" where
  "rpc_registerClient clientId s =
     (if clientId \<in> set (rpc_clients s) then s
      else s\<lparr>rpc_clients := rpc_clients s @ [clientId]\<rparr>)"

definition rpc_unregisterClient :: "uuid \<Rightarrow> proxy_server \<Rightarrow> proxy_server" where
  "rpc_unregisterClient clientId s =
     (if clientId \<notin> set (rpc_clients s) then s
      else (let s = s\<lparr>rpc_clients := removeAll clientId (rpc_clients s)\<rparr>
            in case qkey (rpc_asyncReplies s) clientId of
                 None \<Rightarrow> s
               | Some reply \<Rightarrow> s\<lparr>rpc_asyncReplies := qremove reply (rpc_asyncReplies s)\<rparr>))"

section \<open>What sending leaves alone\<close>

text \<open>
  Sending changes traffic counters, the notification counter and the effects. The registration
  state, \<open>core\<close>, is the rest that the registry's invariant is about; the fourth part of a
  client's core says that SLIP is on or will be after the next response.
\<close>

definition clientCore :: "tunnel_proxy_client \<Rightarrow> ClientType \<times> uuid \<times> uuid \<times> bool \<times> bool" where
  "clientCore c = (pc_type c, tc_uuid c, tc_clientId c,
     tc_slipEnabled c \<or> tc_slipAfterResponseEnabled c, tc_interface c = None)"

definition core where
  "core s = (map_option clientCore \<circ> map_of (ps_proxyClients s), ps_serverConnections s,
     ps_clientConnections s, ps_serverObjects s, ps_clientObjects s, rpc_clients s,
     qwf (ps_proxyClients s))"

named_theorems core_simps

lemma core_emit [core_simps]: "core (emit es s) = core s"
  by (simp add: core_def emit_def)

lemma core_updClient_at:
  "(\<And>c. map_of (ps_proxyClients s) k = Some c \<Longrightarrow> clientCore (f c) = clientCore c) \<Longrightarrow>
     core (updClient k f s) = core s"
  by (cases "map_of (ps_proxyClients s) k") (auto simp: core_def updClient_def fun_eq_iff)

lemma core_updClient [core_simps]:
  "(\<And>c. clientCore (f c) = clientCore c) \<Longrightarrow> core (updClient k f s) = core s"
  by (rule core_updClient_at)

lemma effects_emit [simp]: "ps_effects (emit es s) = ps_effects s @ es"
  by (simp add: emit_def)

lemma effects_updClient [simp]: "ps_effects (updClient k f s) = ps_effects s"
  by (simp add: updClient_def)

lemma map_of_updClient [simp]:
  "map_of (ps_proxyClients (updClient k f s)) =
     (map_of (ps_proxyClients s))(k := map_option f (map_of (ps_proxyClients s) k))"
  by (simp add: updClient_def)

lemma proxyClients_emit [simp]: "ps_proxyClients (emit es s) = ps_proxyClients s"
  by (simp add: emit_def)

lemma clientCore_sendData [simp]: "clientCore (fst (tc_sendData data c)) = clientCore c"
  by (simp add: tc_sendData_def clientCore_def addTxDataCount_def split: option.splits)

lemma core_sendData [core_simps]: "core (client_sendData k data s) = core s"
proof (cases "map_of (ps_proxyClients s) k")
  case None
  then show ?thesis by (simp add: client_sendData_def)
next
  case (Some c)
  obtain c' es where c': "tc_sendData data c = (c', es)" by fastforce
  then have "clientCore c' = clientCore c"
    using clientCore_sendData [of data c] by simp
  with Some have "core (updClient k (\<lambda>_. c') s) = core s"
    by (intro core_updClient_at) simp
  with Some c' show ?thesis
    by (simp add: client_sendData_def core_emit)
qed

end
