(* ===== verification/TunnelServer.thy ===== *)
theory TunnelServer
  imports ProxyState
begin

text \<open>
  \<open>tunnelproxy/tunnelproxyserver.{h,cpp}\<close>: registration of servers and clients, the
  bookkeeping when a socket connects or disconnects, start, stop, statistics. What
  \<open>onClientDataAvailable\<close> does needs the JSON RPC server and is in \<open>ProxyData\<close>.
\<close>

section \<open>Registration\<close>

definition registerServer ::
  "uuid \<Rightarrow> uuid \<Rightarrow> string \<Rightarrow> proxy_server \<Rightarrow> TunnelProxyError \<times> proxy_server" where
  "registerServer clientId serverUuid serverName s =
     (case map_of (ps_proxyClients s) clientId of
        None \<Rightarrow> (TunnelProxyErrorInternalServerError, s)
      | Some client \<Rightarrow>
          if pc_type client \<noteq> TypeNone then
            (TunnelProxyErrorAlreadyRegistered,
             updClient clientId (killConnectionAfterResponse ''Already registered'') s)
          else if qcontains (ps_serverConnections s) serverUuid then
            (TunnelProxyErrorAlreadyRegistered,
             updClient clientId (killConnectionAfterResponse ''Already registered'') s)
          else if qcontains (ps_clientConnections s) serverUuid then
            (TunnelProxyErrorAlreadyRegistered,
             updClient clientId (killConnectionAfterResponse ''UUID cross registeration'') s)
          else
            (let s = updClient clientId (enableSlipAfterResponse \<circ> activateClient \<circ>
                       setName serverName \<circ> setUuid serverUuid \<circ> setType TypeServer) s
             in (TunnelProxyErrorNoError,
                 s\<lparr>ps_serverObjects :=
                     qinsert clientId (newServerConnection clientId serverUuid serverName) (ps_serverObjects s),
                   ps_serverConnections := qinsert serverUuid clientId (ps_serverConnections s)\<rparr>)))"

text \<open>The notification a server gets for a new client.\<close>

definition clientConnectedParams :: "env \<Rightarrow> tunnel_proxy_client \<Rightarrow> client_connection \<Rightarrow> vmap" where
  "clientConnectedParams E client cc =
     qinsert ''socketAddress'' (VUInt (uint (cc_socketAddress cc)))
       (qinsert ''clientPeerAddress'' (VString (tc_peerAddress client))
         (qinsert ''clientUuid'' (VString (env_uuidToString E (tc_uuid client)))
           (qinsert ''clientName'' (VString (tc_name client)) [])))"

definition registerClient ::
  "env \<Rightarrow> uuid \<Rightarrow> uuid \<Rightarrow> string \<Rightarrow> uuid \<Rightarrow> proxy_server \<Rightarrow> TunnelProxyError \<times> proxy_server" where
  "registerClient E clientId clientUuid clientName serverUuid s =
     (case map_of (ps_proxyClients s) clientId of
        None \<Rightarrow> (TunnelProxyErrorInternalServerError, s)
      | Some client \<Rightarrow>
          if pc_type client \<noteq> TypeNone then
            (TunnelProxyErrorAlreadyRegistered,
             updClient clientId (killConnectionAfterResponse ''Already registered'') s)
          else if qcontains (ps_clientConnections s) clientUuid then
            (TunnelProxyErrorAlreadyRegistered,
             updClient clientId (killConnectionAfterResponse ''Already registered'') s)
          else if qcontains (ps_serverConnections s) clientUuid then
            (TunnelProxyErrorAlreadyRegistered,
             updClient clientId (killConnectionAfterResponse ''UUID cross registeration'') s)
          else
            (case serverConnectionOf s serverUuid of
               None \<Rightarrow>
                 (TunnelProxyErrorServerNotFound,
                  updClient clientId (killConnectionAfterResponse ''Unknown server'') s)
             | Some (server, sc) \<Rightarrow>
                 (let client' = (activateClient \<circ> setName clientName \<circ> setUuid clientUuid \<circ>
                                  setType TypeClient) client;
                      cc = setServerConnection (Some (server, sc_serverUuid sc))
                             (newClientConnection clientId clientUuid clientName);
                      (sc', cc') = registerClientConnection server sc clientId cc;
                      s = updClient clientId (\<lambda>_. client') s;
                      s = s\<lparr>ps_clientObjects := qinsert clientId cc' (ps_clientObjects s),
                            ps_clientConnections := qinsert clientUuid clientId (ps_clientConnections s),
                            ps_serverObjects := qinsert server sc' (ps_serverObjects s)\<rparr>
                  in (TunnelProxyErrorNoError,
                      sendNotification E ''TunnelProxy'' ''ClientConnected''
                        (clientConnectedParams E client' cc') (sc_transportClient sc') s))))"

definition disconnectClient :: "uuid \<Rightarrow> quint16 \<Rightarrow> proxy_server \<Rightarrow> TunnelProxyError \<times> proxy_server" where
  "disconnectClient clientId socketAddress s =
     (case map_of (ps_proxyClients s) clientId of
        None \<Rightarrow> (TunnelProxyErrorInternalServerError, s)
      | Some client \<Rightarrow>
          if pc_type client \<noteq> TypeServer then
            (TunnelProxyErrorAlreadyRegistered,
             updClient clientId (killConnectionAfterResponse ''Already registered'') s)
          else
            (case serverConnectionOf s (tc_uuid client) of
               None \<Rightarrow>
                 (TunnelProxyErrorInternalServerError,
                  updClient clientId (killConnectionAfterResponse ''Internal server error'') s)
             | Some (_, sc) \<Rightarrow>
                 (case getClientConnection sc socketAddress of
                    None \<Rightarrow> (TunnelProxyErrorUnknownSocketAddress, s)
                  | Some pointer \<Rightarrow>
                      (case map_of (ps_clientObjects s) pointer of
                         None \<Rightarrow> (TunnelProxyErrorUnknownSocketAddress, s)
                       | Some cc \<Rightarrow>
                           (TunnelProxyErrorNoError,
                            client_killConnection (cc_transportClient cc)
                              ''Server requested disconnect.'' s)))))"

section \<open>Sockets that come and go\<close>

definition onClientConnected :: "transport_kind \<Rightarrow> uuid \<Rightarrow> string \<Rightarrow> quint64 \<Rightarrow> proxy_server \<Rightarrow> proxy_server" where
  "onClientConnected interface clientId address now s =
     (if qcontains (ps_proxyClients s) clientId
      then emit [KillClientConnection interface clientId ''Internal server error''] s
      else rpc_registerClient clientId
             (s\<lparr>ps_proxyClients :=
                  qinsert clientId
                    (newTunnelProxyClient (cfg_inactiveTimeout (ps_configuration s)) interface clientId address now)
                    (ps_proxyClients s)\<rparr>))"

text \<open>The loop over the clients of a server that went away; \<open>server\<close> is the pointer to it.\<close>

fun dropClients :: "uuid \<Rightarrow> uuid list \<Rightarrow> proxy_server \<Rightarrow> proxy_server" where
  "dropClients server [] s = s"
| "dropClients server (pointer # pointers) s =
     (case (map_of (ps_serverObjects s) server, map_of (ps_clientObjects s) pointer) of
        (Some sc, Some cc) \<Rightarrow>
          (let (sc', cc') = unregisterClientConnection sc cc;
               s = s\<lparr>ps_serverObjects := qinsert server sc' (ps_serverObjects s),
                     ps_clientObjects := qinsert pointer cc' (ps_clientObjects s)\<rparr>
           in dropClients server pointers
                (client_killConnection (cc_transportClient cc') ''Server disconnected'' s))
      | _ \<Rightarrow> dropClients server pointers s)"

definition disconnectServerConnection :: "tunnel_proxy_client \<Rightarrow> proxy_server \<Rightarrow> proxy_server" where
  "disconnectServerConnection client s =
     (let found = serverConnectionOf s (tc_uuid client);
          s = s\<lparr>ps_serverConnections := qremove (tc_uuid client) (ps_serverConnections s)\<rparr>
      in case found of
           None \<Rightarrow> s
         | Some (server, sc) \<Rightarrow>
             (let s = dropClients server (clientConnections sc) s
              in s\<lparr>ps_serverObjects := qremove server (ps_serverObjects s)\<rparr>))"

definition disconnectClientConnection :: "env \<Rightarrow> tunnel_proxy_client \<Rightarrow> proxy_server \<Rightarrow> proxy_server" where
  "disconnectClientConnection E client s =
     (let found = clientConnectionOf s (tc_uuid client);
          s = s\<lparr>ps_clientConnections := qremove (tc_uuid client) (ps_clientConnections s)\<rparr>
      in case found of
           None \<Rightarrow> s
         | Some (pointer, cc) \<Rightarrow>
             (let s =
                (case cc_serverConnection cc of
                   None \<Rightarrow> s
                 | Some server \<Rightarrow>
                     (case map_of (ps_serverObjects s) server of
                        None \<Rightarrow> s
                      | Some sc \<Rightarrow>
                          (let params = qinsert ''socketAddress'' (VUInt (uint (cc_socketAddress cc))) [];
                               (sc', cc') = unregisterClientConnection sc cc
                           in sendNotification E ''TunnelProxy'' ''ClientDisconnected'' params
                                (sc_transportClient sc')
                                (s\<lparr>ps_serverObjects := qinsert server sc' (ps_serverObjects s),
                                   ps_clientObjects := qinsert pointer cc' (ps_clientObjects s)\<rparr>))))
              in s\<lparr>ps_clientObjects := qremove pointer (ps_clientObjects s)\<rparr>))"

definition onClientDisconnected :: "env \<Rightarrow> uuid \<Rightarrow> proxy_server \<Rightarrow> proxy_server" where
  "onClientDisconnected E clientId s =
     (case map_of (ps_proxyClients s) clientId of
        None \<Rightarrow> s
      | Some client \<Rightarrow>
          (let s = s\<lparr>ps_proxyClients := qremove clientId (ps_proxyClients s)\<rparr>;
               s = (if pc_type client = TypeServer then disconnectServerConnection client s else s);
               s = (if pc_type client = TypeClient then disconnectClientConnection E client s else s)
           in rpc_unregisterClient clientId s))"

text \<open>The inactivity timer of a client fires.\<close>

definition onInactiveTimeout :: "uuid \<Rightarrow> proxy_server \<Rightarrow> proxy_server" where
  "onInactiveTimeout clientId s =
     (case map_of (ps_proxyClients s) clientId of
        None \<Rightarrow> s
      | Some client \<Rightarrow>
          (let (client', es) = inactiveTimerTimeout client
           in emit es (updClient clientId (\<lambda>_. client') s)))"

section \<open>Running\<close>

definition setRunning :: "bool \<Rightarrow> proxy_server \<Rightarrow> proxy_server" where
  "setRunning running s = (if ps_running s = running then s else s\<lparr>ps_running := running\<rparr>)"

definition registerTransportInterface :: "transport_kind \<Rightarrow> proxy_server \<Rightarrow> proxy_server" where
  "registerTransportInterface interface s =
     (if interface \<in> set (ps_transportInterfaces s) then s
      else s\<lparr>ps_transportInterfaces := ps_transportInterfaces s @ [interface]\<rparr>)"

definition tick :: "proxy_server \<Rightarrow> proxy_server" where
  "tick s = s\<lparr>ps_troughput := ps_troughputCounter s, ps_troughputCounter := 0\<rparr>"

section \<open>Statistics\<close>

fun transportName :: "transport_kind \<Rightarrow> string" where
  "transportName TransportTcp = ''TCP''"
| "transportName TransportWebSocket = ''WebSocket''"
| "transportName TransportUnix = ''unix''"

definition clientStatistics :: "env \<Rightarrow> tunnel_proxy_client \<Rightarrow> string \<Rightarrow> vmap" where
  "clientStatistics E c uuidKey =
     [(''id'', VString (env_uuidToString E (tc_clientId c))),
      (''address'', VString (tc_peerAddress c)),
      (''timestamp'', VULongLong (tc_creationTimeStamp c)),
      (''name'', VString (tc_name c)),
      (uuidKey, VUuid (tc_uuid c)),
      (''rxDataCount'', VULongLong (tc_rxDataCount c)),
      (''txDataCount'', VULongLong (tc_txDataCount c))]"

definition clientList :: "env \<Rightarrow> proxy_server \<Rightarrow> uuid list \<Rightarrow> variant list" where
  "clientList E s pointers =
     List.map_filter (\<lambda>p. map_option (\<lambda>c. VMap (clientStatistics E c ''clientUuid''))
       (Option.bind (map_of (ps_clientObjects s) p)
         (\<lambda>cc. map_of (ps_proxyClients s) (cc_transportClient cc)))) pointers"

definition serverStatistics :: "env \<Rightarrow> proxy_server \<Rightarrow> bool \<Rightarrow> uuid \<Rightarrow> variant option" where
  "serverStatistics E s printAll pointer =
     (case map_of (ps_serverObjects s) pointer of
        None \<Rightarrow> None
      | Some sc \<Rightarrow>
          if \<not> printAll \<and> clientConnections sc = [] then None
          else (case map_of (ps_proxyClients s) (sc_transportClient sc) of
                  None \<Rightarrow> None
                | Some c \<Rightarrow>
                    Some (VMap (qinsert ''clientConnections''
                      (VList (clientList E s (clientConnections sc)))
                      (clientStatistics E c ''serverUuid'')))))"

text \<open>\<open>connections\<close> is \<open>connectionsCount\<close> of the transports.\<close>

definition currentStatistics ::
  "env \<Rightarrow> (transport_kind \<Rightarrow> nat) \<Rightarrow> bool \<Rightarrow> proxy_server \<Rightarrow> vmap" where
  "currentStatistics E connections printAll s =
     [(''totalClientCount'', VInt (int (length (ps_proxyClients s)))),
      (''serverConnectionsCount'', VInt (int (length (ps_serverConnections s)))),
      (''clientConnectionsCount'', VInt (int (length (ps_clientConnections s)))),
      (''transports'',
         VMap (map (\<lambda>t. (transportName t, VUInt (int (connections t)))) (ps_transportInterfaces s))),
      (''troughput'', VInt (ps_troughput s)),
      (''tunnelConnections'',
         VList (List.map_filter (serverStatistics E s printAll) (qvalues (ps_serverConnections s))))]"

end
