(* ===== verification/JsonRpc.thy ===== *)
theory JsonRpc
  imports Handlers
begin

text \<open>
  \<open>server/jsonrpcserver.cpp\<close>: one JSON request of a client, from its bytes to the response and
  to what the response asks for (closing the connection, switching to SLIP), asynchronous replies,
  and the reassembly of requests before SLIP.
\<close>

section \<open>One request\<close>

definition handlerOf :: "proxy_server \<Rightarrow> string \<Rightarrow> json_handler option" where
  "handlerOf s nameSpace = map_of (rpc_handlers s) nameSpace"

text \<open>The error response and the end of the connection that every refused request gets.\<close>

definition refuse :: "env \<Rightarrow> uuid \<Rightarrow> int \<Rightarrow> string \<Rightarrow> string \<Rightarrow> proxy_server \<Rightarrow> proxy_server" where
  "refuse E clientId commandId error reason s =
     client_killConnection clientId reason (sendErrorResponse E clientId commandId error s)"

definition freshReply :: "proxy_server \<Rightarrow> nat" where
  "freshReply s = Suc (fold max (map fst (rpc_replies s)) 0)"

definition startAsyncReply :: "json_reply \<Rightarrow> uuid \<Rightarrow> int \<Rightarrow> proxy_server \<Rightarrow> proxy_server" where
  "startAsyncReply reply clientId commandId s =
     (let pointer = freshReply s
      in s\<lparr>rpc_asyncReplies := qinsert pointer clientId (rpc_asyncReplies s),
           rpc_replies := qinsert pointer
             (reply_startWait (reply_setCommandId commandId (reply_setClientId clientId reply)))
             (rpc_replies s)\<rparr>)"

text \<open>What follows a response: the requested end of the connection comes before SLIP.\<close>

definition afterResponse :: "uuid \<Rightarrow> proxy_server \<Rightarrow> proxy_server" where
  "afterResponse clientId s =
     (case map_of (ps_proxyClients s) clientId of
        None \<Rightarrow> s
      | Some c \<Rightarrow>
          if tc_killConnectionRequested c
          then client_killConnection clientId (tc_killConnectionReason c) s
          else if tc_slipAfterResponseEnabled c then updClient clientId (setSlipEnabled True) s
          else s)"

definition answer :: "env \<Rightarrow> json_reply option \<Rightarrow> uuid \<Rightarrow> int \<Rightarrow> proxy_server \<Rightarrow> proxy_server" where
  "answer E reply clientId commandId s =
     (case reply of
        None \<Rightarrow> s
      | Some r \<Rightarrow>
          if rep_type r = TypeAsync then startAsyncReply r clientId commandId s
          else afterResponse clientId (sendResponse E clientId commandId (rep_data r) s))"

definition processMethod ::
  "env \<Rightarrow> uuid \<Rightarrow> int \<Rightarrow> json_handler \<Rightarrow> string \<Rightarrow> vmap \<Rightarrow> proxy_server \<Rightarrow> proxy_server" where
  "processMethod E clientId commandId handler method params s =
     (if \<not> hasMethod handler method
      then refuse E clientId commandId ''No such method'' ''No such method.'' s
      else
        (case validateParams E handler method params of
           (False, msg) \<Rightarrow>
             refuse E clientId commandId (''Invalid params: '' @ msg) ''Invalid params passed.'' s
         | (True, _) \<Rightarrow>
             (let (reply, s) = invokeMethod E handler method params clientId s
              in answer E reply clientId commandId s)))"

definition processMessage :: "env \<Rightarrow> uuid \<Rightarrow> vmap \<Rightarrow> proxy_server \<Rightarrow> proxy_server" where
  "processMessage E clientId message s =
     (case vtoInt E (vvalue message ''id'') of
        None \<Rightarrow>
          refuse E clientId (-1) (''Error parsing command. Missing '' @ [CHR 0x27] @ ''id'' @ [CHR 0x27])
            ''The id property is missing in the request.'' s
      | Some commandId \<Rightarrow>
          (case qsplit (CHR ''.'') (vtoString E (vvalue message ''method'')) of
             [targetNamespace, method] \<Rightarrow>
               (case handlerOf s targetNamespace of
                  None \<Rightarrow> refuse E clientId commandId ''No such namespace'' ''No such namespace.'' s
                | Some handler \<Rightarrow>
                    processMethod E clientId commandId handler method
                      (vtoMap (vvalue message ''params'')) s)
           | _ \<Rightarrow>
               refuse E clientId commandId
                 (''Error parsing method. Got: '' @ [CHR 0x27] @
                  vtoString E (vvalue message ''method'') @ [CHR 0x27, CHR 0x27] @
                  '', Expected: '' @ [CHR 0x27] @ ''Namespace.method'' @ [CHR 0x27])
                 ''Invalid method passed.'' s))"

definition processDataPacket :: "env \<Rightarrow> uuid \<Rightarrow> bytes \<Rightarrow> proxy_server \<Rightarrow> proxy_server" where
  "processDataPacket E clientId data s =
     (case env_fromJson E data of
        Inl errorString \<Rightarrow>
          refuse E clientId (-1) (''Failed to parse JSON data: '' @ errorString)
            ''Invalid JSON data received.'' s
      | Inr jsonDoc \<Rightarrow> processMessage E clientId (vtoMap jsonDoc) s)"

section \<open>Packets\<close>

fun processPackets :: "env \<Rightarrow> uuid \<Rightarrow> bytes list \<Rightarrow> proxy_server \<Rightarrow> proxy_server" where
  "processPackets E clientId [] s = s"
| "processPackets E clientId (p # ps) s =
     processPackets E clientId ps (processDataPacket E clientId p s)"

text \<open>\<open>JsonRpcServer::processData\<close>, with the limit on what may wait in the buffer.\<close>

definition maxBufferSize :: nat where
  "maxBufferSize = 1024 * 10"

definition rpc_processData :: "env \<Rightarrow> uuid \<Rightarrow> bytes \<Rightarrow> proxy_server \<Rightarrow> proxy_server" where
  "rpc_processData E clientId data s =
     (if clientId \<notin> set (rpc_clients s) then s
      else
        (case map_of (ps_proxyClients s) clientId of
           None \<Rightarrow> s
         | Some c \<Rightarrow>
             (let (packets, c') = processData data c;
                  s = updClient clientId (\<lambda>_. c') s
              in if maxBufferSize < bufferSize c'
                 then client_killConnection clientId ''Data buffer size violation.'' s
                 else processPackets E clientId packets s)))"

section \<open>Asynchronous replies\<close>

definition asyncReplyFinished :: "env \<Rightarrow> nat \<Rightarrow> proxy_server \<Rightarrow> proxy_server" where
  "asyncReplyFinished E pointer s =
     (case map_of (rpc_replies s) pointer of
        None \<Rightarrow> s
      | Some reply \<Rightarrow>
          (let client = map_of (rpc_asyncReplies s) pointer;
               s = s\<lparr>rpc_replies := qremove pointer (rpc_replies s),
                     rpc_asyncReplies := qremove pointer (rpc_asyncReplies s)\<rparr>
           in case client of
                None \<Rightarrow> s
              | Some clientId \<Rightarrow>
                  (let s =
                    (if \<not> rep_timedOut reply then
                       sendResponse E clientId (rep_commandId reply) (rep_data reply)
                         (if rep_success reply then s
                          else updClient clientId
                                 (killConnectionAfterResponse ''API call was not successfully.'') s)
                     else
                       sendErrorResponse E clientId (rep_commandId reply) ''Command timed out''
                         (updClient clientId (killConnectionAfterResponse ''API call timeouted.'') s))
                   in case map_of (ps_proxyClients s) clientId of
                        None \<Rightarrow> s
                      | Some c \<Rightarrow>
                          if tc_killConnectionRequested c
                          then client_killConnection clientId (tc_killConnectionReason c) s
                          else s)))"

text \<open>The timer of a waiting reply fires.\<close>

definition asyncReplyTimeout :: "env \<Rightarrow> nat \<Rightarrow> proxy_server \<Rightarrow> proxy_server" where
  "asyncReplyTimeout E pointer s =
     asyncReplyFinished E pointer (s\<lparr>rpc_replies := qadjust pointer reply_timeout (rpc_replies s)\<rparr>)"

section \<open>Handlers of the server\<close>

definition registerHandler :: "json_handler \<Rightarrow> proxy_server \<Rightarrow> proxy_server" where
  "registerHandler handler s =
     s\<lparr>rpc_handlers := qinsert (jh_name handler) handler (rpc_handlers s)\<rparr>"

definition unregisterHandler :: "json_handler \<Rightarrow> proxy_server \<Rightarrow> proxy_server" where
  "unregisterHandler handler s =
     s\<lparr>rpc_handlers := qremove (jh_name handler) (rpc_handlers s)\<rparr>"

text \<open>The constructor of \<open>TunnelProxyServer\<close>.\<close>

definition newTunnelProxyServer :: "proxy_configuration \<Rightarrow> proxy_server" where
  "newTunnelProxyServer configuration =
     registerHandler newTunnelProxyHandler (registerHandler newJsonRpcServer
       \<lparr>ps_proxyClients = [], ps_serverConnections = [], ps_clientConnections = [],
        ps_serverObjects = [], ps_clientObjects = [], ps_transportInterfaces = [],
        ps_running = False, ps_troughput = 0, ps_troughputCounter = 0,
        ps_configuration = configuration, rpc_handlers = [], rpc_replies = [], rpc_asyncReplies = [],
        rpc_clients = [], rpc_notificationId = 0, ps_effects = []\<rparr>)"

definition registeredClientCount :: "proxy_server \<Rightarrow> nat" where
  "registeredClientCount s = length (rpc_clients s)"

end
