(* ===== verification/ProxyData.thy ===== *)
theory ProxyData
  imports JsonRpc
begin

text \<open>
  \<open>TunnelProxyServer::onClientDataAvailable\<close>: what happens to the bytes of a client. Those of a
  registered client go to its server in a frame with its socket address; those of a registered
  server are frames, for one of its clients or, with address 0, for the JSON RPC server; all
  others are JSON RPC.
\<close>

definition addThroughput :: "nat \<Rightarrow> proxy_server \<Rightarrow> proxy_server" where
  "addThroughput n s = s\<lparr>ps_troughputCounter := ps_troughputCounter s + int n\<rparr>"

definition tunnelToServer :: "tunnel_proxy_client \<Rightarrow> bytes \<Rightarrow> proxy_server \<Rightarrow> proxy_server" where
  "tunnelToServer client data s =
     (case clientConnectionOf s (tc_uuid client) of
        None \<Rightarrow> s
      | Some (_, cc) \<Rightarrow>
          (case cc_serverConnection cc of
             None \<Rightarrow> s
           | Some server \<Rightarrow>
               (case map_of (ps_serverObjects s) server of
                  None \<Rightarrow> s
                | Some sc \<Rightarrow>
                    addThroughput (length data)
                      (client_sendData (sc_transportClient sc)
                        (serializeData (buildFrame
                          \<lparr>fr_socketAddress = cc_socketAddress cc, fr_data = data\<rparr>)) s))))"

text \<open>One frame of a server; \<open>uuid\<close> is the server's uuid.\<close>

definition processFrame :: "env \<Rightarrow> uuid \<Rightarrow> uuid \<Rightarrow> bytes \<Rightarrow> proxy_server \<Rightarrow> proxy_server" where
  "processFrame E clientId uuid frameData s =
     (let frame = parseFrame frameData
      in if fr_socketAddress frame = 0 then processDataPacket E clientId (fr_data frame) s
         else
           (case serverConnectionOf s uuid of
              None \<Rightarrow> s
            | Some (_, sc) \<Rightarrow>
                (case Option.bind (getClientConnection sc (fr_socketAddress frame))
                        (map_of (ps_clientObjects s)) of
                   None \<Rightarrow> s
                 | Some cc \<Rightarrow>
                     addThroughput (length (fr_data frame))
                       (client_sendData (cc_transportClient cc) (fr_data frame) s))))"

fun processFrames :: "env \<Rightarrow> uuid \<Rightarrow> uuid \<Rightarrow> bytes list \<Rightarrow> proxy_server \<Rightarrow> proxy_server" where
  "processFrames E clientId uuid [] s = s"
| "processFrames E clientId uuid (f # fs) s =
     processFrames E clientId uuid fs (processFrame E clientId uuid f s)"

definition onClientDataAvailable :: "env \<Rightarrow> uuid \<Rightarrow> bytes \<Rightarrow> proxy_server \<Rightarrow> proxy_server" where
  "onClientDataAvailable E clientId data s =
     (case map_of (ps_proxyClients s) clientId of
        None \<Rightarrow> s
      | Some c \<Rightarrow>
          (let client = client_addRxDataCount (int (length data)) c;
               s = updClient clientId (\<lambda>_. client) s
           in if pc_type client = TypeClient then tunnelToServer client data s
              else if pc_type client = TypeServer then
                (if tc_slipEnabled client then
                   (let (frames, client') = processData data client
                    in processFrames E clientId (tc_uuid client') frames
                         (updClient clientId (\<lambda>_. client') s))
                 else rpc_processData E clientId data s)
              else rpc_processData E clientId data s))"

section \<open>The proxy as a state machine\<close>

text \<open>The signals of transports and timers the proxy reacts to, and the calls of the engine.\<close>

datatype proxy_event =
    ClientConnected transport_kind uuid string quint64
  | ClientDisconnected uuid
  | DataAvailable uuid bytes
  | InactiveTimeout uuid
  | ReplyFinished nat
  | ReplyTimeout nat
  | Tick

fun proxy_step :: "env \<Rightarrow> proxy_server \<Rightarrow> proxy_event \<Rightarrow> proxy_server" where
  "proxy_step E s (ClientConnected interface clientId address now) =
     onClientConnected interface clientId address now s"
| "proxy_step E s (ClientDisconnected clientId) = onClientDisconnected E clientId s"
| "proxy_step E s (DataAvailable clientId data) = onClientDataAvailable E clientId data s"
| "proxy_step E s (InactiveTimeout clientId) = onInactiveTimeout clientId s"
| "proxy_step E s (ReplyFinished reply) = asyncReplyFinished E reply s"
| "proxy_step E s (ReplyTimeout reply) = asyncReplyTimeout E reply s"
| "proxy_step E s Tick = tick s"

end
