(* ===== verification/Registry.thy ===== *)
theory Registry
  imports ProxyData
begin

text \<open>
  The invariant of the proxy's registration state: what the hashes of \<open>TunnelProxyServer\<close>, the
  connection objects and the clients of the JSON RPC server say about each other. The invariant
  reads \<open>core\<close> only; the lemmas show that just four operations change \<open>core\<close>, and that each of
  these keeps the invariant, so that it holds in every state the proxy can reach.
\<close>

section \<open>The invariant\<close>

type_synonym client_core = "ClientType \<times> uuid \<times> uuid \<times> bool \<times> bool"

text \<open>Every client is stored under its id, has a transport, and SLIP is for servers only.\<close>

definition clientsOk :: "(uuid \<rightharpoonup> client_core) \<Rightarrow> bool" where
  "clientsOk pc =
     (\<forall>k t u i slip gone. pc k = Some (t, u, i, slip, gone) \<longrightarrow>
        i = k \<and> \<not> gone \<and> (slip \<longrightarrow> t = TypeServer))"

text \<open>
  The uuid of a registered server or client leads to its transport client and back, and each has
  one connection object, found under the same uuid.
\<close>

fun role :: "client_core \<Rightarrow> ClientType \<times> uuid" where
  "role (t, u, _) = (t, u)"

definition roleOk :: "ClientType \<Rightarrow> (uuid \<rightharpoonup> client_core) \<Rightarrow> (uuid \<rightharpoonup> uuid) \<Rightarrow> bool" where
  "roleOk t pc ids = (\<forall>u p. ids u = Some p \<longleftrightarrow> map_option role (pc p) = Some (t, u))"

definition objectsOk ::
  "('o \<Rightarrow> uuid) \<Rightarrow> ('o \<Rightarrow> uuid) \<Rightarrow> (uuid \<rightharpoonup> uuid) \<Rightarrow> (uuid \<rightharpoonup> 'o) \<Rightarrow> bool" where
  "objectsOk transportClient uuidOf ids objs =
     ((\<forall>p ob. objs p = Some ob \<longrightarrow> transportClient ob = p \<and> ids (uuidOf ob) = Some p) \<and>
      (\<forall>u p. ids u = Some p \<longrightarrow> (\<exists>ob. objs p = Some ob \<and> uuidOf ob = u)))"

text \<open>A client object knows its server exactly when the server lists the client.\<close>

definition linksOk :: "(uuid \<rightharpoonup> server_connection) \<Rightarrow> (uuid \<rightharpoonup> client_connection) \<Rightarrow> bool" where
  "linksOk so co =
     ((\<forall>p cc q. co p = Some cc \<longrightarrow> cc_serverConnection cc = Some q \<longrightarrow>
         (\<exists>sc. so q = Some sc \<and> map_of (sc_clientConnections sc) (cc_clientUuid cc) = Some p \<and>
               cc_serverUuid cc = sc_serverUuid sc)) \<and>
      (\<forall>q sc u p. so q = Some sc \<longrightarrow> map_of (sc_clientConnections sc) u = Some p \<longrightarrow>
         (\<exists>cc. co p = Some cc \<and> cc_clientUuid cc = u \<and> cc_serverConnection cc = Some q)))"

text \<open>An address of a server leads to a client of this server, and to the one that has it.\<close>

definition addressesOk :: "(uuid \<rightharpoonup> server_connection) \<Rightarrow> (uuid \<rightharpoonup> client_connection) \<Rightarrow> bool" where
  "addressesOk so co =
     (\<forall>q sc a p. so q = Some sc \<longrightarrow> map_of (sc_clientConnectionsAddresses sc) a = Some p \<longrightarrow>
        (\<exists>cc. co p = Some cc \<and> cc_socketAddress cc = a \<and> cc_serverConnection cc = Some q))"

definition serversWf :: "(uuid \<rightharpoonup> server_connection) \<Rightarrow> bool" where
  "serversWf so =
     (\<forall>q sc. so q = Some sc \<longrightarrow> qwf (sc_clientConnections sc) \<and>
        qwf (sc_clientConnectionsAddresses sc) \<and> sc_connectionLimit sc = 100)"

definition registry_inv ::
  "(uuid \<rightharpoonup> client_core) \<Rightarrow> (uuid \<rightharpoonup> uuid) \<Rightarrow> (uuid \<rightharpoonup> uuid) \<Rightarrow> (uuid \<rightharpoonup> server_connection) \<Rightarrow>
     (uuid \<rightharpoonup> client_connection) \<Rightarrow> bool" where
  "registry_inv pc ss cs so co =
     (clientsOk pc \<and> roleOk TypeServer pc ss \<and> roleOk TypeClient pc cs \<and>
      objectsOk sc_transportClient sc_serverUuid ss so \<and>
      objectsOk cc_transportClient cc_clientUuid cs co \<and>
      dom ss \<inter> dom cs = {} \<and> nullUuid \<notin> dom ss \<union> dom cs \<and>
      linksOk so co \<and> addressesOk so co \<and> serversWf so)"

lemmas registry_defs = clientsOk_def roleOk_def objectsOk_def linksOk_def addressesOk_def serversWf_def

definition clientCores :: "proxy_server \<Rightarrow> uuid \<rightharpoonup> client_core" where
  "clientCores s = map_option clientCore \<circ> map_of (ps_proxyClients s)"

definition proxy_inv :: "proxy_server \<Rightarrow> bool" where
  "proxy_inv s =
     (qwf (ps_proxyClients s) \<and> qwf (ps_serverConnections s) \<and> qwf (ps_clientConnections s) \<and>
      distinct (rpc_clients s) \<and> set (rpc_clients s) = dom (clientCores s) \<and>
      registry_inv (clientCores s) (map_of (ps_serverConnections s)) (map_of (ps_clientConnections s))
        (map_of (ps_serverObjects s)) (map_of (ps_clientObjects s)))"

lemma proxy_inv_core: "core s = core s' \<Longrightarrow> proxy_inv s = proxy_inv s'"
  by (simp add: core_def proxy_inv_def clientCores_def)

section \<open>Registry transitions\<close>

lemma roleOk_D: "roleOk t pc ids \<Longrightarrow> (ids u = Some p) = (map_option role (pc p) = Some (t, u))"
  by (simp add: roleOk_def)

lemma roleOk_inj: "roleOk t pc ids \<Longrightarrow> ids u = Some p \<Longrightarrow> ids u' = Some p \<Longrightarrow> u = u'"
  by (auto simp: roleOk_D)

lemma roleOk_other:
  assumes "roleOk t pc ids" "\<And>u. map_option role (pc k) \<noteq> Some (t, u)" "\<And>u. map_option role x \<noteq> Some (t, u)"
  shows "roleOk t (pc(k := x)) ids"
  unfolding roleOk_def
proof (intro allI)
  fix u p
  show "(ids u = Some p) = (map_option role ((pc(k := x)) p) = Some (t, u))"
    using assms(2,3) by (cases "p = k") (simp_all add: roleOk_D [OF assms(1)])
qed

lemma roleOk_add:
  assumes "roleOk t pc ids" "\<And>u. map_option role (pc k) \<noteq> Some (t, u)" "ids u = None"
  shows "roleOk t (pc(k \<mapsto> (t, u, r))) (ids(u \<mapsto> k))"
  unfolding roleOk_def
proof (intro allI)
  fix v p
  show "((ids(u \<mapsto> k)) v = Some p) = (map_option role ((pc(k \<mapsto> (t, u, r))) p) = Some (t, v))"
    using assms(2) roleOk_D [OF assms(1), of v p] roleOk_D [OF assms(1), of u p] assms(3)
    by (cases "p = k"; cases "v = u"; auto)
qed

lemma roleOk_remove:
  assumes "roleOk t pc ids" "ids u = Some k"
  shows "roleOk t (pc(k := None)) (ids(u := None))"
  unfolding roleOk_def
proof (intro allI)
  fix v p
  show "((ids(u := None)) v = Some p) = (map_option role ((pc(k := None)) p) = Some (t, v))"
    using assms(2) roleOk_D [OF assms(1), of v p] roleOk_D [OF assms(1), of u p]
      roleOk_inj [OF assms(1), of u k v]
    by (cases "p = k"; cases "v = u"; auto)
qed

lemma objectsOk_D:
  assumes "objectsOk tr uu ids objs"
  shows "objs p = Some ob \<Longrightarrow> tr ob = p" "objs p = Some ob \<Longrightarrow> ids (uu ob) = Some p"
    and "ids u = Some p \<Longrightarrow> \<exists>ob. objs p = Some ob \<and> uu ob = u"
  using assms unfolding objectsOk_def by blast+

lemma objectsOk_add:
  assumes "objectsOk tr uu ids objs" "ids u = None" "k \<notin> ran ids" "tr ob = k" "uu ob = u"
  shows "objectsOk tr uu (ids(u \<mapsto> k)) (objs(k \<mapsto> ob))"
  unfolding objectsOk_def
proof (intro conjI allI impI)
  fix p x assume x: "(objs(k \<mapsto> ob)) p = Some x"
  show "tr x = p"
    using x assms(4) objectsOk_D(1) [OF assms(1)] by (auto split: if_splits)
  show "(ids(u \<mapsto> k)) (uu x) = Some p"
    using x assms(2,5) objectsOk_D(2) [OF assms(1), of p x] by (auto split: if_splits)
next
  fix v p assume "(ids(u \<mapsto> k)) v = Some p"
  then show "\<exists>x. (objs(k \<mapsto> ob)) p = Some x \<and> uu x = v"
    using assms(3,5) objectsOk_D(3) [OF assms(1), of v p] by (auto simp: ran_def split: if_splits)
qed

lemma objectsOk_replace:
  assumes "objectsOk tr uu ids objs" "objs k = Some ob" "tr ob' = tr ob" "uu ob' = uu ob"
  shows "objectsOk tr uu ids (objs(k \<mapsto> ob'))"
  unfolding objectsOk_def
proof (intro conjI allI impI)
  fix p x assume x: "(objs(k \<mapsto> ob')) p = Some x"
  show "tr x = p" "ids (uu x) = Some p"
    using x assms(2-4) objectsOk_D(1,2) [OF assms(1)] by (auto split: if_splits)
next
  fix v p assume "ids v = Some p"
  then show "\<exists>x. (objs(k \<mapsto> ob')) p = Some x \<and> uu x = v"
    using assms(2,4) objectsOk_D(3) [OF assms(1), of v p] by auto
qed

lemma objectsOk_remove:
  assumes "objectsOk tr uu ids objs" "ids u = Some k" "\<And>v. ids v = Some k \<Longrightarrow> v = u"
  shows "objectsOk tr uu (ids(u := None)) (objs(k := None))"
  unfolding objectsOk_def
proof (intro conjI allI impI)
  fix p x assume x: "(objs(k := None)) p = Some x"
  then have p: "p \<noteq> k" "objs p = Some x" by (auto split: if_splits)
  show "tr x = p" by (rule objectsOk_D(1) [OF assms(1) p(2)])
  show "(ids(u := None)) (uu x) = Some p"
    using objectsOk_D(2) [OF assms(1) p(2)] assms(2) p(1) by auto
next
  fix v p assume "(ids(u := None)) v = Some p"
  then show "\<exists>x. (objs(k := None)) p = Some x \<and> uu x = v"
    using assms(3) objectsOk_D(3) [OF assms(1), of v p] by (auto split: if_splits)
qed

lemma linksOk_D:
  assumes "linksOk so co"
  shows "co p = Some cc \<Longrightarrow> cc_serverConnection cc = Some q \<Longrightarrow>
      \<exists>sc. so q = Some sc \<and> map_of (sc_clientConnections sc) (cc_clientUuid cc) = Some p \<and>
           cc_serverUuid cc = sc_serverUuid sc"
    and "so q = Some sc \<Longrightarrow> map_of (sc_clientConnections sc) u = Some p \<Longrightarrow>
      \<exists>cc. co p = Some cc \<and> cc_clientUuid cc = u \<and> cc_serverConnection cc = Some q"
  using assms unfolding linksOk_def by blast+

lemma addressesOk_D:
  "addressesOk so co \<Longrightarrow> so q = Some sc \<Longrightarrow> map_of (sc_clientConnectionsAddresses sc) a = Some p \<Longrightarrow>
     \<exists>cc. co p = Some cc \<and> cc_socketAddress cc = a \<and> cc_serverConnection cc = Some q"
  unfolding addressesOk_def by blast

lemma addressesOk_I:
  "(\<And>q sc a p. so q = Some sc \<Longrightarrow> map_of (sc_clientConnectionsAddresses sc) a = Some p \<Longrightarrow>
     \<exists>cc. co p = Some cc \<and> cc_socketAddress cc = a \<and> cc_serverConnection cc = Some q) \<Longrightarrow>
   addressesOk so co"
  unfolding addressesOk_def by blast

lemma linksOk_I:
  assumes "\<And>p cc q. co p = Some cc \<Longrightarrow> cc_serverConnection cc = Some q \<Longrightarrow>
      \<exists>sc. so q = Some sc \<and> map_of (sc_clientConnections sc) (cc_clientUuid cc) = Some p \<and>
           cc_serverUuid cc = sc_serverUuid sc"
    and "\<And>q sc u p. so q = Some sc \<Longrightarrow> map_of (sc_clientConnections sc) u = Some p \<Longrightarrow>
      \<exists>cc. co p = Some cc \<and> cc_clientUuid cc = u \<and> cc_serverConnection cc = Some q"
  shows "linksOk so co"
  using assms unfolding linksOk_def by blast

text \<open>What registering a client with a server does to the two connection objects.\<close>

definition joins ::
  "(uuid \<rightharpoonup> server_connection) \<Rightarrow> (uuid \<rightharpoonup> client_connection) \<Rightarrow> uuid \<Rightarrow> server_connection \<Rightarrow>
     server_connection \<Rightarrow> uuid \<Rightarrow> client_connection \<Rightarrow> bool" where
  "joins so co q sc sc' k cc' =
     (so q = Some sc \<and> co k = None \<and>
      map_of (sc_clientConnections sc) (cc_clientUuid cc') = None \<and>
      cc_serverConnection cc' = Some q \<and> cc_serverUuid cc' = sc_serverUuid sc \<and>
      sc_clientConnections sc' = qinsert (cc_clientUuid cc') k (sc_clientConnections sc) \<and>
      sc_clientConnectionsAddresses sc' =
        qinsert (cc_socketAddress cc') k (sc_clientConnectionsAddresses sc) \<and>
      sc_transportClient sc' = sc_transportClient sc \<and>
      sc_serverUuid sc' = sc_serverUuid sc \<and> sc_connectionLimit sc' = sc_connectionLimit sc)"

lemma joins_links:
  assumes "linksOk so co" "joins so co q sc sc' k cc'"
  shows "linksOk (so(q \<mapsto> sc')) (co(k \<mapsto> cc'))"
proof (rule linksOk_I)
  fix p cc q'
  assume p: "(co(k \<mapsto> cc')) p = Some cc" "cc_serverConnection cc = Some q'"
  show "\<exists>s. (so(q \<mapsto> sc')) q' = Some s \<and> map_of (sc_clientConnections s) (cc_clientUuid cc) = Some p \<and>
           cc_serverUuid cc = sc_serverUuid s"
  proof (cases "p = k")
    case True
    with p assms(2) show ?thesis by (auto simp: joins_def)
  next
    case False
    with p have "co p = Some cc" by simp
    then obtain s where s: "so q' = Some s" "map_of (sc_clientConnections s) (cc_clientUuid cc) = Some p"
        "cc_serverUuid cc = sc_serverUuid s"
      using linksOk_D(1) [OF assms(1) _ p(2)] by blast
    show ?thesis
      using s assms(2) by (cases "q' = q") (auto simp: joins_def)
  qed
next
  fix q' s u' p
  assume s: "(so(q \<mapsto> sc')) q' = Some s" "map_of (sc_clientConnections s) u' = Some p"
  show "\<exists>cc. (co(k \<mapsto> cc')) p = Some cc \<and> cc_clientUuid cc = u' \<and> cc_serverConnection cc = Some q'"
  proof (cases "q' = q \<and> u' = cc_clientUuid cc'")
    case True
    with s assms(2) show ?thesis by (auto simp: joins_def)
  next
    case False
    with s have "\<exists>s. so q' = Some s \<and> map_of (sc_clientConnections s) u' = Some p"
      using assms(2) by (auto simp: joins_def split: if_splits)
    then show ?thesis
      using linksOk_D(2) [OF assms(1)] assms(2) by (fastforce simp: joins_def)
  qed
qed

lemma joins_addresses:
  assumes "addressesOk so co" "joins so co q sc sc' k cc'"
  shows "addressesOk (so(q \<mapsto> sc')) (co(k \<mapsto> cc'))"
proof (rule addressesOk_I)
  fix q' s a' p
  assume s: "(so(q \<mapsto> sc')) q' = Some s" "map_of (sc_clientConnectionsAddresses s) a' = Some p"
  show "\<exists>cc. (co(k \<mapsto> cc')) p = Some cc \<and> cc_socketAddress cc = a' \<and> cc_serverConnection cc = Some q'"
  proof (cases "q' = q \<and> a' = cc_socketAddress cc'")
    case True
    with s assms(2) show ?thesis by (auto simp: joins_def)
  next
    case False
    with s have "\<exists>s. so q' = Some s \<and> map_of (sc_clientConnectionsAddresses s) a' = Some p"
      using assms(2) by (auto simp: joins_def split: if_splits)
    then show ?thesis
      using addressesOk_D [OF assms(1)] assms(2) by (fastforce simp: joins_def)
  qed
qed

lemma joins_wf: "serversWf so \<Longrightarrow> joins so co q sc sc' k cc' \<Longrightarrow> serversWf (so(q \<mapsto> sc'))"
  by (auto simp: serversWf_def joins_def)

text \<open>A client leaves: its object goes, and its server forgets its uuid and its address.\<close>

lemma linksOk_leave:
  assumes "linksOk so co" "so q = Some sc" "co k = Some cc" "cc_serverConnection cc = Some q"
    and "sc_clientConnections sc' = qremove (cc_clientUuid cc) (sc_clientConnections sc)"
    and "sc_serverUuid sc' = sc_serverUuid sc"
  shows "linksOk (so(q \<mapsto> sc')) (co(k := None))"
proof (rule linksOk_I)
  fix p c q'
  assume p: "(co(k := None)) p = Some c" "cc_serverConnection c = Some q'"
  then have "p \<noteq> k" "co p = Some c" by (auto split: if_splits)
  with p obtain s where s: "so q' = Some s" "map_of (sc_clientConnections s) (cc_clientUuid c) = Some p"
      "cc_serverUuid c = sc_serverUuid s"
    using linksOk_D(1) [OF assms(1)] by blast
  moreover have "map_of (sc_clientConnections sc) (cc_clientUuid cc) = Some k"
    using linksOk_D(1) [OF assms(1,3,4)] assms(2) by auto
  ultimately show "\<exists>s. (so(q \<mapsto> sc')) q' = Some s \<and>
      map_of (sc_clientConnections s) (cc_clientUuid c) = Some p \<and> cc_serverUuid c = sc_serverUuid s"
    using assms(2,5,6) \<open>p \<noteq> k\<close> by (cases "q' = q") auto
next
  fix q' s u p
  assume s: "(so(q \<mapsto> sc')) q' = Some s" "map_of (sc_clientConnections s) u = Some p"
  then obtain s' where s': "so q' = Some s'" "map_of (sc_clientConnections s') u = Some p"
      "q' = q \<Longrightarrow> u \<noteq> cc_clientUuid cc"
    using assms(2,5) by (auto split: if_splits)
  then obtain c where c: "co p = Some c" "cc_clientUuid c = u" "cc_serverConnection c = Some q'"
    using linksOk_D(2) [OF assms(1)] by blast
  then have "p \<noteq> k"
    using s'(3) assms(3,4) by auto
  with c show "\<exists>c. (co(k := None)) p = Some c \<and> cc_clientUuid c = u \<and> cc_serverConnection c = Some q'"
    by auto
qed

lemma addressesOk_leave:
  assumes "addressesOk so co" "so q = Some sc" "co k = Some cc" "cc_serverConnection cc = Some q"
    and "sc_clientConnectionsAddresses sc' = qremove (cc_socketAddress cc) (sc_clientConnectionsAddresses sc)"
  shows "addressesOk (so(q \<mapsto> sc')) (co(k := None))"
proof (rule addressesOk_I)
  fix q' s a p
  assume s: "(so(q \<mapsto> sc')) q' = Some s" "map_of (sc_clientConnectionsAddresses s) a = Some p"
  then obtain s' where s': "so q' = Some s'" "map_of (sc_clientConnectionsAddresses s') a = Some p"
      "q' = q \<Longrightarrow> a \<noteq> cc_socketAddress cc"
    using assms(2,5) by (auto split: if_splits)
  then obtain c where c: "co p = Some c" "cc_socketAddress c = a" "cc_serverConnection c = Some q'"
    using addressesOk_D [OF assms(1)] by blast
  then have "p \<noteq> k"
    using s'(3) assms(3,4) by auto
  with c show "\<exists>c. (co(k := None)) p = Some c \<and> cc_socketAddress c = a \<and> cc_serverConnection c = Some q'"
    by auto
qed

lemma unlinked_leave:
  assumes "co k = Some cc" "cc_serverConnection cc = None"
  shows "linksOk so co \<Longrightarrow> linksOk so (co(k := None))"
    and "addressesOk so co \<Longrightarrow> addressesOk so (co(k := None))"
  using assms by (fastforce simp: linksOk_def addressesOk_def)+

text \<open>A server leaves: its clients stay, without a server.\<close>

definition unlink :: "uuid \<Rightarrow> client_connection \<Rightarrow> client_connection" where
  "unlink q cc = (if cc_serverConnection cc = Some q
     then setServerConnection None (setSocketAddress 0xFFFF cc) else cc)"

lemma unlink_simps [simp]:
  "cc_transportClient (unlink q cc) = cc_transportClient cc"
  "cc_clientUuid (unlink q cc) = cc_clientUuid cc"
  "cc_serverConnection (unlink q cc) = Some q' \<longleftrightarrow> cc_serverConnection cc = Some q' \<and> q' \<noteq> q"
  "cc_serverConnection cc \<noteq> Some q \<Longrightarrow> unlink q cc = cc"
  by (auto simp: unlink_def connection_defs)

lemma objectsOk_unlink:
  "objectsOk cc_transportClient cc_clientUuid cs co \<Longrightarrow>
     objectsOk cc_transportClient cc_clientUuid cs (map_option (unlink q) \<circ> co)"
  unfolding objectsOk_def by fastforce

lemma linksOk_unlink:
  "linksOk so co \<Longrightarrow> linksOk (so(q := None)) (map_option (unlink q) \<circ> co)"
  by (rule linksOk_I) (fastforce dest: linksOk_D split: if_splits)+

lemma addressesOk_unlink:
  "addressesOk so co \<Longrightarrow> addressesOk (so(q := None)) (map_option (unlink q) \<circ> co)"
  by (rule addressesOk_I) (fastforce dest: addressesOk_D split: if_splits)

section \<open>Four operations on the invariant\<close>

lemma registry_inv_D:
  assumes "registry_inv pc ss cs so co"
  shows "clientsOk pc" "roleOk TypeServer pc ss" "roleOk TypeClient pc cs"
    "objectsOk sc_transportClient sc_serverUuid ss so"
    "objectsOk cc_transportClient cc_clientUuid cs co"
    "dom ss \<inter> dom cs = {}" "nullUuid \<notin> dom ss \<union> dom cs"
    "linksOk so co" "addressesOk so co" "serversWf so"
  using assms by (simp_all add: registry_inv_def)

lemma clientsOk_D:
  "clientsOk pc \<Longrightarrow> pc k = Some (t, u, i, slip, gone) \<Longrightarrow> i = k \<and> \<not> gone \<and> (slip \<longrightarrow> t = TypeServer)"
  unfolding clientsOk_def by blast

lemma clientsOk_update:
  assumes "clientsOk pc" "i = k" "\<not> gone" "slip \<Longrightarrow> t = TypeServer"
  shows "clientsOk (pc(k \<mapsto> (t, u, i, slip, gone)))"
  unfolding clientsOk_def
proof (intro allI impI)
  fix k' t' u' i' slip' gone'
  assume *: "(pc(k \<mapsto> (t, u, i, slip, gone))) k' = Some (t', u', i', slip', gone')"
  show "i' = k' \<and> \<not> gone' \<and> (slip' \<longrightarrow> t' = TypeServer)"
  proof (cases "k' = k")
    case True
    with * assms(2-4) show ?thesis by auto
  next
    case False
    with * have "pc k' = Some (t', u', i', slip', gone')" by simp
    then show ?thesis by (rule clientsOk_D [OF assms(1)])
  qed
qed

lemma clientsOk_remove: "clientsOk pc \<Longrightarrow> clientsOk (pc(k := None))"
  unfolding clientsOk_def by (metis fun_upd_apply option.distinct(1))

lemma role_not:
  "pc k = Some (t, r) \<Longrightarrow> t \<noteq> t' \<Longrightarrow> map_option role (pc k) \<noteq> Some (t', u)"
  by (cases r) auto

lemma ids_not:
  assumes "roleOk t pc ids" "\<And>u. map_option role (pc k) \<noteq> Some (t, u)"
  shows "k \<notin> ran ids"
proof
  assume "k \<in> ran ids"
  then obtain u where "ids u = Some k" by (auto simp: ran_def)
  with assms show False by (simp add: roleOk_D)
qed

lemma obj_not:
  "objectsOk tr uu ids objs \<Longrightarrow> k \<notin> ran ids \<Longrightarrow> objs k = None"
  by (cases "objs k") (auto dest: objectsOk_D(2) simp: ran_def)

text \<open>A socket connects.\<close>

lemma registry_inv_connect:
  assumes inv: "registry_inv pc ss cs so co" and k: "pc k = None"
  shows "registry_inv (pc(k \<mapsto> (TypeNone, u, k, False, False))) ss cs so co"
  using registry_inv_D [OF inv] k
  by (auto simp: registry_inv_def intro!: roleOk_other clientsOk_update)

text \<open>A client without a role becomes a server.\<close>

lemma registry_inv_server:
  assumes inv: "registry_inv pc ss cs so co"
    and k: "pc k = Some (TypeNone, r)" and u: "u \<noteq> nullUuid" "ss u = None" "cs u = None"
    and slip: "k' = k" "\<not> gone"
  shows "registry_inv (pc(k \<mapsto> (TypeServer, u, k', slip, gone))) (ss(u \<mapsto> k)) cs
           (so(k \<mapsto> newServerConnection k u name)) co"
proof -
  note D = registry_inv_D [OF inv]
  have ran: "k \<notin> ran ss" "k \<notin> ran cs"
    using ids_not [OF D(2) role_not [of pc, OF k]] ids_not [OF D(3) role_not [of pc, OF k]] by auto
  have so: "so k = None" by (rule obj_not [OF D(4) ran(1)])
  let ?so = "so(k \<mapsto> newServerConnection k u name)"
  have "clientsOk (pc(k \<mapsto> (TypeServer, u, k', slip, gone)))"
    using D(1) slip by (intro clientsOk_update) auto
  moreover have "roleOk TypeServer (pc(k \<mapsto> (TypeServer, u, k', slip, gone))) (ss(u \<mapsto> k))"
    by (rule roleOk_add [OF D(2) _ u(2)]) (rule role_not [of pc, OF k], simp)
  moreover have "roleOk TypeClient (pc(k \<mapsto> (TypeServer, u, k', slip, gone))) cs"
    by (rule roleOk_other [OF D(3)]) (rule role_not [of pc, OF k], simp_all)
  moreover have "objectsOk sc_transportClient sc_serverUuid (ss(u \<mapsto> k)) ?so"
    by (rule objectsOk_add [OF D(4) u(2) ran(1)]) (simp_all add: newServerConnection_def)
  moreover have "linksOk ?so co" "addressesOk ?so co" "serversWf ?so"
    using D(8-10) so
    by (fastforce simp: linksOk_def addressesOk_def serversWf_def newServerConnection_def)+
  ultimately show ?thesis
    using D(5-7) u by (auto simp: registry_inv_def)
qed

text \<open>A client without a role becomes a client of a server.\<close>

lemma registry_inv_client:
  assumes inv: "registry_inv pc ss cs so co"
    and k: "pc k = Some (TypeNone, r)" and u: "u \<noteq> nullUuid" "ss u = None" "cs u = None"
    and slip: "k' = k" "\<not> slip" "\<not> gone"
    and j: "so q = Some sc" "joins so co q sc sc' k cc'" "cc_clientUuid cc' = u" "cc_transportClient cc' = k"
  shows "registry_inv (pc(k \<mapsto> (TypeClient, u, k', slip, gone))) ss (cs(u \<mapsto> k))
           (so(q \<mapsto> sc')) (co(k \<mapsto> cc'))"
proof -
  note D = registry_inv_D [OF inv]
  have ran: "k \<notin> ran cs"
    using ids_not [OF D(3) role_not [of pc, OF k]] by auto
  have "clientsOk (pc(k \<mapsto> (TypeClient, u, k', slip, gone)))"
    using D(1) slip by (intro clientsOk_update) auto
  moreover have "roleOk TypeClient (pc(k \<mapsto> (TypeClient, u, k', slip, gone))) (cs(u \<mapsto> k))"
    by (rule roleOk_add [OF D(3) _ u(3)]) (rule role_not [of pc, OF k], simp)
  moreover have "roleOk TypeServer (pc(k \<mapsto> (TypeClient, u, k', slip, gone))) ss"
    by (rule roleOk_other [OF D(2)]) (rule role_not [of pc, OF k], simp_all)
  moreover have "objectsOk cc_transportClient cc_clientUuid (cs(u \<mapsto> k)) (co(k \<mapsto> cc'))"
    by (rule objectsOk_add [OF D(5) u(3) ran]) (simp_all add: j)
  moreover have "objectsOk sc_transportClient sc_serverUuid ss (so(q \<mapsto> sc'))"
    using j(2) by (auto simp: joins_def intro: objectsOk_replace [OF D(4) j(1)])
  ultimately show ?thesis
    using D(6,7) u joins_links [OF D(8) j(2)] joins_addresses [OF D(9) j(2)] joins_wf [OF D(10) j(2)]
    by (auto simp: registry_inv_def)
qed

text \<open>A socket without a role closes.\<close>

lemma registry_inv_drop:
  assumes inv: "registry_inv pc ss cs so co" and k: "pc k = Some (TypeNone, r)"
  shows "registry_inv (pc(k := None)) ss cs so co"
proof -
  note D = registry_inv_D [OF inv]
  have "roleOk TypeServer (pc(k := None)) ss"
    by (rule roleOk_other [OF D(2)]) (rule role_not [of pc, OF k], simp_all)
  moreover have "roleOk TypeClient (pc(k := None)) cs"
    by (rule roleOk_other [OF D(3)]) (rule role_not [of pc, OF k], simp_all)
  ultimately show ?thesis
    using D clientsOk_remove [OF D(1)] by (simp add: registry_inv_def)
qed

text \<open>The socket of a server closes.\<close>

lemma registry_inv_drop_server:
  assumes inv: "registry_inv pc ss cs so co" and k: "pc k = Some (TypeServer, u, r)"
  shows "registry_inv (pc(k := None)) (ss(u := None)) cs (so(k := None)) (map_option (unlink k) \<circ> co)"
proof -
  note D = registry_inv_D [OF inv]
  have u: "ss u = Some k" using k by (cases r) (simp add: roleOk_D [OF D(2)])
  have "roleOk TypeServer (pc(k := None)) (ss(u := None))"
    by (rule roleOk_remove [OF D(2) u])
  moreover have "roleOk TypeClient (pc(k := None)) cs"
    by (rule roleOk_other [OF D(3)]) (rule role_not [of pc, OF k], simp_all)
  moreover have "objectsOk sc_transportClient sc_serverUuid (ss(u := None)) (so(k := None))"
    by (rule objectsOk_remove [OF D(4) u]) (simp add: roleOk_inj [OF D(2) u])
  moreover have "serversWf (so(k := None))"
    using D(10) by (auto simp: serversWf_def)
  ultimately show ?thesis
    using D(6,7) clientsOk_remove [OF D(1)] objectsOk_unlink [OF D(5)] linksOk_unlink [OF D(8)]
      addressesOk_unlink [OF D(9)]
    by (auto simp: registry_inv_def)
qed

text \<open>The socket of a client closes, while its server is there or after it has gone.\<close>

lemma registry_inv_drop_client:
  assumes inv: "registry_inv pc ss cs so co" and k: "pc k = Some (TypeClient, u, r)"
    and cc: "co k = Some cc" "cc_serverConnection cc = Some q" "so q = Some sc"
  shows "registry_inv (pc(k := None)) ss (cs(u := None))
           (so(q \<mapsto> fst (unregisterClientConnection sc cc))) (co(k := None))"
proof -
  note D = registry_inv_D [OF inv]
  let ?sc = "fst (unregisterClientConnection sc cc)"
  have u: "cs u = Some k" using k by (cases r) (simp add: roleOk_D [OF D(3)])
  have "roleOk TypeClient (pc(k := None)) (cs(u := None))"
    by (rule roleOk_remove [OF D(3) u])
  moreover have "roleOk TypeServer (pc(k := None)) ss"
    by (rule roleOk_other [OF D(2)]) (rule role_not [of pc, OF k], simp_all)
  moreover have "objectsOk cc_transportClient cc_clientUuid (cs(u := None)) (co(k := None))"
    by (rule objectsOk_remove [OF D(5) u]) (simp add: roleOk_inj [OF D(3) u])
  moreover have "objectsOk sc_transportClient sc_serverUuid ss (so(q \<mapsto> ?sc))"
    by (rule objectsOk_replace [OF D(4) cc(3)]) (simp_all add: unregisterClientConnection_def)
  moreover have "serversWf (so(q \<mapsto> ?sc))"
    using D(10) cc(3) by (auto simp: serversWf_def unregisterClientConnection_def)
  moreover have "linksOk (so(q \<mapsto> ?sc)) (co(k := None))"
    by (rule linksOk_leave [OF D(8) cc(3,1,2)]) (simp_all add: unregisterClientConnection_def)
  moreover have "addressesOk (so(q \<mapsto> ?sc)) (co(k := None))"
    by (rule addressesOk_leave [OF D(9) cc(3,1,2)]) (simp_all add: unregisterClientConnection_def)
  ultimately show ?thesis
    using D(6,7) clientsOk_remove [OF D(1)] by (auto simp: registry_inv_def)
qed

lemma registry_inv_drop_client_alone:
  assumes inv: "registry_inv pc ss cs so co" and k: "pc k = Some (TypeClient, u, r)"
    and cc: "co k = Some cc" "cc_serverConnection cc = None"
  shows "registry_inv (pc(k := None)) ss (cs(u := None)) so (co(k := None))"
proof -
  note D = registry_inv_D [OF inv]
  have u: "cs u = Some k" using k by (cases r) (simp add: roleOk_D [OF D(3)])
  have "roleOk TypeClient (pc(k := None)) (cs(u := None))"
    by (rule roleOk_remove [OF D(3) u])
  moreover have "roleOk TypeServer (pc(k := None)) ss"
    by (rule roleOk_other [OF D(2)]) (rule role_not [of pc, OF k], simp_all)
  moreover have "objectsOk cc_transportClient cc_clientUuid (cs(u := None)) (co(k := None))"
    by (rule objectsOk_remove [OF D(5) u]) (simp add: roleOk_inj [OF D(3) u])
  ultimately show ?thesis
    using D clientsOk_remove [OF D(1)] unlinked_leave [of co, OF cc] by (auto simp: registry_inv_def)
qed

end
