(* ===== verification/ProxyInvariant.thy ===== *)
theory ProxyInvariant
  imports Registry
begin

text \<open>
  Every event keeps the proxy's registration state consistent: sending and refusing leave
  \<open>core\<close> alone, and \<open>registerServer\<close>, \<open>registerClient\<close>, \<open>onClientConnected\<close> and
  \<open>onClientDisconnected\<close> are the transitions of \<open>Registry\<close>. The proxy is an \<open>event_machine\<close>.
\<close>

section \<open>What leaves the registration state alone\<close>

lemma core_record [core_simps]:
  "core (s\<lparr>rpc_notificationId := n\<rparr>) = core s"
  "core (s\<lparr>rpc_replies := r\<rparr>) = core s"
  "core (s\<lparr>rpc_asyncReplies := a\<rparr>) = core s"
  "core (s\<lparr>ps_troughput := x\<rparr>) = core s"
  "core (s\<lparr>ps_troughputCounter := y\<rparr>) = core s"
  by (simp_all add: core_def)

lemma core_kill [core_simps]: "core (client_killConnection k reason s) = core s"
  by (simp add: client_killConnection_def core_emit split: option.splits)

lemma core_killAfter [core_simps]:
  "core (updClient k (killConnectionAfterResponse reason) s) = core s"
  by (rule core_updClient) (simp_all add: clientCore_def killConnectionAfterResponse_def)

lemma core_sendJson [core_simps]: "core (sendJson k data s) = core s"
  by (simp add: sendJson_def core_sendData split: option.splits)

lemma core_sendResponse [core_simps]:
  "core (sendResponse E k i params s) = core s"
  by (simp add: sendResponse_def core_sendJson)

lemma core_sendErrorResponse [core_simps]:
  "core (sendErrorResponse E k i msg s) = core s"
  by (simp add: sendErrorResponse_def core_sendJson)

lemma core_sendNotification [core_simps]:
  "core (sendNotification E ns m params k s) = core s"
  by (simp add: sendNotification_def Let_def core_sendJson core_record)

lemma core_refuse [core_simps]:
  "core (refuse E k i msg reason s) = core s"
  by (simp add: refuse_def core_simps)

lemma core_afterResponse [core_simps]:
  "core (afterResponse k s) = core s"
  by (auto simp: afterResponse_def core_kill clientCore_def setSlipEnabled_def
      intro!: core_updClient_at split: option.splits)

lemma core_answer [core_simps]: "core (answer E reply k i s) = core s"
  by (simp add: answer_def startAsyncReply_def Let_def core_simps split: option.splits)

lemma clientCore_processData [simp]: "clientCore (snd (processData data c)) = clientCore c"
  by (simp add: processData_def clientCore_def split: prod.splits)

lemma clientCore_addRx [simp]: "clientCore (client_addRxDataCount n c) = clientCore c"
  by (simp add: client_addRxDataCount_def addRxDataCount_def clientCore_def)

lemma core_asyncReplyFinished [core_simps]: "core (asyncReplyFinished E p s) = core s"
  by (simp add: asyncReplyFinished_def Let_def core_simps split: option.splits)

lemma core_tunnelToServer [core_simps]: "core (tunnelToServer c data s) = core s"
  by (simp add: tunnelToServer_def addThroughput_def core_simps split: option.splits prod.splits)

section \<open>Registration\<close>

lemma clientCores_updClient [simp]:
  "clientCores (updClient k f s) =
     (clientCores s)(k := map_option (clientCore \<circ> f) (map_of (ps_proxyClients s) k))"
  by (auto simp: clientCores_def fun_eq_iff option.map_comp)

lemma updClient_frame [simp]:
  "ps_serverConnections (updClient k f s) = ps_serverConnections s"
  "ps_clientConnections (updClient k f s) = ps_clientConnections s"
  "ps_serverObjects (updClient k f s) = ps_serverObjects s"
  "ps_clientObjects (updClient k f s) = ps_clientObjects s"
  "rpc_clients (updClient k f s) = rpc_clients s"
  "qwf (ps_proxyClients (updClient k f s)) = qwf (ps_proxyClients s)"
  by (simp_all add: updClient_def)

lemma clientCores_record [simp]:
  "clientCores (s\<lparr>ps_serverObjects := a\<rparr>) = clientCores s"
  "clientCores (s\<lparr>ps_serverConnections := b\<rparr>) = clientCores s"
  "clientCores (s\<lparr>ps_clientObjects := c\<rparr>) = clientCores s"
  "clientCores (s\<lparr>ps_clientConnections := d\<rparr>) = clientCores s"
  "clientCores (s\<lparr>rpc_clients := e\<rparr>) = clientCores s"
  by (simp_all add: clientCores_def)

lemma clientCores_Some: "map_of (ps_proxyClients s) k = Some c \<Longrightarrow> clientCores s k = Some (clientCore c)"
  by (simp add: clientCores_def)

lemma proxy_inv_registry:
  "proxy_inv s \<Longrightarrow> registry_inv (clientCores s) (map_of (ps_serverConnections s))
     (map_of (ps_clientConnections s)) (map_of (ps_serverObjects s)) (map_of (ps_clientObjects s))"
  by (simp add: proxy_inv_def)

lemma proxy_inv_client:
  assumes "proxy_inv s" "map_of (ps_proxyClients s) k = Some c"
  shows "tc_clientId c = k" "tc_interface c \<noteq> None"
    "pc_type c \<noteq> TypeServer \<Longrightarrow> \<not> tc_slipEnabled c \<and> \<not> tc_slipAfterResponseEnabled c"
  using registry_inv_D(1) [OF proxy_inv_registry [OF assms(1)]] clientCores_Some [OF assms(2)]
  by (auto simp: clientCore_def dest: clientsOk_D)

text \<open>A refused registration asks for the end of the connection.\<close>

lemma registerServer_success:
  assumes "map_of (ps_proxyClients s) k = Some c" "pc_type c = TypeNone"
    "map_of (ps_serverConnections s) u = None" "map_of (ps_clientConnections s) u = None"
  shows "registerServer k u name s =
    (TunnelProxyErrorNoError,
     (updClient k (enableSlipAfterResponse \<circ> activateClient \<circ> setName name \<circ> setUuid u \<circ>
         setType TypeServer) s)
       \<lparr>ps_serverObjects := qinsert k (newServerConnection k u name) (ps_serverObjects s),
        ps_serverConnections := qinsert u k (ps_serverConnections s)\<rparr>)"
  using assms by (simp add: registerServer_def qcontains_def Let_def)

lemma clientCore_becomeServer [simp]:
  "clientCore (enableSlipAfterResponse (activateClient (setName name (setUuid u (setType TypeServer c))))) =
     (TypeServer, u, tc_clientId c, True, tc_interface c = None)"
  by (simp add: clientCore_def activateClient_def setType_def transport_client_defs Let_def)

lemma clientCore_becomeClient [simp]:
  "clientCore (activateClient (setName name (setUuid u (setType TypeClient c)))) =
     (TypeClient, u, tc_clientId c, tc_slipEnabled c \<or> tc_slipAfterResponseEnabled c, tc_interface c = None)"
  by (simp add: clientCore_def activateClient_def setType_def transport_client_defs Let_def)

lemma proxy_inv_registerServer:
  assumes inv: "proxy_inv s" and u: "u \<noteq> nullUuid"
  shows "proxy_inv (snd (registerServer k u name s))"
proof -
  consider "map_of (ps_proxyClients s) k = None"
    | c where "map_of (ps_proxyClients s) k = Some c" "pc_type c = TypeNone"
        "map_of (ps_serverConnections s) u = None" "map_of (ps_clientConnections s) u = None"
    | c where "map_of (ps_proxyClients s) k = Some c"
        "pc_type c \<noteq> TypeNone \<or> map_of (ps_serverConnections s) u \<noteq> None \<or> map_of (ps_clientConnections s) u \<noteq> None"
    by blast
  then show ?thesis
  proof cases
    case 1
    with inv show ?thesis by (simp add: registerServer_def)
  next
    case 2
    note R = proxy_inv_registry [OF inv]
    from 2 have core: "clientCores s k = Some (TypeNone, tc_uuid c, tc_clientId c,
        tc_slipEnabled c \<or> tc_slipAfterResponseEnabled c, tc_interface c = None)"
      by (simp add: clientCores_def clientCore_def)
    have "registry_inv ((clientCores s)(k \<mapsto> (TypeServer, u, tc_clientId c, True, tc_interface c = None)))
       ((map_of (ps_serverConnections s))(u \<mapsto> k)) (map_of (ps_clientConnections s))
       ((map_of (ps_serverObjects s))(k \<mapsto> newServerConnection k u name)) (map_of (ps_clientObjects s))"
      by (rule registry_inv_server [OF R core u 2(3,4)])
        (use proxy_inv_client [OF inv 2(1)] in simp_all)
    moreover have "set (rpc_clients s) = dom (clientCores s)" "k \<in> dom (clientCores s)"
      using inv core by (auto simp: proxy_inv_def)
    ultimately show ?thesis
      unfolding registerServer_success [OF 2] using inv 2(1)
      by (simp add: proxy_inv_def insert_absorb)
  next
    case 3
    then have "core (snd (registerServer k u name s)) = core s"
      by (auto simp: registerServer_def qcontains_def core_killAfter)
    with inv show ?thesis by (metis proxy_inv_core)
  qed
qed

text \<open>The two connection objects after a client was accepted.\<close>

definition joinedObjects ::
  "uuid \<Rightarrow> server_connection \<Rightarrow> uuid \<Rightarrow> uuid \<Rightarrow> string \<Rightarrow> server_connection \<times> client_connection" where
  "joinedObjects server sc k u name =
     registerClientConnection server sc k
       (setServerConnection (Some (server, sc_serverUuid sc)) (newClientConnection k u name))"

lemma joinedObjects_simps:
  assumes "joinedObjects server sc k u name = (sc', cc')"
  shows "cc_transportClient cc' = k" "cc_clientUuid cc' = u" "cc_clientName cc' = name"
    "cc_serverConnection cc' = Some server" "cc_serverUuid cc' = sc_serverUuid sc"
    "cc_socketAddress cc' = fst (getFreeAddress sc)"
    "sc_transportClient sc' = sc_transportClient sc" "sc_serverUuid sc' = sc_serverUuid sc"
    "sc_connectionLimit sc' = sc_connectionLimit sc"
    "sc_clientConnections sc' = qinsert u k (sc_clientConnections sc)"
    "sc_clientConnectionsAddresses sc' =
       qinsert (fst (getFreeAddress sc)) k (sc_clientConnectionsAddresses sc)"
  using assms
  by (auto simp: joinedObjects_def connection_defs newClientConnection_def Let_def)

lemma registerClient_success:
  assumes "map_of (ps_proxyClients s) k = Some c" "pc_type c = TypeNone"
    "map_of (ps_clientConnections s) u = None" "map_of (ps_serverConnections s) u = None"
    "serverConnectionOf s v = Some (server, sc)" "joinedObjects server sc k u name = (sc', cc')"
  shows "registerClient E k u name v s =
    (TunnelProxyErrorNoError,
     sendNotification E ''TunnelProxy'' ''ClientConnected''
       (clientConnectedParams E ((activateClient \<circ> setName name \<circ> setUuid u \<circ> setType TypeClient) c) cc')
       (sc_transportClient sc)
       ((updClient k (\<lambda>_. (activateClient \<circ> setName name \<circ> setUuid u \<circ> setType TypeClient) c) s)
         \<lparr>ps_clientObjects := qinsert k cc' (ps_clientObjects s),
          ps_clientConnections := qinsert u k (ps_clientConnections s),
          ps_serverObjects := qinsert server sc' (ps_serverObjects s)\<rparr>))"
  using assms joinedObjects_simps(7) [OF assms(6)]
  by (simp add: registerClient_def qcontains_def Let_def joinedObjects_def)

lemma registerClient_failure:
  assumes "map_of (ps_proxyClients s) k = None \<or>
    (\<exists>c. map_of (ps_proxyClients s) k = Some c \<and> pc_type c \<noteq> TypeNone) \<or>
    map_of (ps_clientConnections s) u \<noteq> None \<or> map_of (ps_serverConnections s) u \<noteq> None \<or>
    serverConnectionOf s v = None"
  shows "core (snd (registerClient E k u name v s)) = core s"
    and "fst (registerClient E k u name v s) \<noteq> TunnelProxyErrorNoError"
  using assms by (auto simp: registerClient_def qcontains_def core_killAfter split: option.splits)

lemma serverConnectionOf_Some:
  "serverConnectionOf s v = Some (q, sc) \<longleftrightarrow>
     map_of (ps_serverConnections s) v = Some q \<and> map_of (ps_serverObjects s) q = Some sc"
  by (auto simp: serverConnectionOf_def split: option.splits)

lemma clientConnectionOf_Some:
  "clientConnectionOf s v = Some (q, cc) \<longleftrightarrow>
     map_of (ps_clientConnections s) v = Some q \<and> map_of (ps_clientObjects s) q = Some cc"
  by (auto simp: clientConnectionOf_def split: option.splits)

lemma proxy_inv_server:
  assumes "proxy_inv s" "map_of (ps_serverObjects s) q = Some sc"
  shows "sc_transportClient sc = q" "map_of (ps_serverConnections s) (sc_serverUuid sc) = Some q"
    "qwf (sc_clientConnections sc)" "qwf (sc_clientConnectionsAddresses sc)" "sc_connectionLimit sc = 100"
proof -
  note D = registry_inv_D [OF proxy_inv_registry [OF assms(1)]]
  show "sc_transportClient sc = q" "map_of (ps_serverConnections s) (sc_serverUuid sc) = Some q"
    using objectsOk_D(1,2) [OF D(4) assms(2)] by auto
  show "qwf (sc_clientConnections sc)" "qwf (sc_clientConnectionsAddresses sc)" "sc_connectionLimit sc = 100"
    using D(10) assms(2) by (auto simp: serversWf_def)
qed

lemma proxy_inv_registerClient:
  assumes inv: "proxy_inv s" and u: "u \<noteq> nullUuid"
  shows "proxy_inv (snd (registerClient E k u name v s))"
proof (cases "\<exists>c q sc. map_of (ps_proxyClients s) k = Some c \<and> pc_type c = TypeNone \<and>
    map_of (ps_clientConnections s) u = None \<and> map_of (ps_serverConnections s) u = None \<and>
    serverConnectionOf s v = Some (q, sc)")
  case False
  then have "core (snd (registerClient E k u name v s)) = core s"
    by (intro registerClient_failure(1))
      (cases "map_of (ps_proxyClients s) k"; cases "serverConnectionOf s v"; auto)
  with inv show ?thesis by (metis proxy_inv_core)
next
  case True
  then obtain c q sc where c: "map_of (ps_proxyClients s) k = Some c" "pc_type c = TypeNone"
    "map_of (ps_clientConnections s) u = None" "map_of (ps_serverConnections s) u = None"
    "serverConnectionOf s v = Some (q, sc)" by blast
  obtain sc' cc' where j: "joinedObjects q sc k u name = (sc', cc')" by fastforce
  note J = joinedObjects_simps [OF j]
  note R = proxy_inv_registry [OF inv]
  note D = registry_inv_D [OF R]
  have q: "map_of (ps_serverObjects s) q = Some sc"
    using c(5) by (simp add: serverConnectionOf_Some)
  have core: "clientCores s k = Some (TypeNone, tc_uuid c, tc_clientId c,
      tc_slipEnabled c \<or> tc_slipAfterResponseEnabled c, tc_interface c = None)"
    using c(1,2) by (simp add: clientCores_def clientCore_def)
  have ran: "k \<notin> ran (map_of (ps_clientConnections s))"
    by (rule ids_not [OF D(3)]) (rule role_not [of "clientCores s", OF core], simp)
  have k: "map_of (ps_clientObjects s) k = None"
    by (rule obj_not [OF D(5) ran])
  have fresh: "map_of (sc_clientConnections sc) u = None"
  proof (rule ccontr)
    assume "map_of (sc_clientConnections sc) u \<noteq> None"
    then obtain p where "map_of (sc_clientConnections sc) u = Some p" by auto
    then obtain x where "map_of (ps_clientObjects s) p = Some x" "cc_clientUuid x = u"
      using linksOk_D(2) [OF D(8) q] by blast
    with objectsOk_D(2) [OF D(5)] c(3) show False by fastforce
  qed
  have joins: "joins (map_of (ps_serverObjects s)) (map_of (ps_clientObjects s)) q sc sc' k cc'"
    using q k fresh J by (simp add: joins_def)
  have "registry_inv ((clientCores s)(k \<mapsto>
       (TypeClient, u, tc_clientId c, tc_slipEnabled c \<or> tc_slipAfterResponseEnabled c, tc_interface c = None)))
     (map_of (ps_serverConnections s)) ((map_of (ps_clientConnections s))(u \<mapsto> k))
     ((map_of (ps_serverObjects s))(q \<mapsto> sc')) ((map_of (ps_clientObjects s))(k \<mapsto> cc'))"
    by (rule registry_inv_client [OF R core u c(4,3) _ _ _ q joins J(2,1)])
      (use proxy_inv_client [OF inv c(1)] c(2) in simp_all)
  moreover have "set (rpc_clients s) = dom (clientCores s)" "k \<in> dom (clientCores s)"
    using inv core by (auto simp: proxy_inv_def)
  ultimately have "proxy_inv ((updClient k (\<lambda>_. (activateClient \<circ> setName name \<circ> setUuid u \<circ> setType TypeClient) c) s)
         \<lparr>ps_clientObjects := qinsert k cc' (ps_clientObjects s),
          ps_clientConnections := qinsert u k (ps_clientConnections s),
          ps_serverObjects := qinsert q sc' (ps_serverObjects s)\<rparr>)"
    using inv c(1) by (simp add: proxy_inv_def insert_absorb)
  then show ?thesis
    unfolding registerClient_success [OF c j] snd_conv
    using proxy_inv_core [OF core_sendNotification] by blast
qed

section \<open>Sockets that come and go\<close>

lemma proxy_inv_onClientConnected:
  assumes inv: "proxy_inv s"
  shows "proxy_inv (onClientConnected interface k address now s)"
proof (cases "map_of (ps_proxyClients s) k")
  case (Some c)
  then have "core (onClientConnected interface k address now s) = core s"
    by (simp add: onClientConnected_def qcontains_def core_emit)
  with inv show ?thesis by (metis proxy_inv_core)
next
  case None
  let ?c = "newTunnelProxyClient (cfg_inactiveTimeout (ps_configuration s)) interface k address now"
  have core: "clientCore ?c = (TypeNone, nullUuid, k, False, False)"
    by (simp add: clientCore_def newTunnelProxyClient_def newTransportClient_def transport_client.defs)
  from None have "clientCores s k = None" by (simp add: clientCores_def)
  moreover from this have "registry_inv ((clientCores s)(k \<mapsto> clientCore ?c)) (map_of (ps_serverConnections s))
      (map_of (ps_clientConnections s)) (map_of (ps_serverObjects s)) (map_of (ps_clientObjects s))"
    unfolding core by (rule registry_inv_connect [OF proxy_inv_registry [OF inv]])
  moreover have "clientCores (s\<lparr>ps_proxyClients := qinsert k ?c (ps_proxyClients s)\<rparr>) =
      (clientCores s)(k \<mapsto> clientCore ?c)"
    by (auto simp: clientCores_def)
  moreover have "k \<notin> set (rpc_clients s)"
    using inv \<open>clientCores s k = None\<close> by (auto simp: proxy_inv_def)
  ultimately show ?thesis
    using inv None
    by (auto simp: onClientConnected_def rpc_registerClient_def qcontains_def proxy_inv_def)
qed

text \<open>Only the client list and the pending replies change when a client leaves the JSON server.\<close>

lemma rpc_unregisterClient_frame [simp]:
  "ps_proxyClients (rpc_unregisterClient k s) = ps_proxyClients s"
  "ps_serverConnections (rpc_unregisterClient k s) = ps_serverConnections s"
  "ps_clientConnections (rpc_unregisterClient k s) = ps_clientConnections s"
  "ps_serverObjects (rpc_unregisterClient k s) = ps_serverObjects s"
  "ps_clientObjects (rpc_unregisterClient k s) = ps_clientObjects s"
  "rpc_clients (rpc_unregisterClient k s) = removeAll k (rpc_clients s)"
  "clientCores (rpc_unregisterClient k s) = clientCores s"
  by (simp_all add: rpc_unregisterClient_def clientCores_def Let_def removeAll_id split: option.splits)

lemma client_killConnection_frame [simp]:
  "ps_proxyClients (client_killConnection k r s) = ps_proxyClients s"
  "ps_serverConnections (client_killConnection k r s) = ps_serverConnections s"
  "ps_clientConnections (client_killConnection k r s) = ps_clientConnections s"
  "ps_serverObjects (client_killConnection k r s) = ps_serverObjects s"
  "ps_clientObjects (client_killConnection k r s) = ps_clientObjects s"
  "rpc_clients (client_killConnection k r s) = rpc_clients s"
  by (simp_all add: client_killConnection_def emit_def split: option.splits)

lemma dropClients_frame [simp]:
  "ps_proxyClients (dropClients q ps s) = ps_proxyClients s"
  "ps_serverConnections (dropClients q ps s) = ps_serverConnections s"
  "ps_clientConnections (dropClients q ps s) = ps_clientConnections s"
  "rpc_clients (dropClients q ps s) = rpc_clients s"
  by (induction q ps s rule: dropClients.induct) (simp_all split: option.splits prod.splits)

text \<open>The clients the loop visits lose their server, no other connection object changes but the server's.\<close>

abbreviation detached :: "client_connection \<Rightarrow> client_connection" where
  "detached cc \<equiv> setServerConnection None (setSocketAddress 0xFFFF cc)"

lemma detached_idem [simp]: "detached (detached cc) = detached cc"
  by (simp add: connection_defs)

lemma dropClients_objects:
  assumes "map_of (ps_serverObjects s) q = Some sc"
  shows "map_of (ps_clientObjects (dropClients q ps s)) p =
      (if p \<in> set ps then map_option detached (map_of (ps_clientObjects s) p)
       else map_of (ps_clientObjects s) p)"
    and "p \<noteq> q \<Longrightarrow> map_of (ps_serverObjects (dropClients q ps s)) p = map_of (ps_serverObjects s) p"
  using assms
  by (induction q ps s arbitrary: sc rule: dropClients.induct)
    (auto simp: unregisterClientConnection_def option.map_comp comp_def split: option.splits)

lemma clientConnections_linked:
  assumes inv: "proxy_inv s" and q: "map_of (ps_serverObjects s) q = Some sc"
  shows "p \<in> set (clientConnections sc) \<longleftrightarrow>
    (\<exists>cc. map_of (ps_clientObjects s) p = Some cc \<and> cc_serverConnection cc = Some q)"
proof -
  note D = registry_inv_D [OF proxy_inv_registry [OF inv]]
  have "p \<in> set (clientConnections sc) \<longleftrightarrow> (\<exists>u. map_of (sc_clientConnections sc) u = Some p)"
    by (simp add: clientConnections_def qvalues_mem proxy_inv_server(3) [OF inv q])
  also have "\<dots> \<longleftrightarrow> (\<exists>cc. map_of (ps_clientObjects s) p = Some cc \<and> cc_serverConnection cc = Some q)"
    using linksOk_D(2) [OF D(8) q] linksOk_D(1) [OF D(8)] q by (metis option.sel)
  finally show ?thesis .
qed

text \<open>The transport clients after one has gone.\<close>

abbreviation forgotten :: "uuid \<Rightarrow> proxy_server \<Rightarrow> proxy_server" where
  "forgotten k s \<equiv> s\<lparr>ps_proxyClients := qremove k (ps_proxyClients s)\<rparr>"

lemma clientCores_forgotten: "clientCores (forgotten k s) = (clientCores s)(k := None)"
  by (auto simp: clientCores_def)

text \<open>What is left to do when a server has gone: the loop over its clients.\<close>

abbreviation serverGone :: "uuid \<Rightarrow> tunnel_proxy_client \<Rightarrow> proxy_server \<Rightarrow> proxy_server" where
  "serverGone k c s \<equiv> (forgotten k s)\<lparr>ps_serverConnections := qremove (tc_uuid c) (ps_serverConnections s)\<rparr>"

lemma disconnectServerConnection_loop:
  assumes inv: "proxy_inv s" and c: "map_of (ps_proxyClients s) k = Some c" "pc_type c = TypeServer"
    and sc: "map_of (ps_serverObjects s) k = Some sc"
  shows "disconnectServerConnection c (forgotten k s) =
    (dropClients k (clientConnections sc) (serverGone k c s))
      \<lparr>ps_serverObjects := qremove k (ps_serverObjects (dropClients k (clientConnections sc) (serverGone k c s)))\<rparr>"
proof -
  note D = registry_inv_D [OF proxy_inv_registry [OF inv]]
  have "map_of (ps_serverConnections s) (tc_uuid c) = Some k"
    using c by (simp add: roleOk_D [OF D(2)] clientCores_def clientCore_def)
  then have "serverConnectionOf (forgotten k s) (tc_uuid c) = Some (k, sc)"
    using sc by (simp add: serverConnectionOf_Some)
  then show ?thesis
    by (simp add: disconnectServerConnection_def Let_def)
qed

lemma disconnectServerConnection_effect:
  assumes inv: "proxy_inv s" and c: "map_of (ps_proxyClients s) k = Some c" "pc_type c = TypeServer"
    and t: "t = disconnectServerConnection c (forgotten k s)"
  shows "ps_proxyClients t = qremove k (ps_proxyClients s)"
    "ps_serverConnections t = qremove (tc_uuid c) (ps_serverConnections s)"
    "ps_clientConnections t = ps_clientConnections s"
    "rpc_clients t = rpc_clients s"
    "map_of (ps_serverObjects t) = (map_of (ps_serverObjects s))(k := None)"
    "map_of (ps_clientObjects t) = map_option (unlink k) \<circ> map_of (ps_clientObjects s)"
proof -
  note D = registry_inv_D [OF proxy_inv_registry [OF inv]]
  have "map_of (ps_serverConnections s) (tc_uuid c) = Some k"
    using c by (simp add: roleOk_D [OF D(2)] clientCores_def clientCore_def)
  then obtain sc where sc: "map_of (ps_serverObjects s) k = Some sc"
    using objectsOk_D(3) [OF D(4)] by blast
  let ?s = "serverGone k c s"
  note t' = t [unfolded disconnectServerConnection_loop [OF inv c sc]]
  have k: "map_of (ps_serverObjects ?s) k = Some sc" using sc by simp
  show "ps_proxyClients t = qremove k (ps_proxyClients s)"
    "ps_serverConnections t = qremove (tc_uuid c) (ps_serverConnections s)"
    "ps_clientConnections t = ps_clientConnections s" "rpc_clients t = rpc_clients s"
    by (simp_all add: t')
  show "map_of (ps_serverObjects t) = (map_of (ps_serverObjects s))(k := None)"
    by (rule ext) (simp add: t' dropClients_objects(2) [OF k])
  show "map_of (ps_clientObjects t) = map_option (unlink k) \<circ> map_of (ps_clientObjects s)"
  proof
    fix p
    show "map_of (ps_clientObjects t) p = (map_option (unlink k) \<circ> map_of (ps_clientObjects s)) p"
      using clientConnections_linked [OF inv sc, of p]
      by (cases "map_of (ps_clientObjects s) p")
        (auto simp: t' dropClients_objects(1) [OF k] unlink_def)
  qed
qed

lemma proxy_inv_leave:
  assumes inv: "proxy_inv s" and k: "map_of (ps_proxyClients s) k = Some c"
    and t: "ps_proxyClients t = qremove k (ps_proxyClients s)" "rpc_clients t = rpc_clients s"
      "qwf (ps_serverConnections t)" "qwf (ps_clientConnections t)"
    and R: "registry_inv ((clientCores s)(k := None)) (map_of (ps_serverConnections t))
      (map_of (ps_clientConnections t)) (map_of (ps_serverObjects t)) (map_of (ps_clientObjects t))"
  shows "proxy_inv (rpc_unregisterClient k t)"
proof -
  have "clientCores t = (clientCores s)(k := None)"
    using clientCores_forgotten [of k s] by (simp add: clientCores_def t(1))
  moreover have "set (removeAll k (rpc_clients s)) = dom ((clientCores s)(k := None))"
    using inv by (auto simp: proxy_inv_def)
  moreover have "distinct (removeAll k (rpc_clients s))"
    using inv by (simp add: proxy_inv_def distinct_removeAll)
  ultimately show ?thesis
    using inv R t by (simp add: proxy_inv_def)
qed

lemma proxy_inv_disconnect_server:
  assumes inv: "proxy_inv s" and c: "map_of (ps_proxyClients s) k = Some c" "pc_type c = TypeServer"
  shows "proxy_inv (rpc_unregisterClient k (disconnectServerConnection c (forgotten k s)))"
proof -
  note T = disconnectServerConnection_effect [OF inv c refl]
  have core: "clientCores s k = Some (TypeServer, tc_uuid c, tc_clientId c,
      tc_slipEnabled c \<or> tc_slipAfterResponseEnabled c, tc_interface c = None)"
    using c by (simp add: clientCores_def clientCore_def)
  show ?thesis
  proof (rule proxy_inv_leave [OF inv c(1) T(1,4)])
    show "registry_inv ((clientCores s)(k := None))
       (map_of (ps_serverConnections (disconnectServerConnection c (forgotten k s))))
       (map_of (ps_clientConnections (disconnectServerConnection c (forgotten k s))))
       (map_of (ps_serverObjects (disconnectServerConnection c (forgotten k s))))
       (map_of (ps_clientObjects (disconnectServerConnection c (forgotten k s))))"
      unfolding T map_of_qremove by (rule registry_inv_drop_server [OF proxy_inv_registry [OF inv] core])
  qed (use inv T in \<open>simp_all add: proxy_inv_def\<close>)
qed

text \<open>A client that leaves a server which is still there; the server is told.\<close>

lemma core_fields:
  assumes "core s = core s'"
  shows "ps_serverConnections s = ps_serverConnections s'" "ps_clientConnections s = ps_clientConnections s'"
    "ps_serverObjects s = ps_serverObjects s'" "ps_clientObjects s = ps_clientObjects s'"
    "rpc_clients s = rpc_clients s'" "clientCores s = clientCores s'"
    "qwf (ps_proxyClients s) = qwf (ps_proxyClients s')"
  using assms by (simp_all add: core_def clientCores_def)

lemma client_object:
  assumes inv: "proxy_inv s" and c: "map_of (ps_proxyClients s) k = Some c" "pc_type c = TypeClient"
  shows "map_of (ps_clientConnections s) (tc_uuid c) = Some k"
    and "\<exists>cc. map_of (ps_clientObjects s) k = Some cc \<and> cc_clientUuid cc = tc_uuid c \<and>
           cc_transportClient cc = k"
proof -
  note D = registry_inv_D [OF proxy_inv_registry [OF inv]]
  show *: "map_of (ps_clientConnections s) (tc_uuid c) = Some k"
    using c by (simp add: roleOk_D [OF D(3)] clientCores_def clientCore_def)
  then show "\<exists>cc. map_of (ps_clientObjects s) k = Some cc \<and> cc_clientUuid cc = tc_uuid c \<and>
           cc_transportClient cc = k"
    using objectsOk_D(3) [OF D(5)] objectsOk_D(1) [OF D(5)] by blast
qed

lemma server_object:
  assumes inv: "proxy_inv s" and c: "map_of (ps_proxyClients s) k = Some c" "pc_type c = TypeServer"
  shows "map_of (ps_serverConnections s) (tc_uuid c) = Some k"
    and "\<exists>sc. map_of (ps_serverObjects s) k = Some sc \<and> sc_serverUuid sc = tc_uuid c \<and>
           sc_transportClient sc = k"
proof -
  note D = registry_inv_D [OF proxy_inv_registry [OF inv]]
  show *: "map_of (ps_serverConnections s) (tc_uuid c) = Some k"
    using c by (simp add: roleOk_D [OF D(2)] clientCores_def clientCore_def)
  then show "\<exists>sc. map_of (ps_serverObjects s) k = Some sc \<and> sc_serverUuid sc = tc_uuid c \<and>
           sc_transportClient sc = k"
    using objectsOk_D(3) [OF D(4)] objectsOk_D(1) [OF D(4)] by blast
qed

text \<open>The state in which the server is told, and the one after.\<close>

definition leaveServer :: "uuid \<Rightarrow> tunnel_proxy_client \<Rightarrow> client_connection \<Rightarrow> uuid \<Rightarrow> server_connection \<Rightarrow>
    proxy_server \<Rightarrow> proxy_server" where
  "leaveServer k c cc q sc s =
     (forgotten k s)\<lparr>ps_clientConnections := qremove (tc_uuid c) (ps_clientConnections s),
        ps_serverObjects := qinsert q (fst (unregisterClientConnection sc cc)) (ps_serverObjects s),
        ps_clientObjects := qinsert k (snd (unregisterClientConnection sc cc)) (ps_clientObjects s)\<rparr>"

lemma disconnectClientConnection_linked:
  assumes inv: "proxy_inv s" and c: "map_of (ps_proxyClients s) k = Some c" "pc_type c = TypeClient"
    and cc: "map_of (ps_clientObjects s) k = Some cc" "cc_serverConnection cc = Some q"
      "map_of (ps_serverObjects s) q = Some sc"
  shows "disconnectClientConnection E c (forgotten k s) =
    (let t = sendNotification E ''TunnelProxy'' ''ClientDisconnected''
               [(''socketAddress'', VUInt (uint (cc_socketAddress cc)))] q (leaveServer k c cc q sc s)
     in t\<lparr>ps_clientObjects := qremove k (ps_clientObjects t)\<rparr>)"
proof -
  have "clientConnectionOf (forgotten k s) (tc_uuid c) = Some (k, cc)"
    using client_object(1) [OF inv c] cc(1) by (simp add: clientConnectionOf_Some)
  moreover have "sc_transportClient (fst (unregisterClientConnection sc cc)) = q"
    using proxy_inv_server(1) [OF inv cc(3)] by (simp add: unregisterClientConnection_def)
  ultimately show ?thesis
    using cc by (simp add: disconnectClientConnection_def leaveServer_def Let_def split_beta)
qed

lemma disconnectClientConnection_alone:
  assumes inv: "proxy_inv s" and c: "map_of (ps_proxyClients s) k = Some c" "pc_type c = TypeClient"
    and cc: "map_of (ps_clientObjects s) k = Some cc" "cc_serverConnection cc = None"
  shows "disconnectClientConnection E c (forgotten k s) =
    (forgotten k s)\<lparr>ps_clientConnections := qremove (tc_uuid c) (ps_clientConnections s),
       ps_clientObjects := qremove k (ps_clientObjects s)\<rparr>"
proof -
  have "clientConnectionOf (forgotten k s) (tc_uuid c) = Some (k, cc)"
    using client_object(1) [OF inv c] cc(1) by (simp add: clientConnectionOf_Some)
  then show ?thesis
    using cc by (simp add: disconnectClientConnection_def Let_def)
qed

lemma proxy_inv_disconnect_client:
  assumes inv: "proxy_inv s" and c: "map_of (ps_proxyClients s) k = Some c" "pc_type c = TypeClient"
  shows "proxy_inv (rpc_unregisterClient k (disconnectClientConnection E c (forgotten k s)))"
proof -
  note D = registry_inv_D [OF proxy_inv_registry [OF inv]]
  obtain cc where cc: "map_of (ps_clientObjects s) k = Some cc"
    using client_object(2) [OF inv c] by blast
  have core: "clientCores s k = Some (TypeClient, tc_uuid c, tc_clientId c,
      tc_slipEnabled c \<or> tc_slipAfterResponseEnabled c, tc_interface c = None)"
    using c by (simp add: clientCores_def clientCore_def)
  show ?thesis
  proof (cases "cc_serverConnection cc")
    case None
    note eq = disconnectClientConnection_alone [OF inv c cc None]
    have "registry_inv ((clientCores s)(k := None)) (map_of (ps_serverConnections s))
        ((map_of (ps_clientConnections s))(tc_uuid c := None)) (map_of (ps_serverObjects s))
        ((map_of (ps_clientObjects s))(k := None))"
      by (rule registry_inv_drop_client_alone [OF proxy_inv_registry [OF inv] core cc None])
    then show ?thesis
      unfolding eq using inv by (intro proxy_inv_leave [OF inv c(1)]) (simp_all add: proxy_inv_def)
  next
    case (Some q)
    obtain sc where sc: "map_of (ps_serverObjects s) q = Some sc"
      using linksOk_D(1) [OF D(8) cc Some] by blast
    define t where "t = sendNotification E ''TunnelProxy'' ''ClientDisconnected''
               [(''socketAddress'', VUInt (uint (cc_socketAddress cc)))] q (leaveServer k c cc q sc s)"
    note F = core_fields [OF core_sendNotification, of E "''TunnelProxy''" "''ClientDisconnected''"
        "[(''socketAddress'', VUInt (uint (cc_socketAddress cc)))]" q "leaveServer k c cc q sc s", folded t_def]
    have "registry_inv ((clientCores s)(k := None)) (map_of (ps_serverConnections s))
        ((map_of (ps_clientConnections s))(tc_uuid c := None))
        ((map_of (ps_serverObjects s))(q \<mapsto> fst (unregisterClientConnection sc cc)))
        ((map_of (ps_clientObjects s))(k := None))"
      by (rule registry_inv_drop_client [OF proxy_inv_registry [OF inv] core cc Some sc])
    moreover have "clientCores t = (clientCores s)(k := None)"
      unfolding F by (auto simp: leaveServer_def clientCores_def)
    moreover have "set (removeAll k (rpc_clients s)) = dom ((clientCores s)(k := None))"
      "distinct (removeAll k (rpc_clients s))"
      using inv by (auto simp: proxy_inv_def distinct_removeAll)
    ultimately have "proxy_inv (rpc_unregisterClient k (t\<lparr>ps_clientObjects := qremove k (ps_clientObjects t)\<rparr>))"
      using inv by (simp add: proxy_inv_def F leaveServer_def)
    then show ?thesis
      unfolding disconnectClientConnection_linked [OF inv c cc Some sc] t_def Let_def .
  qed
qed

lemma proxy_inv_onClientDisconnected:
  assumes inv: "proxy_inv s"
  shows "proxy_inv (onClientDisconnected E k s)"
proof (cases "map_of (ps_proxyClients s) k")
  case None
  with inv show ?thesis by (simp add: onClientDisconnected_def)
next
  case (Some c)
  show ?thesis
  proof (cases "pc_type c")
    case TypeServer
    with Some proxy_inv_disconnect_server [OF inv Some TypeServer] show ?thesis
      by (simp add: onClientDisconnected_def Let_def)
  next
    case TypeClient
    with Some proxy_inv_disconnect_client [OF inv Some TypeClient] show ?thesis
      by (simp add: onClientDisconnected_def Let_def)
  next
    case TypeNone
    then have core: "clientCores s k = Some (TypeNone, tc_uuid c, tc_clientId c,
        tc_slipEnabled c \<or> tc_slipAfterResponseEnabled c, tc_interface c = None)"
      using Some by (simp add: clientCores_def clientCore_def)
    have "proxy_inv (rpc_unregisterClient k (forgotten k s))"
      using inv registry_inv_drop [OF proxy_inv_registry [OF inv] core]
      by (intro proxy_inv_leave [OF inv Some]) (simp_all add: proxy_inv_def)
    with Some TypeNone show ?thesis
      by (simp add: onClientDisconnected_def Let_def)
  qed
qed

section \<open>Requests, packets and events\<close>

lemma proxy_inv_same: "core t = core s \<Longrightarrow> proxy_inv s \<Longrightarrow> proxy_inv t"
  by (metis proxy_inv_core)

lemma core_disconnectClient: "core (snd (disconnectClient k a s)) = core s"
  by (simp add: disconnectClient_def core_simps split: option.splits prod.splits)

lemma core_updClient_const:
  "map_of (ps_proxyClients s) k = Some c \<Longrightarrow> clientCore c' = clientCore c \<Longrightarrow>
     core (updClient k (\<lambda>_. c') s) = core s"
  by (rule core_updClient_at) simp

lemma proxy_inv_methods:
  assumes "proxy_inv s"
  shows "proxy_inv (snd (RegisterServer E params k s))"
    "proxy_inv (snd (RegisterClient E params k s))"
    "proxy_inv (snd (DisconnectClient E params k s))"
    "proxy_inv (snd (Ping params s))"
proof -
  show "proxy_inv (snd (RegisterServer E params k s))"
    using proxy_inv_registerServer [OF assms] assms
    by (simp add: RegisterServer_def Let_def split_beta)
  show "proxy_inv (snd (RegisterClient E params k s))"
    using proxy_inv_registerClient [OF assms] assms
    by (simp add: RegisterClient_def Let_def split_beta)
  show "proxy_inv (snd (DisconnectClient E params k s))"
    using proxy_inv_same [OF core_disconnectClient assms]
    by (simp add: DisconnectClient_def Let_def split_beta)
  show "proxy_inv (snd (Ping params s))"
    using assms by (simp add: Ping_def)
qed

lemma proxy_inv_invokeMethod: "proxy_inv s \<Longrightarrow> proxy_inv (snd (invokeMethod E h m params k s))"
  by (simp add: invokeMethod_def proxy_inv_methods)

lemma proxy_inv_refuse: "proxy_inv s \<Longrightarrow> proxy_inv (refuse E k i msg reason s)"
  by (rule proxy_inv_same [OF core_refuse])

lemma proxy_inv_processMethod: "proxy_inv s \<Longrightarrow> proxy_inv (processMethod E k i h m params s)"
  by (simp add: processMethod_def split_beta proxy_inv_refuse
      proxy_inv_same [OF core_answer proxy_inv_invokeMethod] split: prod.split bool.split)

lemma proxy_inv_processMessage: "proxy_inv s \<Longrightarrow> proxy_inv (processMessage E k message s)"
  unfolding processMessage_def
  by (simp add: proxy_inv_refuse proxy_inv_processMethod split: option.split list.split)

lemma proxy_inv_processDataPacket: "proxy_inv s \<Longrightarrow> proxy_inv (processDataPacket E k data s)"
  by (simp add: processDataPacket_def proxy_inv_refuse proxy_inv_processMessage split: sum.split)

lemma proxy_inv_processPackets: "proxy_inv s \<Longrightarrow> proxy_inv (processPackets E k ps s)"
  by (induction E k ps s rule: processPackets.induct) (auto intro: proxy_inv_processDataPacket)

lemma proxy_inv_processFrame:
  assumes "proxy_inv s"
  shows "proxy_inv (processFrame E k u f s)"
proof -
  have "core (addThroughput n (client_sendData p data s)) = core s" for n p data
    by (simp add: addThroughput_def core_simps)
  then show ?thesis
    using assms proxy_inv_processDataPacket
    by (auto simp: processFrame_def Let_def split: option.splits intro: proxy_inv_same)
qed

lemma proxy_inv_processFrames: "proxy_inv s \<Longrightarrow> proxy_inv (processFrames E k u fs s)"
  by (induction E k u fs s rule: processFrames.induct) (auto intro: proxy_inv_processFrame)

lemma proxy_inv_updClient:
  "proxy_inv s \<Longrightarrow> map_of (ps_proxyClients s) k = Some c \<Longrightarrow> clientCore c' = clientCore c \<Longrightarrow>
     proxy_inv (updClient k (\<lambda>_. c') s)"
  by (rule proxy_inv_same [OF core_updClient_const])

lemma proxy_inv_rpc_processData:
  assumes "proxy_inv s"
  shows "proxy_inv (rpc_processData E k data s)"
proof (cases "map_of (ps_proxyClients s) k")
  case None
  with assms show ?thesis by (simp add: rpc_processData_def)
next
  case (Some c)
  have "proxy_inv (updClient k (\<lambda>_. snd (processData data c)) s)"
    by (rule proxy_inv_updClient [OF assms Some clientCore_processData])
  with Some assms show ?thesis
    by (auto simp: rpc_processData_def Let_def split_beta intro: proxy_inv_processPackets
        proxy_inv_same [OF core_kill])
qed

lemma proxy_inv_onClientDataAvailable:
  assumes "proxy_inv s"
  shows "proxy_inv (onClientDataAvailable E k data s)"
proof (cases "map_of (ps_proxyClients s) k")
  case None
  with assms show ?thesis by (simp add: onClientDataAvailable_def)
next
  case (Some c)
  let ?c = "client_addRxDataCount (int (length data)) c"
  let ?s = "updClient k (\<lambda>_. ?c) s"
  have inv: "proxy_inv ?s"
    by (rule proxy_inv_updClient [OF assms Some clientCore_addRx])
  moreover have "proxy_inv (updClient k (\<lambda>_. snd (processData data ?c)) ?s)"
    by (rule proxy_inv_updClient [OF inv, of _ ?c]) (simp_all add: Some)
  ultimately show ?thesis
    using Some
    by (auto simp: onClientDataAvailable_def Let_def split_beta intro: proxy_inv_rpc_processData
        proxy_inv_processFrames proxy_inv_same [OF core_tunnelToServer])
qed

lemma core_onInactiveTimeout: "core (onInactiveTimeout k s) = core s"
proof (cases "map_of (ps_proxyClients s) k")
  case None
  then show ?thesis by (simp add: onInactiveTimeout_def)
next
  case (Some c)
  have "clientCore (fst (inactiveTimerTimeout c)) = clientCore c"
    by (simp add: inactiveTimerTimeout_def clientCore_def)
  with Some show ?thesis
    by (simp add: onInactiveTimeout_def split_beta core_emit core_updClient_const)
qed

theorem proxy_inv_step:
  assumes "proxy_inv s"
  shows "proxy_inv (proxy_step E s e)"
proof (cases e)
  case (ReplyTimeout p)
  have "core (proxy_step E s e) = core s"
    by (simp add: ReplyTimeout asyncReplyTimeout_def core_simps)
  then show ?thesis by (rule proxy_inv_same [OF _ assms])
next
  case Tick
  have "core (proxy_step E s e) = core s"
    by (simp add: Tick tick_def core_def)
  then show ?thesis by (rule proxy_inv_same [OF _ assms])
qed (simp_all add: assms proxy_inv_onClientConnected proxy_inv_onClientDisconnected
      proxy_inv_onClientDataAvailable proxy_inv_same [OF core_onInactiveTimeout assms]
      proxy_inv_same [OF core_asyncReplyFinished assms])

lemma proxy_inv_start: "proxy_inv (newTunnelProxyServer configuration)"
  by (simp add: newTunnelProxyServer_def registerHandler_def proxy_inv_def registry_inv_def
      registry_defs clientCores_def)

interpretation proxy_machine: event_machine "proxy_step E" "newTunnelProxyServer configuration" proxy_inv
  for E configuration
  by unfold_locales (rule proxy_inv_start, rule proxy_inv_step)

end
