(* ===== verification/Requests.thy ===== *)
theory Requests
  imports ProxyInvariant
begin

text \<open>
  What a chunk of data can do to the proxy. The locales \<open>connection_steps\<close> and \<open>request_steps\<close> turn a
  relation between states that the single actions satisfy into one that holds for every chunk of data:
  talking to the connection the data came from, a registration, a disconnection that a server asked
  for, and data that goes to the other end of a tunnel. A relation on the registration state alone is
  \<open>request_relation\<close>, where only the registrations are left to prove.
\<close>

section \<open>SLIP\<close>

text \<open>SLIP is never switched off. What the JSON server sends then is a frame with address 0.\<close>

definition slipOn :: "proxy_server \<Rightarrow> uuid \<Rightarrow> bool" where
  "slipOn s k = (case map_of (ps_proxyClients s) k of None \<Rightarrow> False | Some c \<Rightarrow> tc_slipEnabled c)"

definition slipKept :: "proxy_server \<Rightarrow> proxy_server \<Rightarrow> bool" where
  "slipKept s t = (\<forall>k. slipOn s k \<longrightarrow> slipOn t k)"

fun framed :: "quint16 set \<Rightarrow> effect \<Rightarrow> bool" where
  "framed A (SendData i k d) = (\<exists>f. fr_socketAddress f \<in> A \<and> d = serializeData (buildFrame f))"
| "framed A (KillClientConnection i k r) = True"

lemma slipKept_refl [simp]: "slipKept s s"
  by (simp add: slipKept_def)

lemma slipKept_trans: "slipKept s t \<Longrightarrow> slipKept t u \<Longrightarrow> slipKept s u"
  by (simp add: slipKept_def)

lemma slipKept_same: "ps_proxyClients t = ps_proxyClients s \<Longrightarrow> slipKept s t"
  by (simp add: slipKept_def slipOn_def)

lemma slipKept_at:
  "(\<And>c. map_of (ps_proxyClients s) k = Some c \<Longrightarrow> tc_slipEnabled c \<Longrightarrow> tc_slipEnabled (f c)) \<Longrightarrow>
     slipKept s (updClient k f s)"
  by (auto simp: slipKept_def slipOn_def split: option.splits)

lemma slip_unchanged [simp]:
  "tc_slipEnabled (snd (processData d c)) = tc_slipEnabled c"
  "tc_slipEnabled (client_addRxDataCount n c) = tc_slipEnabled c"
  "tc_slipEnabled (fst (tc_sendData d c)) = tc_slipEnabled c"
  by (simp_all add: processData_def split_beta client_addRxDataCount_def addRxDataCount_def tc_sendData_def
      addTxDataCount_def split: option.split)

lemma slipKept_emit [simp]: "slipKept s (emit es s)"
  by (rule slipKept_same) simp

lemma slipKept_sendData [simp]: "slipKept s (client_sendData k d s)"
proof (cases "map_of (ps_proxyClients s) k")
  case (Some c)
  then have "slipKept s (updClient k (\<lambda>_. fst (tc_sendData d c)) s)"
    by (intro slipKept_at) simp
  with Some show ?thesis
    by (auto simp: client_sendData_def split_beta intro: slipKept_trans)
qed (simp add: client_sendData_def)

lemma slipKept_kill [simp]: "slipKept s (client_killConnection k r s)"
  by (auto simp: client_killConnection_def split: option.split)

section \<open>Talking to one connection\<close>

definition talks_to :: "uuid \<Rightarrow> proxy_server \<Rightarrow> proxy_server \<Rightarrow> bool" where
  "talks_to k s t =
     (core t = core s \<and> slipKept s t \<and>
      (\<exists>es. ps_effects t = ps_effects s @ es \<and>
        (\<forall>e \<in> set es. effect_target e = k \<and> (slipOn s k \<longrightarrow> framed {0} e))))"

lemma talks_to_refl: "talks_to k s s"
  by (simp add: talks_to_def)

lemma talks_to_trans:
  assumes "talks_to k s t" "talks_to k t u"
  shows "talks_to k s u"
proof -
  obtain es fs where "ps_effects t = ps_effects s @ es" "ps_effects u = (ps_effects s @ es) @ fs"
      "\<forall>e \<in> set es. effect_target e = k \<and> (slipOn s k \<longrightarrow> framed {0} e)"
      "\<forall>e \<in> set fs. effect_target e = k \<and> (slipOn t k \<longrightarrow> framed {0} e)"
    using assms unfolding talks_to_def by metis
  moreover have "slipOn s k \<Longrightarrow> slipOn t k"
    using assms(1) by (simp add: talks_to_def slipKept_def)
  ultimately show ?thesis
    using assms unfolding talks_to_def by (intro conjI exI [of _ "es @ fs"]) (auto intro: slipKept_trans)
qed

lemma talks_to_silent: "core t = core s \<Longrightarrow> slipKept s t \<Longrightarrow> ps_effects t = ps_effects s \<Longrightarrow> talks_to k s t"
  by (simp add: talks_to_def)

lemma talks_to_core: "talks_to k s t \<Longrightarrow> core t = core s"
  by (simp add: talks_to_def)

lemma talks_to_inv: "proxy_inv s \<Longrightarrow> talks_to k s t \<Longrightarrow> proxy_inv t"
  using proxy_inv_same [OF talks_to_core] by blast

lemma effects_sendData:
  assumes "proxy_inv s"
  shows "\<exists>es. ps_effects (client_sendData k d s) = ps_effects s @ es \<and> (\<forall>e \<in> set es. effect_target e = k)"
  using proxy_inv_client(1) [OF assms]
  by (auto simp: client_sendData_def tc_sendData_def split: option.splits)

lemma talks_to_sendData:
  assumes "proxy_inv s" "slipOn s k \<Longrightarrow> \<exists>f. fr_socketAddress f = 0 \<and> d = serializeData (buildFrame f)"
  shows "talks_to k s (client_sendData k d s)"
proof -
  have "\<exists>es. ps_effects (client_sendData k d s) = ps_effects s @ es \<and>
      (\<forall>e \<in> set es. effect_target e = k \<and> (\<exists>i p. e = SendData i p d))"
    using proxy_inv_client(1) [OF assms(1)]
    by (auto simp: client_sendData_def tc_sendData_def split: option.splits)
  then obtain es where "ps_effects (client_sendData k d s) = ps_effects s @ es"
      "\<forall>e \<in> set es. effect_target e = k \<and> (slipOn s k \<longrightarrow> framed {0} e)"
    using assms(2) by fastforce
  then show ?thesis unfolding talks_to_def by (auto simp: core_sendData)
qed

lemma talks_to_kill: "proxy_inv s \<Longrightarrow> talks_to k s (client_killConnection k r s)"
  unfolding talks_to_def using proxy_inv_client(1) [of s k]
  by (auto simp: client_killConnection_def tc_killConnection_def core_emit split: option.splits)

lemma talks_to_json: "proxy_inv s \<Longrightarrow> talks_to k s (sendJson k d s)"
proof -
  assume inv: "proxy_inv s"
  have "\<exists>f. fr_socketAddress f = 0 \<and> serializeData (buildFrame \<lparr>fr_socketAddress = 0, fr_data = x\<rparr>) = serializeData (buildFrame f)"
    for x by (rule exI [of _ "\<lparr>fr_socketAddress = 0, fr_data = x\<rparr>"]) simp
  then show ?thesis
    by (auto simp: sendJson_def slipOn_def talks_to_refl intro!: talks_to_sendData [OF inv] split: option.split)
qed

lemma talks_to_response: "proxy_inv s \<Longrightarrow> talks_to k s (sendResponse E k i ps s)"
  by (simp add: sendResponse_def talks_to_json)

lemma talks_to_notification:
  assumes "proxy_inv s"
  shows "talks_to k s (sendNotification E n m ps k s)"
proof -
  have "talks_to k s (s\<lparr>rpc_notificationId := rpc_notificationId s + 1\<rparr>)"
    by (rule talks_to_silent) (simp_all add: core_def slipKept_same)
  then show ?thesis
    unfolding sendNotification_def Let_def
    using talks_to_trans talks_to_json talks_to_inv assms by blast
qed

lemma talks_to_refuse:
  assumes "proxy_inv s"
  shows "talks_to k s (refuse E k i msg reason s)"
proof -
  have "talks_to k s (sendErrorResponse E k i msg s)"
    by (simp add: sendErrorResponse_def talks_to_json assms)
  then show ?thesis
    unfolding refuse_def using talks_to_trans talks_to_kill talks_to_inv assms by blast
qed

lemma talks_to_after: "proxy_inv s \<Longrightarrow> talks_to k s (afterResponse k s)"
  using core_afterResponse [of k s] talks_to_kill [of s k]
  by (auto simp: afterResponse_def talks_to_refl setSlipEnabled_def intro!: talks_to_silent slipKept_at split: option.splits)

lemma talks_to_answer:
  assumes "proxy_inv s"
  shows "talks_to k s (answer E reply k i s)"
proof -
  have "talks_to k s (startAsyncReply r k i s)" for r
    by (rule talks_to_silent) (simp_all add: startAsyncReply_def Let_def core_def slipKept_same)
  moreover have "talks_to k s (afterResponse k (sendResponse E k i ps s))" for ps
    using talks_to_trans talks_to_after talks_to_response talks_to_inv assms by blast
  ultimately show ?thesis
    by (simp add: answer_def talks_to_refl split: option.split)
qed

lemma talks_to_updClient:
  "map_of (ps_proxyClients s) k = Some c \<Longrightarrow> clientCore c' = clientCore c \<Longrightarrow>
     tc_slipEnabled c' = tc_slipEnabled c \<Longrightarrow> talks_to k s (updClient k (\<lambda>_. c') s)"
  by (rule talks_to_silent) (auto simp: core_updClient_const intro: slipKept_at)

section \<open>A registered server stays registered\<close>

lemma kept_registerServer:
  "map_of (ps_serverConnections s) u = Some p \<Longrightarrow>
     map_of (ps_serverConnections (snd (registerServer k v name s))) u = Some p"
  by (auto simp: registerServer_def qcontains_def Let_def updClient_def split: option.split)

lemma kept_registerClient: "ps_serverConnections (snd (registerClient E k u name v s)) = ps_serverConnections s"
  by (simp add: registerClient_def Let_def split_beta core_fields(1) [OF core_sendNotification]
      updClient_def split: option.split)

lemma kept_core: "core (t :: proxy_server) = core (s :: proxy_server) \<Longrightarrow> map_of (ps_serverConnections s) u = Some p \<Longrightarrow>
     map_of (ps_serverConnections t) u = Some p"
  by (simp add: core_fields(1) [of t s])

lemma kept_invoke:
  "map_of (ps_serverConnections s) u = Some p \<Longrightarrow>
     map_of (ps_serverConnections (snd (invokeMethod E h m params k s))) u = Some p"
  by (simp add: invokeMethod_def Ping_def RegisterServer_def RegisterClient_def DisconnectClient_def Let_def
      split_beta kept_registerServer kept_registerClient kept_core [OF core_disconnectClient])

lemma kept_packet:
  "map_of (ps_serverConnections s) u = Some p \<Longrightarrow>
     map_of (ps_serverConnections (processDataPacket E k d s)) u = Some p"
  by (simp add: processDataPacket_def processMessage_def processMethod_def split_beta
      kept_core [OF core_refuse] kept_core [OF core_answer kept_invoke] split: sum.split option.split
        list.split prod.split bool.split)

lemma kept_frame:
  assumes "map_of (ps_serverConnections s) u = Some p"
  shows "map_of (ps_serverConnections (processFrame E k v f s)) u = Some p"
proof -
  have "core (addThroughput n (client_sendData q d s)) = core s" for n q d
    by (simp add: addThroughput_def core_simps)
  from kept_core [OF this assms] show ?thesis
    using kept_packet assms by (auto simp: processFrame_def Let_def split: option.split)
qed

section \<open>Every chunk of data\<close>

text \<open>What every connection can do.\<close>

locale connection_steps =
  fixes R :: "proxy_server \<Rightarrow> proxy_server \<Rightarrow> bool" and k :: uuid
  assumes own: "proxy_inv s \<Longrightarrow> talks_to k s t \<Longrightarrow> R s t"
    and chain: "R s t \<Longrightarrow> R t t' \<Longrightarrow> R s t'"
    and server: "proxy_inv s \<Longrightarrow> u \<noteq> nullUuid \<Longrightarrow> R s (snd (registerServer k u name s))"
    and client: "proxy_inv s \<Longrightarrow> u \<noteq> nullUuid \<Longrightarrow> R s (snd (registerClient E k u name v s))"
    and disconnect: "proxy_inv s \<Longrightarrow> R s (snd (disconnectClient k a s))"
    and to_client: "proxy_inv s \<Longrightarrow> map_of (ps_serverObjects s) k = Some sc \<Longrightarrow>
      getClientConnection sc a = Some p \<Longrightarrow> map_of (ps_clientObjects s) p = Some cc \<Longrightarrow>
      R s (addThroughput n (client_sendData (cc_transportClient cc) d s))"
begin

lemma refl: "proxy_inv s \<Longrightarrow> R s s"
  by (rule own [OF _ talks_to_refl])

lemma methods:
  assumes inv: "proxy_inv s"
  shows "R s (snd (RegisterServer E params k s))" "R s (snd (RegisterClient E params k s))"
    "R s (snd (DisconnectClient E params k s))"
  using server [OF inv] client [OF inv] disconnect [OF inv]
  by (simp_all add: RegisterServer_def RegisterClient_def DisconnectClient_def Let_def split_beta refl [OF inv])

lemma invoke: "proxy_inv s \<Longrightarrow> R s (snd (invokeMethod E h m params k s))"
  by (simp add: invokeMethod_def Ping_def methods refl)

lemma refused: "proxy_inv s \<Longrightarrow> R s (refuse E k i msg reason s)"
  by (rule own [OF _ talks_to_refuse])

lemma request:
  assumes inv: "proxy_inv s"
  shows "R s (processMethod E k i h m params s)"
proof -
  have "R s (answer E reply k i (snd (invokeMethod E h m params k s)))" for reply
    by (rule chain [OF invoke [OF inv]]) (rule own [OF _ talks_to_answer]; rule proxy_inv_invokeMethod [OF inv])
  then show ?thesis
    by (simp add: processMethod_def split_beta refused [OF inv] split: prod.split bool.split)
qed

lemma message: "proxy_inv s \<Longrightarrow> R s (processMessage E k m s)"
  unfolding processMessage_def by (simp add: refused request split: option.split list.split)

lemma packet: "proxy_inv s \<Longrightarrow> R s (processDataPacket E k d s)"
  by (simp add: processDataPacket_def refused message split: sum.split)

lemma packets: "proxy_inv s \<Longrightarrow> R s (processPackets E k ps s)"
proof (induction ps arbitrary: s)
  case (Cons p ps)
  from chain [OF packet [OF Cons.prems] Cons.IH [OF proxy_inv_processDataPacket [OF Cons.prems]]]
  show ?case by simp
qed (simp add: refl)

lemma frame:
  assumes inv: "proxy_inv s" and u: "map_of (ps_serverConnections s) u = Some k"
  shows "R s (processFrame E k u f s)"
proof -
  have "R s (addThroughput n (client_sendData (cc_transportClient cc) d s))"
    if "serverConnectionOf s u = Some (q, sc)" "Option.bind (getClientConnection sc a) (map_of (ps_clientObjects s)) = Some cc"
    for n d q sc a cc
  proof -
    from that(1) u have "map_of (ps_serverObjects s) k = Some sc" by (simp add: serverConnectionOf_Some)
    with that(2) to_client [OF inv this] show ?thesis by (auto simp: bind_eq_Some_conv)
  qed
  then show ?thesis
    using packet [OF inv] refl [OF inv]
    by (auto simp: processFrame_def Let_def split: option.split)
qed

lemma frames: "proxy_inv s \<Longrightarrow> map_of (ps_serverConnections s) u = Some k \<Longrightarrow> R s (processFrames E k u fs s)"
proof (induction fs arbitrary: s)
  case (Cons f fs)
  from chain [OF frame [OF Cons.prems] Cons.IH [OF proxy_inv_processFrame [OF Cons.prems(1)] kept_frame [OF Cons.prems(2)]]]
  show ?case by simp
qed (simp add: refl)

lemma buffered:
  assumes inv: "proxy_inv s"
  shows "R s (rpc_processData E k d s)"
proof (cases "map_of (ps_proxyClients s) k")
  case None
  then show ?thesis by (simp add: rpc_processData_def refl [OF inv])
next
  case (Some c)
  let ?t = "updClient k (\<lambda>_. snd (processData d c)) s"
  have t: "proxy_inv ?t" "R s ?t"
    by (rule proxy_inv_updClient [OF inv Some clientCore_processData],
        rule own [OF inv talks_to_updClient [OF Some clientCore_processData slip_unchanged(1)]])
  show ?thesis
    using chain [OF t(2) packets [OF t(1)]] refl [OF inv] chain [OF t(2) own [OF t(1) talks_to_kill [OF t(1)]]] Some
    by (simp add: rpc_processData_def Let_def split_beta)
qed

text \<open>The data of a connection that is no client.\<close>

lemma requests:
  assumes inv: "proxy_inv s" and other: "\<And>c. map_of (ps_proxyClients s) k = Some c \<Longrightarrow> pc_type c \<noteq> TypeClient"
  shows "R s (onClientDataAvailable E k d s)"
proof (cases "map_of (ps_proxyClients s) k")
  case None
  then show ?thesis by (simp add: onClientDataAvailable_def refl [OF inv])
next
  case (Some c)
  let ?c = "client_addRxDataCount (int (length d)) c"
  let ?s = "updClient k (\<lambda>_. ?c) s"
  have s: "proxy_inv ?s" "R s ?s"
    by (rule proxy_inv_updClient [OF inv Some clientCore_addRx],
        rule own [OF inv talks_to_updClient [OF Some clientCore_addRx slip_unchanged(2)]])
  have c: "map_of (ps_proxyClients ?s) k = Some ?c" by (simp add: Some)
  let ?t = "updClient k (\<lambda>_. snd (processData d ?c)) ?s"
  have t: "proxy_inv ?t" "R ?s ?t"
    by (rule proxy_inv_updClient [OF s(1) c clientCore_processData],
        rule own [OF s(1) talks_to_updClient [OF c clientCore_processData slip_unchanged(1)]])
  have "R ?s (rpc_processData E k d ?s)" by (rule buffered [OF s(1)])
  moreover have "R ?s (processFrames E k (tc_uuid (snd (processData d ?c))) fs ?t)" if "pc_type ?c = TypeServer" for fs
  proof (rule chain [OF t(2) frames [OF t(1)]])
    have "tc_uuid (snd (processData d ?c)) = tc_uuid ?c"
      using clientCore_processData [of d ?c] by (simp add: clientCore_def)
    with server_object(1) [OF s(1) c that] show "map_of (ps_serverConnections ?t) (tc_uuid (snd (processData d ?c))) = Some k"
      by simp
  qed
  moreover have "pc_type ?c \<noteq> TypeClient"
    using other [OF Some] clientCore_addRx [of "int (length d)" c] by (simp add: clientCore_def)
  ultimately show ?thesis
    using Some chain [OF s(2)] by (simp add: onClientDataAvailable_def Let_def split_beta)
qed

end

text \<open>A client also sends data to its server, in frames with its address.\<close>

locale request_steps = connection_steps +
  assumes to_server: "proxy_inv s \<Longrightarrow> map_of (ps_clientObjects s) k = Some cc \<Longrightarrow>
      cc_serverConnection cc = Some q \<Longrightarrow> map_of (ps_serverObjects s) q = Some sc \<Longrightarrow>
      R s (addThroughput n (client_sendData (sc_transportClient sc) d s))"
begin

lemma upward:
  assumes inv: "proxy_inv s" and c: "map_of (ps_proxyClients s) k = Some c" "pc_type c = TypeClient"
    and u: "tc_uuid c' = tc_uuid c"
  shows "R s (tunnelToServer c' d s)"
proof -
  obtain cc where cc: "clientConnectionOf s (tc_uuid c') = Some (k, cc)" "map_of (ps_clientObjects s) k = Some cc"
    using client_object [OF inv c] u by (auto simp: clientConnectionOf_Some)
  show ?thesis
    using to_server [OF inv cc(2)] refl [OF inv] cc(1)
    by (auto simp: tunnelToServer_def split: option.split)
qed

lemma data:
  assumes inv: "proxy_inv s"
  shows "R s (onClientDataAvailable E k d s)"
proof (cases "\<exists>c. map_of (ps_proxyClients s) k = Some c \<and> pc_type c = TypeClient")
  case False
  then show ?thesis by (intro requests [OF inv]) auto
next
  case True
  then obtain c where Some: "map_of (ps_proxyClients s) k = Some c" "pc_type c = TypeClient" by blast
  let ?c = "client_addRxDataCount (int (length d)) c"
  let ?s = "updClient k (\<lambda>_. ?c) s"
  have s: "proxy_inv ?s" "R s ?s"
    by (rule proxy_inv_updClient [OF inv Some(1) clientCore_addRx],
        rule own [OF inv talks_to_updClient [OF Some(1) clientCore_addRx slip_unchanged(2)]])
  have c: "map_of (ps_proxyClients ?s) k = Some ?c" "pc_type ?c = TypeClient"
    using Some clientCore_addRx [of "int (length d)" c] by (simp_all add: clientCore_def)
  show ?thesis
    using Some c(2) chain [OF s(2) upward [OF s(1) c HOL.refl]] by (simp add: onClientDataAvailable_def Let_def)
qed

end

section \<open>Relations on the registration state\<close>

locale request_relation =
  fixes R :: "proxy_server \<Rightarrow> proxy_server \<Rightarrow> bool" and k :: uuid
  assumes same: "core t = core s \<Longrightarrow> R s t"
    and related_chain: "R s t \<Longrightarrow> R t t' \<Longrightarrow> R s t'"
    and related_server: "proxy_inv s \<Longrightarrow> u \<noteq> nullUuid \<Longrightarrow> R s (snd (registerServer k u name s))"
    and related_client: "proxy_inv s \<Longrightarrow> u \<noteq> nullUuid \<Longrightarrow> R s (snd (registerClient E k u name v s))"

lemma core_forward: "core (addThroughput n (client_sendData p d s)) = core s"
  by (simp add: addThroughput_def core_simps)

sublocale request_relation \<subseteq> request_steps
proof
  fix s t assume "talks_to k s t"
  then show "R s t" by (rule same [OF talks_to_core])
next
  show "R s (snd (disconnectClient k a s))" for s a by (rule same [OF core_disconnectClient])
  fix s n p d
  show "R s (addThroughput n (client_sendData (cc_transportClient cc) d s))" for cc
    by (rule same [OF core_forward])
  show "R s (addThroughput n (client_sendData (sc_transportClient sc) d s))" for sc
    by (rule same [OF core_forward])
qed (fact related_chain, fact related_server, fact related_client)

end
