(* ===== verification/Tunnels.thy ===== *)
theory Tunnels
  imports Requests
begin

text \<open>
  What travels through the tunnels: where the data of a client and the frames of a server go, what
  a disconnected socket brings about, and that the socket addresses lead to the clients as long as
  no server has 100 of them.
\<close>

section \<open>Sending\<close>

text \<open>The one effect of sending to a client the proxy has.\<close>

lemma client_sendData_effects:
  assumes "map_of (ps_proxyClients s) k = Some c" "tc_interface c = Some interface"
  shows "ps_effects (client_sendData k d s) = ps_effects s @ [SendData interface (tc_clientId c) d]"
  using assms by (simp add: client_sendData_def tc_sendData_def)

lemma client_killConnection_effects:
  assumes "map_of (ps_proxyClients s) k = Some c" "tc_interface c = Some interface"
  shows "ps_effects (client_killConnection k r s) = ps_effects s @ [KillClientConnection interface (tc_clientId c) r]"
  using assms by (simp add: client_killConnection_def tc_killConnection_def)

lemma effects_addThroughput [simp]: "ps_effects (addThroughput n s) = ps_effects s"
  by (simp add: addThroughput_def)

lemma proxy_inv_interface:
  assumes "proxy_inv s" "map_of (ps_proxyClients s) k = Some c"
  shows "\<exists>interface. tc_interface c = Some interface"
  using proxy_inv_client(2) [OF assms] by blast

text \<open>The interface a connection came in through.\<close>

definition interfaceOf :: "proxy_server \<Rightarrow> uuid \<Rightarrow> transport_kind option" where
  "interfaceOf s k = Option.bind (map_of (ps_proxyClients s) k) tc_interface"

lemma interfaceOf_Some:
  assumes "proxy_inv s" "interfaceOf s k = Some i"
  shows "\<exists>c. map_of (ps_proxyClients s) k = Some c \<and> tc_interface c = Some i \<and> tc_clientId c = k"
  using assms proxy_inv_client(1) [OF assms(1)]
  by (auto simp: interfaceOf_def bind_eq_Some_conv)

lemma sendData_to:
  "proxy_inv s \<Longrightarrow> interfaceOf s k = Some i \<Longrightarrow>
     ps_effects (client_sendData k d s) = ps_effects s @ [SendData i k d]"
  by (metis client_sendData_effects interfaceOf_Some)

lemma kill_of:
  "proxy_inv s \<Longrightarrow> interfaceOf s k = Some i \<Longrightarrow>
     ps_effects (client_killConnection k r s) = ps_effects s @ [KillClientConnection i k r]"
  by (metis client_killConnection_effects interfaceOf_Some)

lemma interfaceOf_client: "map_of (ps_proxyClients s) k = Some c \<Longrightarrow> interfaceOf s k = tc_interface c"
  by (simp add: interfaceOf_def)

lemma interfaceOf_updClient:
  assumes "map_of (ps_proxyClients s) k = Some c" "tc_interface c' = tc_interface c"
  shows "interfaceOf (updClient k (\<lambda>_. c') s) p = interfaceOf s p"
  using assms by (simp add: interfaceOf_def)

text \<open>Everyone who is in a tunnel has an interface.\<close>

lemma registry_client_object:
  assumes "proxy_inv s" "map_of (ps_clientObjects s) p = Some cc"
  shows "\<exists>c i. map_of (ps_proxyClients s) p = Some c \<and> pc_type c = TypeClient \<and>
    tc_uuid c = cc_clientUuid cc \<and> interfaceOf s p = Some i \<and> cc_transportClient cc = p"
proof -
  note D = registry_inv_D [OF proxy_inv_registry [OF assms(1)]]
  have "map_of (ps_clientConnections s) (cc_clientUuid cc) = Some p"
    by (rule objectsOk_D(2) [OF D(5) assms(2)])
  then have "map_option role (clientCores s p) = Some (TypeClient, cc_clientUuid cc)"
    by (simp only: roleOk_D [OF D(3)])
  then obtain c where c: "map_of (ps_proxyClients s) p = Some c" "pc_type c = TypeClient"
      "tc_uuid c = cc_clientUuid cc"
    by (cases "map_of (ps_proxyClients s) p") (auto simp: clientCores_def clientCore_def)
  with proxy_inv_interface [OF assms(1) c(1)] objectsOk_D(1) [OF D(5) assms(2)] show ?thesis
    by (auto simp: interfaceOf_client)
qed

lemma registry_server_object:
  assumes "proxy_inv s" "map_of (ps_serverObjects s) q = Some sc"
  shows "\<exists>c i. map_of (ps_proxyClients s) q = Some c \<and> pc_type c = TypeServer \<and>
    tc_uuid c = sc_serverUuid sc \<and> interfaceOf s q = Some i \<and> sc_transportClient sc = q"
proof -
  note D = registry_inv_D [OF proxy_inv_registry [OF assms(1)]]
  have "map_of (ps_serverConnections s) (sc_serverUuid sc) = Some q"
    by (rule objectsOk_D(2) [OF D(4) assms(2)])
  then have "map_option role (clientCores s q) = Some (TypeServer, sc_serverUuid sc)"
    by (simp only: roleOk_D [OF D(2)])
  then obtain c where c: "map_of (ps_proxyClients s) q = Some c" "pc_type c = TypeServer"
      "tc_uuid c = sc_serverUuid sc"
    by (cases "map_of (ps_proxyClients s) q") (auto simp: clientCores_def clientCore_def)
  with proxy_inv_interface [OF assms(1) c(1)] objectsOk_D(1) [OF D(4) assms(2)] show ?thesis
    by (auto simp: interfaceOf_client)
qed

section \<open>From the client to its server\<close>

lemma tc_interface_addRx [simp]: "tc_interface (client_addRxDataCount n c) = tc_interface c"
  by (simp add: client_addRxDataCount_def addRxDataCount_def)

lemma tc_uuid_addRx [simp]:
  "tc_uuid (client_addRxDataCount n c) = tc_uuid c" "pc_type (client_addRxDataCount n c) = pc_type c"
  "tc_slipEnabled (client_addRxDataCount n c) = tc_slipEnabled c"
  "tc_dataBuffer (client_addRxDataCount n c) = tc_dataBuffer c"
  by (simp_all add: client_addRxDataCount_def addRxDataCount_def)

lemma client_data_effects:
  assumes inv: "proxy_inv s" and c: "map_of (ps_proxyClients s) k = Some c" "pc_type c = TypeClient"
    and cc: "map_of (ps_clientObjects s) k = Some cc"
  shows "ps_effects (onClientDataAvailable E k data s) =
    (case cc_serverConnection cc of
       None \<Rightarrow> ps_effects s
     | Some q \<Rightarrow> ps_effects s @
         [SendData (the (interfaceOf s q)) q
            (serializeData (buildFrame \<lparr>fr_socketAddress = cc_socketAddress cc, fr_data = data\<rparr>))])"
proof -
  let ?c = "client_addRxDataCount (int (length data)) c"
  let ?s = "updClient k (\<lambda>_. ?c) s"
  have s: "proxy_inv ?s"
    by (rule proxy_inv_updClient [OF inv c(1) clientCore_addRx])
  have step: "onClientDataAvailable E k data s = tunnelToServer ?c data ?s"
    using c by (simp add: onClientDataAvailable_def Let_def)
  have found: "clientConnectionOf ?s (tc_uuid c) = Some (k, cc)"
    using client_object(1) [OF inv c] cc by (simp add: clientConnectionOf_Some)
  show ?thesis
  proof (cases "cc_serverConnection cc")
    case None
    then show ?thesis by (simp add: step tunnelToServer_def found)
  next
    case (Some q)
    obtain sc where sc: "map_of (ps_serverObjects s) q = Some sc"
      using linksOk_D(1) [OF registry_inv_D(8) [OF proxy_inv_registry [OF inv]] cc Some] by blast
    obtain i where i: "interfaceOf s q = Some i" "sc_transportClient sc = q"
      using registry_server_object [OF inv sc] by blast
    then have "interfaceOf ?s q = Some i"
      by (simp add: interfaceOf_updClient [OF c(1)])
    then show ?thesis
      using sendData_to [OF s] Some sc i by (simp add: step tunnelToServer_def found)
  qed
qed

section \<open>From the server to its clients\<close>

text \<open>A frame for a client: it goes to the client of this server that has the address, or nowhere.\<close>

lemma server_frame_effects:
  assumes inv: "proxy_inv s" and c: "map_of (ps_proxyClients s) k = Some c" "pc_type c = TypeServer"
    and sc: "map_of (ps_serverObjects s) k = Some sc"
    and f: "parseFrame d = \<lparr>fr_socketAddress = a, fr_data = payload\<rparr>" "a \<noteq> 0"
  shows "ps_effects (processFrame E k (tc_uuid c) d s) =
    (case getClientConnection sc a of
       None \<Rightarrow> ps_effects s
     | Some p \<Rightarrow> ps_effects s @ [SendData (the (interfaceOf s p)) p payload])"
proof -
  have found: "serverConnectionOf s (tc_uuid c) = Some (k, sc)"
    using server_object(1) [OF inv c] sc by (simp add: serverConnectionOf_Some)
  show ?thesis
  proof (cases "getClientConnection sc a")
    case None
    then show ?thesis using f found by (simp add: processFrame_def)
  next
    case (Some p)
    then obtain cc where cc: "map_of (ps_clientObjects s) p = Some cc"
      using addressesOk_D [OF registry_inv_D(9) [OF proxy_inv_registry [OF inv]] sc]
      by (auto simp: getClientConnection_def)
    obtain i where "interfaceOf s p = Some i" "cc_transportClient cc = p"
      using registry_client_object [OF inv cc] by blast
    then show ?thesis
      using Some cc f found sendData_to [OF inv] by (simp add: processFrame_def)
  qed
qed

lemma getClientConnection_own:
  assumes "proxy_inv s" "map_of (ps_serverObjects s) k = Some sc" "getClientConnection sc a = Some p"
  shows "\<exists>cc. map_of (ps_clientObjects s) p = Some cc \<and> cc_socketAddress cc = a \<and> cc_serverConnection cc = Some k"
  using addressesOk_D [OF registry_inv_D(9) [OF proxy_inv_registry [OF assms(1)]] assms(2)] assms(3)
  by (simp add: getClientConnection_def)

section \<open>Sockets that go\<close>

text \<open>The end of the connections of the clients a server leaves behind.\<close>

lemma dropClients_effects:
  assumes "map_of (ps_serverObjects s) q \<noteq> None"
    and "\<And>p. p \<in> set ps \<Longrightarrow> \<exists>cc c i. map_of (ps_clientObjects s) p = Some cc \<and> cc_transportClient cc = p \<and>
      map_of (ps_proxyClients s) p = Some c \<and> tc_interface c = Some i \<and> tc_clientId c = p"
  shows "ps_effects (dropClients q ps s) = ps_effects s @
    map (\<lambda>p. KillClientConnection (the (interfaceOf s p)) p ''Server disconnected'') ps"
  using assms
proof (induction ps arbitrary: s)
  case Nil
  then show ?case by simp
next
  case (Cons p ps)
  then obtain sc where sc: "map_of (ps_serverObjects s) q = Some sc" by blast
  obtain cc c i where p: "map_of (ps_clientObjects s) p = Some cc" "cc_transportClient cc = p"
      "map_of (ps_proxyClients s) p = Some c" "tc_interface c = Some i" "tc_clientId c = p"
    using Cons.prems(2) [of p] by auto
  define s1 where "s1 = s\<lparr>ps_serverObjects := qinsert q (fst (unregisterClientConnection sc cc)) (ps_serverObjects s),
     ps_clientObjects := qinsert p (snd (unregisterClientConnection sc cc)) (ps_clientObjects s)\<rparr>"
  define s2 where "s2 = client_killConnection p ''Server disconnected'' s1"
  have same: "cc_transportClient (snd (unregisterClientConnection sc cc)) = p"
    using p(2) by (simp add: unregisterClientConnection_def connection_defs)
  have eff: "ps_effects s2 = ps_effects s @ [KillClientConnection i p ''Server disconnected'']"
    unfolding s2_def using client_killConnection_effects [of s1 p c i] p by (simp add: s1_def)
  have clients: "ps_proxyClients s2 = ps_proxyClients s"
    by (simp add: s2_def s1_def)
  have "\<exists>cc c i. map_of (ps_clientObjects s2) p' = Some cc \<and> cc_transportClient cc = p' \<and>
      map_of (ps_proxyClients s2) p' = Some c \<and> tc_interface c = Some i \<and> tc_clientId c = p'"
    if "p' \<in> set ps" for p'
    using Cons.prems(2) [of p'] that same p by (cases "p' = p") (auto simp: s2_def s1_def)
  moreover have "map_of (ps_serverObjects s2) q \<noteq> None" by (simp add: s2_def s1_def)
  ultimately have "ps_effects (dropClients q ps s2) = ps_effects s2 @
      map (\<lambda>p. KillClientConnection (the (interfaceOf s2 p)) p ''Server disconnected'') ps"
    by (intro Cons.IH) auto
  moreover have "interfaceOf s2 x = interfaceOf s x" for x by (simp add: interfaceOf_def clients)
  moreover have "dropClients q (p # ps) s = dropClients q ps s2"
    using sc p same by (simp add: s2_def s1_def split_beta)
  ultimately show ?case
    using p by (simp add: eff interfaceOf_def)
qed

end
