(* ===== verification/Addresses.thy ===== *)
theory Addresses
  imports Tunnels
begin

text \<open>
  The socket addresses of a server's clients: as long as no server has 100 clients, every client that
  is in a tunnel is found under its address and under no other, and never under an address that is
  reserved. (\<open>m_connectionLimit\<close> bounds the search for a free address only: nothing refuses the 100th
  client.)
\<close>

section \<open>Clients and their addresses\<close>

definition addressed :: "(uuid \<rightharpoonup> server_connection) \<Rightarrow> (uuid \<rightharpoonup> client_connection) \<Rightarrow> bool" where
  "addressed so co =
     (\<forall>p cc q. co p = Some cc \<longrightarrow> cc_serverConnection cc = Some q \<longrightarrow>
        (\<exists>sc. so q = Some sc \<and> getClientConnection sc (cc_socketAddress cc) = Some p \<and>
           \<not> reservedAddress (cc_socketAddress cc)))"

definition crowded :: "(uuid \<rightharpoonup> server_connection) \<Rightarrow> bool" where
  "crowded so = (\<exists>q sc. so q = Some sc \<and> 100 \<le> length (sc_clientConnections sc))"

definition everyone_addressed :: "proxy_server \<Rightarrow> bool" where
  "everyone_addressed s = addressed (map_of (ps_serverObjects s)) (map_of (ps_clientObjects s))"

definition someone_crowded :: "proxy_server \<Rightarrow> bool" where
  "someone_crowded s = crowded (map_of (ps_serverObjects s))"

lemma addressed_D:
  "addressed so co \<Longrightarrow> co p = Some cc \<Longrightarrow> cc_serverConnection cc = Some q \<Longrightarrow>
     \<exists>sc. so q = Some sc \<and> getClientConnection sc (cc_socketAddress cc) = Some p \<and>
        \<not> reservedAddress (cc_socketAddress cc)"
  unfolding addressed_def by blast

text \<open>A server has at most as many addresses as clients: an address tells the client, a client its uuid.\<close>

lemma fewer_addresses:
  assumes inv: "proxy_inv s" and q: "map_of (ps_serverObjects s) q = Some sc"
  shows "length (sc_clientConnectionsAddresses sc) \<le> length (sc_clientConnections sc)"
proof -
  let ?A = "map_of (sc_clientConnectionsAddresses sc)" and ?U = "map_of (sc_clientConnections sc)"
  note D = registry_inv_D [OF proxy_inv_registry [OF inv]]
  have addr: "\<exists>cc. map_of (ps_clientObjects s) p = Some cc \<and> cc_socketAddress cc = a \<and>
      cc_serverConnection cc = Some q" if "?A a = Some p" for a p
    by (rule addressesOk_D [OF D(9) q that])
  have link: "\<exists>u. ?U u = Some p" if "?A a = Some p" for a p
    using addr [OF that] linksOk_D(1) [OF D(8)] q by fastforce
  have "card (dom ?A) \<le> card (ran ?U)"
  proof (rule card_inj_on_le)
    show "inj_on (\<lambda>a. the (?A a)) (dom ?A)"
    proof (rule inj_onI)
      fix a b assume "a \<in> dom ?A" "b \<in> dom ?A" and same: "the (?A a) = the (?A b)"
      then obtain p r where "?A a = Some p" "?A b = Some r" by blast
      with addr [of a p] addr [of b r] same show "a = b" by auto
    qed
    show "(\<lambda>a. the (?A a)) ` dom ?A \<subseteq> ran ?U"
      using link by (fastforce simp: ran_def)
    show "finite (ran ?U)" by (rule finite_ran) (rule finite_dom_map_of)
  qed
  also have "\<dots> \<le> card (dom ?U)"
  proof -
    have "ran ?U = (\<lambda>u. the (?U u)) ` dom ?U" by (force simp: ran_def)
    then show ?thesis by (simp add: card_image_le finite_dom_map_of)
  qed
  finally show ?thesis
    using proxy_inv_server(3,4) [OF inv q]
    by (simp add: qwf_def dom_map_of_conv_image_fst distinct_card flip: set_map)
qed

section \<open>A client joins or leaves\<close>

lemma addressed_joins:
  assumes inv: "addressed so co" and q: "so q = Some sc" and k: "co k = None"
    and cc: "cc_serverConnection cc' = Some q" "cc_socketAddress cc' = a"
    and sc: "sc_clientConnectionsAddresses sc' = qinsert a k (sc_clientConnectionsAddresses sc)"
    and free: "\<not> takenAddress (sc_clientConnectionsAddresses sc) a"
  shows "addressed (so(q \<mapsto> sc')) (co(k \<mapsto> cc'))"
  unfolding addressed_def
proof (intro allI impI)
  fix p x r
  assume x: "(co(k \<mapsto> cc')) p = Some x" "cc_serverConnection x = Some r"
  show "\<exists>y. (so(q \<mapsto> sc')) r = Some y \<and> getClientConnection y (cc_socketAddress x) = Some p \<and>
      \<not> reservedAddress (cc_socketAddress x)"
  proof (cases "p = k")
    case True
    with x cc sc free show ?thesis by (auto simp: getClientConnection_def takenAddress_def)
  next
    case False
    with x have "co p = Some x" by simp
    from addressed_D [OF inv this x(2)] q free sc show ?thesis
      by (auto simp: getClientConnection_def takenAddress_def qcontains_def)
  qed
qed

lemma addressed_leaves:
  assumes inv: "addressed so co" and q: "so q = Some sc" and k: "co k = Some cc"
    and cc: "cc_serverConnection cc = Some q"
  shows "addressed (so(q \<mapsto> fst (unregisterClientConnection sc cc))) (co(k := None))"
  unfolding addressed_def
proof (intro allI impI)
  fix p x r
  assume x: "(co(k := None)) p = Some x" "cc_serverConnection x = Some r"
  then have p: "co p = Some x" "p \<noteq> k" by (auto split: if_splits)
  obtain sk where "so q = Some sk" "getClientConnection sk (cc_socketAddress cc) = Some k"
    using addressed_D [OF inv k cc] by blast
  with addressed_D [OF inv p(1) x(2)] p(2) q
  show "\<exists>y. (so(q \<mapsto> fst (unregisterClientConnection sc cc))) r = Some y \<and>
      getClientConnection y (cc_socketAddress x) = Some p \<and> \<not> reservedAddress (cc_socketAddress x)"
    by (cases "cc_socketAddress x = cc_socketAddress cc")
      (auto simp: getClientConnection_def unregisterClientConnection_def)
qed

lemma addressed_server_leaves:
  assumes inv: "addressed so co"
  shows "addressed (so(q := None)) (map_option (unlink q) \<circ> co)"
  unfolding addressed_def
proof (intro allI impI)
  fix p x r
  assume x: "(map_option (unlink q) \<circ> co) p = Some x" "cc_serverConnection x = Some r"
  then obtain z where z: "co p = Some z" "x = unlink q z" by auto
  with x(2) have "cc_serverConnection z \<noteq> Some q" by (auto simp: unlink_def connection_defs)
  with z have "x = z" by (simp add: unlink_def)
  with addressed_D [OF inv z(1)] x(2) z \<open>cc_serverConnection z \<noteq> Some q\<close>
  show "\<exists>y. (so(q := None)) r = Some y \<and> getClientConnection y (cc_socketAddress x) = Some p \<and>
      \<not> reservedAddress (cc_socketAddress x)"
    by auto
qed

lemma addressed_new_server:
  assumes inv: "addressed so co" and q: "so q = None"
  shows "addressed (so(q \<mapsto> sc)) co"
  using addressed_D [OF inv] q unfolding addressed_def by fastforce

lemma addressed_forget: "addressed so co \<Longrightarrow> addressed so (co(k := None))"
  unfolding addressed_def by (auto split: if_splits)

lemma crowded_new_server:
  assumes "so q = None"
  shows "crowded (so(q \<mapsto> newServerConnection k u name)) = crowded so"
proof
  assume "crowded (so(q \<mapsto> newServerConnection k u name))"
  then obtain r sc where "(so(q \<mapsto> newServerConnection k u name)) r = Some sc" "100 \<le> length (sc_clientConnections sc)"
    unfolding crowded_def by blast
  then show "crowded so"
    by (cases "r = q") (auto simp: crowded_def newServerConnection_def)
next
  assume "crowded so"
  with assms show "crowded (so(q \<mapsto> newServerConnection k u name))"
    unfolding crowded_def by (metis fun_upd_other option.distinct(1))
qed

lemma crowded_grows:
  assumes "so q = Some sc" "length (sc_clientConnections sc) \<le> length (sc_clientConnections sc')" "crowded so"
  shows "crowded (so(q \<mapsto> sc'))"
proof -
  obtain r x where r: "so r = Some x" "100 \<le> length (sc_clientConnections x)"
    using assms(3) unfolding crowded_def by blast
  show ?thesis
  proof (cases "r = q")
    case True
    with r assms(1,2) have "100 \<le> length (sc_clientConnections sc')" by simp
    then show ?thesis unfolding crowded_def by (intro exI [of _ q] exI [of _ sc']) simp
  next
    case False
    with r show ?thesis unfolding crowded_def by (intro exI [of _ r] exI [of _ x]) simp
  qed
qed

lemmas addressing_core = core_fields(3,4)

lemma everyone_addressed_same: "core t = core s \<Longrightarrow> everyone_addressed t = everyone_addressed s"
  unfolding everyone_addressed_def by (simp only: addressing_core [of t s])

lemma someone_crowded_same: "core t = core s \<Longrightarrow> someone_crowded t = someone_crowded s"
  unfolding someone_crowded_def by (simp only: addressing_core [of t s])

section \<open>Requests\<close>

text \<open>
  What a step keeps: addresses, as long as no server is crowded after it; and it cannot end a crowd,
  so that a crowd between two requests of one chunk is not overlooked.
\<close>

definition keeps_addresses :: "proxy_server \<Rightarrow> proxy_server \<Rightarrow> bool" where
  "keeps_addresses s t =
     (\<not> someone_crowded t \<longrightarrow> \<not> someone_crowded s \<and> (everyone_addressed s \<longrightarrow> everyone_addressed t))"

lemma keeps_addresses_registerServer:
  assumes inv: "proxy_inv s"
  shows "keeps_addresses s (snd (registerServer k u name s))"
proof (cases "\<exists>c. map_of (ps_proxyClients s) k = Some c \<and> pc_type c = TypeNone \<and>
    map_of (ps_serverConnections s) u = None \<and> map_of (ps_clientConnections s) u = None")
  case True
  then obtain c where c: "map_of (ps_proxyClients s) k = Some c" "pc_type c = TypeNone"
      "map_of (ps_serverConnections s) u = None" "map_of (ps_clientConnections s) u = None" by blast
  have "map_of (ps_serverObjects s) k = None"
  proof (rule ccontr)
    assume "map_of (ps_serverObjects s) k \<noteq> None"
    then obtain sc where "map_of (ps_serverObjects s) k = Some sc" by blast
    with registry_server_object [OF inv this] c show False by auto
  qed
  with addressed_new_server crowded_new_server show ?thesis
    unfolding registerServer_success [OF c]
    by (simp add: keeps_addresses_def everyone_addressed_def someone_crowded_def)
next
  case False
  then have "core (snd (registerServer k u name s)) = core s"
    by (auto simp: registerServer_def qcontains_def core_killAfter split: option.splits)
  from everyone_addressed_same [OF this] someone_crowded_same [OF this] show ?thesis
    by (simp add: keeps_addresses_def)
qed

lemma keeps_addresses_registerClient:
  assumes inv: "proxy_inv s"
  shows "keeps_addresses s (snd (registerClient E k u name v s))"
proof (cases "\<exists>c q sc. map_of (ps_proxyClients s) k = Some c \<and> pc_type c = TypeNone \<and>
    map_of (ps_clientConnections s) u = None \<and> map_of (ps_serverConnections s) u = None \<and>
    serverConnectionOf s v = Some (q, sc)")
  case False
  then have "core (snd (registerClient E k u name v s)) = core s"
    by (intro registerClient_failure(1))
      (cases "map_of (ps_proxyClients s) k"; cases "serverConnectionOf s v"; auto)
  from everyone_addressed_same [OF this] someone_crowded_same [OF this] show ?thesis
    by (simp add: keeps_addresses_def)
next
  case True
  then obtain c q sc where c: "map_of (ps_proxyClients s) k = Some c" "pc_type c = TypeNone"
    "map_of (ps_clientConnections s) u = None" "map_of (ps_serverConnections s) u = None"
    "serverConnectionOf s v = Some (q, sc)" by blast
  obtain sc' cc' where j: "joinedObjects q sc k u name = (sc', cc')" by fastforce
  note J = joinedObjects_simps [OF j]
  have q: "map_of (ps_serverObjects s) q = Some sc"
    using c(5) by (simp add: serverConnectionOf_Some)
  have k: "map_of (ps_clientObjects s) k = None"
  proof (rule ccontr)
    assume "map_of (ps_clientObjects s) k \<noteq> None"
    then obtain cc where "map_of (ps_clientObjects s) k = Some cc" by blast
    with registry_client_object [OF inv this] c show False by auto
  qed
  define so where "so = map_of (ps_serverObjects s)"
  define t where "t = snd (registerClient E k u name v s)"
  have after: "map_of (ps_serverObjects t) = so(q \<mapsto> sc')"
    "map_of (ps_clientObjects t) = (map_of (ps_clientObjects s))(k \<mapsto> cc')"
    unfolding t_def registerClient_success [OF c j] snd_conv addressing_core [OF core_sendNotification]
    by (simp_all add: so_def)
  have longer: "length (sc_clientConnections sc) \<le> length (sc_clientConnections sc')"
    by (simp add: J(10) length_qinsert)
  have "someone_crowded t" if "someone_crowded s"
    using crowded_grows [of "map_of (ps_serverObjects s)", OF q longer] that unfolding someone_crowded_def after so_def by blast
  moreover have "everyone_addressed t" if calm: "\<not> someone_crowded t" and all: "everyone_addressed s"
  proof -
    have fresh: "map_of (sc_clientConnections sc) u = None"
    proof (rule ccontr)
      assume "map_of (sc_clientConnections sc) u \<noteq> None"
      then obtain p where "p \<in> set (clientConnections sc)" "map_of (sc_clientConnections sc) u = Some p"
        by (auto simp: clientConnections_def qvalues_mem [OF proxy_inv_server(3) [OF inv q]])
      then obtain x where "map_of (ps_clientObjects s) p = Some x" "cc_clientUuid x = u"
        using linksOk_D(2) [OF registry_inv_D(8) [OF proxy_inv_registry [OF inv]] q] by blast
      with objectsOk_D(2) [OF registry_inv_D(5) [OF proxy_inv_registry [OF inv]]] c(3) show False
        by fastforce
    qed
    have "length (sc_clientConnections sc') < 100"
      using calm unfolding someone_crowded_def after crowded_def
      by (metis fun_upd_same linorder_not_le)
    then have "length (sc_clientConnections sc) \<le> 98"
      using fresh by (simp add: J(10) length_qinsert qcontains_def)
    then have "length (sc_clientConnectionsAddresses sc) \<le> 98"
      using fewer_addresses [OF inv q] by simp
    from getFreeAddress_free [OF proxy_inv_server(4,5) [OF inv q] this] show ?thesis
      unfolding everyone_addressed_def after so_def
      by (intro addressed_joins [where sc = sc and a = "fst (getFreeAddress sc)"])
        (use all q k J in \<open>simp_all add: everyone_addressed_def\<close>)
  qed
  ultimately show ?thesis by (auto simp: keeps_addresses_def t_def)
qed

interpretation addressing: request_relation keeps_addresses k for k
proof
  fix s t :: proxy_server assume "core t = core s"
  from everyone_addressed_same [OF this] someone_crowded_same [OF this] show "keeps_addresses s t"
    by (simp add: keeps_addresses_def)
next
  fix s t t' assume "keeps_addresses s t" "keeps_addresses t t'"
  then show "keeps_addresses s t'" by (simp add: keeps_addresses_def)
qed (rule keeps_addresses_registerServer, assumption, rule keeps_addresses_registerClient, assumption)

section \<open>Events\<close>

lemma everyone_addressed_disconnect:
  assumes inv: "proxy_inv s" and all: "everyone_addressed s"
  shows "everyone_addressed (onClientDisconnected E k s)"
proof (cases "map_of (ps_proxyClients s) k")
  case None
  with all show ?thesis by (simp add: onClientDisconnected_def)
next
  case (Some c)
  show ?thesis
  proof (cases "pc_type c")
    case TypeServer
    note T = disconnectServerConnection_effect [OF inv Some TypeServer refl]
    from Some TypeServer addressed_server_leaves [OF all [unfolded everyone_addressed_def]] show ?thesis
      by (simp add: onClientDisconnected_def Let_def everyone_addressed_def T)
  next
    case TypeClient
    obtain cc where cc: "map_of (ps_clientObjects s) k = Some cc"
      using client_object(2) [OF inv Some TypeClient] by blast
    have step: "onClientDisconnected E k s =
        rpc_unregisterClient k (disconnectClientConnection E c (forgotten k s))"
      using Some TypeClient by (simp add: onClientDisconnected_def Let_def)
    show ?thesis
    proof (cases "cc_serverConnection cc")
      case None
      from addressed_forget [OF all [unfolded everyone_addressed_def]] show ?thesis
        unfolding step disconnectClientConnection_alone [OF inv Some TypeClient cc None]
        by (simp add: everyone_addressed_def)
    next
      case (Some q)
      obtain sc where sc: "map_of (ps_serverObjects s) q = Some sc"
        using linksOk_D(1) [OF registry_inv_D(8) [OF proxy_inv_registry [OF inv]] cc Some] by blast
      from addressed_leaves [OF all [unfolded everyone_addressed_def] sc cc Some] show ?thesis
        unfolding step everyone_addressed_def
          disconnectClientConnection_linked [OF inv \<open>map_of (ps_proxyClients s) k = _\<close> TypeClient cc Some sc]
        by (simp add: Let_def addressing_core [OF core_sendNotification] leaveServer_def)
    qed
  next
    case TypeNone
    with Some all show ?thesis by (simp add: onClientDisconnected_def Let_def everyone_addressed_def)
  qed
qed

lemma everyone_addressed_step:
  assumes inv: "proxy_inv s" and all: "everyone_addressed s"
    and calm: "\<not> someone_crowded (proxy_step E s e)"
  shows "everyone_addressed (proxy_step E s e)"
proof (cases e)
  case (ClientConnected interface k address now)
  with all show ?thesis
    by (simp add: everyone_addressed_def onClientConnected_def rpc_registerClient_def emit_def)
next
  case (DataAvailable k data)
  with addressing.data [OF inv, of E k data] all calm show ?thesis
    by (simp add: keeps_addresses_def)
next
  case (InactiveTimeout k)
  with everyone_addressed_same [OF core_onInactiveTimeout] all show ?thesis by simp
next
  case (ReplyTimeout p)
  have "core (asyncReplyTimeout E p s) = core s" by (simp add: asyncReplyTimeout_def core_simps)
  from everyone_addressed_same [OF this] ReplyTimeout all show ?thesis by simp
next
  case (ReplyFinished p)
  with everyone_addressed_same [OF core_asyncReplyFinished] all show ?thesis by simp
next
  case (ClientDisconnected k)
  with everyone_addressed_disconnect [OF inv all] show ?thesis by simp
next
  case Tick
  with all show ?thesis by (simp add: tick_def everyone_addressed_def)
qed

end
