(* ===== verification/Isolation.thy ===== *)
theory Isolation
  imports Addresses
begin

text \<open>
  Who hears of the data of a connection: itself, the server it is tunnelled to and the clients that
  are tunnelled to it, nobody else.
\<close>

definition tunnelOf :: "proxy_server \<Rightarrow> uuid \<Rightarrow> uuid option" where
  "tunnelOf s p = Option.bind (map_of (ps_clientObjects s) p) cc_serverConnection"

definition concerns :: "uuid \<Rightarrow> proxy_server \<Rightarrow> uuid \<Rightarrow> bool" where
  "concerns k s p = (p = k \<or> tunnelOf s k = Some p \<or> tunnelOf s p = Some k)"

text \<open>What a step of connection \<open>k\<close> may do: no tunnel ends, and whatever it sends concerns \<open>k\<close>.\<close>

definition isolated :: "uuid \<Rightarrow> proxy_server \<Rightarrow> proxy_server \<Rightarrow> bool" where
  "isolated k s t =
     ((\<exists>es. ps_effects t = ps_effects s @ es \<and> (\<forall>e \<in> set es. concerns k t (effect_target e))) \<and>
      (\<forall>p q. tunnelOf s p = Some q \<longrightarrow> tunnelOf t p = Some q))"

lemma tunnelOf_core: "core t = core s \<Longrightarrow> tunnelOf t p = tunnelOf s p"
  unfolding tunnelOf_def by (simp only: addressing_core [of t s])

lemma isolated_I:
  assumes "core t = core s" "ps_effects t = ps_effects s @ es" "\<And>e. e \<in> set es \<Longrightarrow> concerns k s (effect_target e)"
  shows "isolated k s t"
  unfolding isolated_def concerns_def using assms(2,3) tunnelOf_core [OF assms(1)]
  by (auto simp: concerns_def)

lemma isolated_trans:
  assumes "isolated k s t" "isolated k t u"
  shows "isolated k s u"
proof -
  obtain es fs where es: "ps_effects t = ps_effects s @ es" "ps_effects u = (ps_effects s @ es) @ fs"
      "\<forall>e \<in> set es. concerns k t (effect_target e)" "\<forall>e \<in> set fs. concerns k u (effect_target e)"
    using assms unfolding isolated_def by (metis (no_types))
  have kept: "tunnelOf s p = Some q \<Longrightarrow> tunnelOf t p = Some q" "tunnelOf t p = Some q \<Longrightarrow> tunnelOf u p = Some q" for p q
    using assms unfolding isolated_def by blast+
  have "concerns k u p" if "concerns k t p" for p
    using that kept(2) by (auto simp: concerns_def)
  with es kept show ?thesis
    unfolding isolated_def by (intro conjI exI [of _ "es @ fs"]) auto
qed

lemma isolated_talk: "talks_to k s t \<Longrightarrow> isolated k s t"
  unfolding talks_to_def by (auto simp: concerns_def intro: isolated_I)

text \<open>Sending to somebody who is concerned.\<close>

lemma isolated_send:
  assumes inv: "proxy_inv s" and p: "concerns k s p"
  shows "isolated k s (client_sendData p d s)" "isolated k s (client_killConnection p r s)"
    "isolated k s (addThroughput n (client_sendData p d s))"
proof -
  obtain es where es: "ps_effects (client_sendData p d s) = ps_effects s @ es" "\<forall>e \<in> set es. effect_target e = p"
    using effects_sendData [OF inv] by blast
  show "isolated k s (client_sendData p d s)"
    by (rule isolated_I [OF core_sendData es(1)]) (use es(2) p in simp)
  show "isolated k s (addThroughput n (client_sendData p d s))"
    by (rule isolated_I [OF core_forward, of _ _ _ _ es]) (use es p in auto)
  obtain fs where "ps_effects (client_killConnection p r s) = ps_effects s @ fs" "\<forall>e \<in> set fs. effect_target e = p"
    using talks_to_kill [OF inv] unfolding talks_to_def by blast
  then show "isolated k s (client_killConnection p r s)"
    by (intro isolated_I [OF core_kill]) (use p in auto)
qed

lemma tunnel_of_address:
  assumes "proxy_inv s" "map_of (ps_serverObjects s) k = Some sc" "getClientConnection sc a = Some p"
  shows "tunnelOf s p = Some k"
  using getClientConnection_own [OF assms] by (auto simp: tunnelOf_def)

lemma isolated_disconnectClient:
  assumes inv: "proxy_inv s"
  shows "isolated k s (snd (disconnectClient k a s))"
proof (cases "core (snd (disconnectClient k a s)) = core s \<and> ps_effects (snd (disconnectClient k a s)) = ps_effects s")
  case True
  then show ?thesis by (intro isolated_I [where es = "[]"]) auto
next
  case False
  then have "ps_effects (snd (disconnectClient k a s)) \<noteq> ps_effects s"
    by (simp add: core_disconnectClient)
  then obtain c q sc p cc where step: "snd (disconnectClient k a s) =
      client_killConnection (cc_transportClient cc) ''Server requested disconnect.'' s"
    and c: "map_of (ps_proxyClients s) k = Some c" "pc_type c = TypeServer"
    and sc: "serverConnectionOf s (tc_uuid c) = Some (q, sc)" "getClientConnection sc a = Some p"
    and cc: "map_of (ps_clientObjects s) p = Some cc"
    by (auto simp: disconnectClient_def split: option.splits if_splits)
  have "map_of (ps_serverObjects s) k = Some sc"
    using sc(1) server_object(1) [OF inv c] by (simp add: serverConnectionOf_Some)
  from tunnel_of_address [OF inv this sc(2)] registry_client_object [OF inv cc] show ?thesis
    unfolding step by (intro isolated_send(2) [OF inv]) (auto simp: concerns_def)
qed

lemma isolated_registerServer:
  assumes inv: "proxy_inv s"
  shows "isolated k s (snd (registerServer k u name s))"
proof -
  have "ps_effects (snd (registerServer k u name s)) = ps_effects s"
    "ps_clientObjects (snd (registerServer k u name s)) = ps_clientObjects s"
    by (auto simp: registerServer_def Let_def updClient_def split: option.split)
  then show ?thesis by (simp add: isolated_def tunnelOf_def)
qed

text \<open>A client that registers: it is refused, or it becomes known and its server is told.\<close>

lemma registerClient_tells:
  assumes inv: "proxy_inv s" and u: "u \<noteq> nullUuid" and t: "t = snd (registerClient E k u name v s)"
  shows "(core t = core s \<and> ps_effects t = ps_effects s \<and> slipKept s t) \<or>
    (\<exists>q cc r. proxy_inv r \<and> core t = core r \<and> ps_effects r = ps_effects s \<and> slipKept s r \<and> talks_to q r t \<and>
      map_of (ps_clientObjects s) k = None \<and> cc_serverConnection cc = Some q \<and>
      map_of (ps_clientObjects r) = (map_of (ps_clientObjects s))(k \<mapsto> cc))"
proof (cases "\<exists>c q sc. map_of (ps_proxyClients s) k = Some c \<and> pc_type c = TypeNone \<and>
    map_of (ps_clientConnections s) u = None \<and> map_of (ps_serverConnections s) u = None \<and>
    serverConnectionOf s v = Some (q, sc)")
  case False
  then have "core t = core s"
    unfolding t by (intro registerClient_failure(1))
      (cases "map_of (ps_proxyClients s) k"; cases "serverConnectionOf s v"; auto)
  moreover from False have "ps_effects t = ps_effects s \<and> slipKept s t"
    by (auto simp: t registerClient_def qcontains_def Let_def killConnectionAfterResponse_def
        intro!: slipKept_at split: option.split)
  ultimately show ?thesis by blast
next
  case True
  then obtain c q sc where c: "map_of (ps_proxyClients s) k = Some c" "pc_type c = TypeNone"
    "map_of (ps_clientConnections s) u = None" "map_of (ps_serverConnections s) u = None"
    "serverConnectionOf s v = Some (q, sc)" by blast
  obtain sc' cc' where j: "joinedObjects q sc k u name = (sc', cc')" by fastforce
  have q: "sc_transportClient sc = q"
    using c(5) proxy_inv_server(1) [OF inv] by (simp add: serverConnectionOf_Some)
  let ?c = "(activateClient \<circ> setName name \<circ> setUuid u \<circ> setType TypeClient) c"
  define r where "r = (updClient k (\<lambda>_. ?c) s)
         \<lparr>ps_clientObjects := qinsert k cc' (ps_clientObjects s),
          ps_clientConnections := qinsert u k (ps_clientConnections s),
          ps_serverObjects := qinsert q sc' (ps_serverObjects s)\<rparr>"
  have step: "t = sendNotification E ''TunnelProxy'' ''ClientConnected'' (clientConnectedParams E ?c cc') q r"
    unfolding t registerClient_success [OF c j] r_def by (simp add: q)
  have core: "core t = core r" unfolding step by (rule core_sendNotification)
  moreover have "proxy_inv t" unfolding t by (rule proxy_inv_registerClient [OF inv u])
  ultimately have r: "proxy_inv r" by (metis proxy_inv_same)
  have "map_of (ps_clientObjects s) k = None"
  proof (rule ccontr)
    assume "map_of (ps_clientObjects s) k \<noteq> None"
    then obtain x where "map_of (ps_clientObjects s) k = Some x" by blast
    from registry_client_object [OF inv this] c show False by auto
  qed
  moreover have "tc_slipEnabled ?c = tc_slipEnabled c"
    by (simp add: activateClient_def setName_def setUuid_def setType_def Let_def)
  then have "slipKept s r"
    using c(1) by (auto simp: slipKept_def slipOn_def r_def split: option.splits)
  moreover have "talks_to q r t" unfolding step by (rule talks_to_notification [OF r])
  ultimately show ?thesis
    using r core joinedObjects_simps(4) [OF j] by (intro disjI2 exI [of _ q] exI [of _ cc'] exI [of _ r]) (simp add: r_def)
qed

lemma isolated_registerClient:
  assumes inv: "proxy_inv s" and u: "u \<noteq> nullUuid"
  shows "isolated k s (snd (registerClient E k u name v s))"
proof -
  define t where "t = snd (registerClient E k u name v s)"
  consider "core t = core s" "ps_effects t = ps_effects s"
    | q cc r where "ps_effects r = ps_effects s" "core t = core r" "talks_to q r t" "map_of (ps_clientObjects s) k = None"
      "cc_serverConnection cc = Some q" "map_of (ps_clientObjects r) = (map_of (ps_clientObjects s))(k \<mapsto> cc)"
    using registerClient_tells [OF inv u t_def] by blast
  then have "isolated k s t"
  proof cases
    case 1
    then show ?thesis by (intro isolated_I [where es = "[]"]) auto
  next
    case 2
    have "isolated k s r"
      using 2(1,4,6) by (auto simp: isolated_def tunnelOf_def)
    moreover have "isolated k r t"
    proof -
      have "tunnelOf r k = Some q" using 2(5,6) by (simp add: tunnelOf_def)
      moreover obtain es where "ps_effects t = ps_effects r @ es" "\<forall>e \<in> set es. effect_target e = q"
        using 2(3) unfolding talks_to_def by blast
      ultimately show ?thesis
        by (intro isolated_I [OF 2(2)]) (auto simp: concerns_def)
    qed
    ultimately show ?thesis by (rule isolated_trans)
  qed
  then show ?thesis by (simp add: t_def)
qed

interpretation isolation: request_steps "isolated k" k for k
proof
  fix s t assume "talks_to k s t"
  then show "isolated k s t" by (rule isolated_talk)
next
  fix s sc a p cc n d
  assume s: "proxy_inv s" "map_of (ps_serverObjects s) k = Some sc" "getClientConnection sc a = Some p"
    "map_of (ps_clientObjects s) p = Some cc"
  from tunnel_of_address [OF s(1-3)] registry_client_object [OF s(1,4)]
  show "isolated k s (addThroughput n (client_sendData (cc_transportClient cc) d s))"
    by (intro isolated_send(3) [OF s(1)]) (auto simp: concerns_def)
next
  fix s cc q sc n d
  assume s: "proxy_inv s" "map_of (ps_clientObjects s) k = Some cc" "cc_serverConnection cc = Some q"
    "map_of (ps_serverObjects s) q = Some sc"
  then have "tunnelOf s k = Some (sc_transportClient sc)"
    using proxy_inv_server(1) [OF s(1,4)] by (simp add: tunnelOf_def)
  then show "isolated k s (addThroughput n (client_sendData (sc_transportClient sc) d s))"
    by (intro isolated_send(3) [OF s(1)]) (simp add: concerns_def)
qed (rule isolated_trans, assumption, assumption, rule isolated_registerServer, assumption,
    rule isolated_registerClient, assumption, assumption, rule isolated_disconnectClient, assumption)

end
