(* ===== verification/RegistrySpec.thy ===== *)
theory RegistrySpec
  imports Requests
begin

text \<open>
  The abstract specification of the proxy: a registry of connections, servers and clients, with
  the server each client is tunnelled to. Each operation of the proxy that changes its registration
  state does to the registry what the specification says, and every event is a sequence of
  specified operations of the connection it comes from.
\<close>

section \<open>The specification\<close>

text \<open>
  \<open>tr_role\<close>: the connections and what each is registered as; \<open>tr_servers\<close>, \<open>tr_clients\<close>: the
  connection registered under a uuid; \<open>tr_tunnel\<close>: the server connection that a client connection
  is tunnelled to.
\<close>

record tunnel_registry =
  tr_role :: "uuid \<rightharpoonup> ClientType"
  tr_servers :: "uuid \<rightharpoonup> uuid"
  tr_clients :: "uuid \<rightharpoonup> uuid"
  tr_tunnel :: "uuid \<rightharpoonup> uuid"

definition emptyRegistry :: tunnel_registry where
  "emptyRegistry = \<lparr>tr_role = Map.empty, tr_servers = Map.empty, tr_clients = Map.empty, tr_tunnel = Map.empty\<rparr>"

datatype registry_op =
    OpConnect uuid
  | OpRegisterServer uuid uuid
  | OpRegisterClient uuid uuid uuid
  | OpDisconnect uuid

fun op_connection :: "registry_op \<Rightarrow> uuid" where
  "op_connection (OpConnect k) = k"
| "op_connection (OpRegisterServer k _) = k"
| "op_connection (OpRegisterClient k _ _) = k"
| "op_connection (OpDisconnect k) = k"

text \<open>A uuid is taken by one server or one client at most.\<close>

definition uuidFree :: "tunnel_registry \<Rightarrow> uuid \<Rightarrow> bool" where
  "uuidFree r u = (tr_servers r u = None \<and> tr_clients r u = None)"

fun registry_step :: "tunnel_registry \<Rightarrow> registry_op \<Rightarrow> tunnel_registry" where
  "registry_step r (OpConnect k) =
     (if tr_role r k = None then r\<lparr>tr_role := (tr_role r)(k \<mapsto> TypeNone)\<rparr> else r)"
| "registry_step r (OpRegisterServer k u) =
     (if tr_role r k = Some TypeNone \<and> uuidFree r u
      then r\<lparr>tr_role := (tr_role r)(k \<mapsto> TypeServer), tr_servers := (tr_servers r)(u \<mapsto> k)\<rparr>
      else r)"
| "registry_step r (OpRegisterClient k u v) =
     (if tr_role r k = Some TypeNone \<and> uuidFree r u
      then (case tr_servers r v of
              None \<Rightarrow> r
            | Some q \<Rightarrow> r\<lparr>tr_role := (tr_role r)(k \<mapsto> TypeClient), tr_clients := (tr_clients r)(u \<mapsto> k),
                           tr_tunnel := (tr_tunnel r)(k \<mapsto> q)\<rparr>)
      else r)"
| "registry_step r (OpDisconnect k) =
     \<lparr>tr_role = (tr_role r)(k := None),
      tr_servers = (\<lambda>u. if tr_servers r u = Some k then None else tr_servers r u),
      tr_clients = (\<lambda>u. if tr_clients r u = Some k then None else tr_clients r u),
      tr_tunnel = (\<lambda>p. if p = k \<or> tr_tunnel r p = Some k then None else tr_tunnel r p)\<rparr>"

section \<open>The abstraction\<close>

definition registry_of :: "proxy_server \<Rightarrow> tunnel_registry" where
  "registry_of s =
     \<lparr>tr_role = (\<lambda>k. map_option pc_type (map_of (ps_proxyClients s) k)),
      tr_servers = map_of (ps_serverConnections s),
      tr_clients = map_of (ps_clientConnections s),
      tr_tunnel = (\<lambda>p. Option.bind (map_of (ps_clientObjects s) p) cc_serverConnection)\<rparr>"

lemma registry_core: "core t = core s \<Longrightarrow> registry_of t = registry_of s"
proof -
  assume core: "core t = core s"
  have roles: "map_option pc_type (map_of (ps_proxyClients s') k) = map_option fst (clientCores s' k)" for s' k
    by (simp add: clientCores_def option.map_comp comp_def clientCore_def)
  show ?thesis
    using core_fields [OF core] by (simp add: registry_of_def roles)
qed

text \<open>Registries are compared part by part.\<close>

lemma registry_eqI:
  assumes "\<And>k. tr_role r k = tr_role r' k" "\<And>u. tr_servers r u = tr_servers r' u"
    "\<And>u. tr_clients r u = tr_clients r' u" "\<And>p. tr_tunnel r p = tr_tunnel r' p"
  shows "(r :: tunnel_registry) = r'"
  using assms by (intro tunnel_registry.equality ext) simp_all

lemma registry_simps [simp]:
  "tr_role (registry_of s) k = map_option pc_type (map_of (ps_proxyClients s) k)"
  "tr_servers (registry_of s) u = map_of (ps_serverConnections s) u"
  "tr_clients (registry_of s) u = map_of (ps_clientConnections s) u"
  "tr_tunnel (registry_of s) p = Option.bind (map_of (ps_clientObjects s) p) cc_serverConnection"
  by (simp_all add: registry_of_def)

lemma registry_start: "registry_of (newTunnelProxyServer c) = emptyRegistry"
  by (auto simp: registry_of_def emptyRegistry_def newTunnelProxyServer_def registerHandler_def clientCores_def)

lemma pc_type_become [simp]:
  "pc_type (enableSlipAfterResponse (activateClient (setName n (setUuid u (setType TypeServer c))))) = TypeServer"
  "pc_type (activateClient (setName n (setUuid u (setType TypeClient c)))) = TypeClient"
  by (simp_all add: activateClient_def setType_def transport_client_defs Let_def)

section \<open>Each operation\<close>

lemma registry_connect:
  assumes inv: "proxy_inv s"
  shows "registry_of (onClientConnected interface k address now s) =
    registry_step (registry_of s) (OpConnect k)"
proof (cases "map_of (ps_proxyClients s) k")
  case (Some c)
  then have "core (onClientConnected interface k address now s) = core s"
    by (simp add: onClientConnected_def qcontains_def core_emit)
  from registry_core [OF this] Some show ?thesis by simp
next
  case None
  let ?c = "newTunnelProxyClient (cfg_inactiveTimeout (ps_configuration s)) interface k address now"
  have "pc_type ?c = TypeNone"
    by (simp add: newTunnelProxyClient_def newTransportClient_def transport_client.defs)
  then show ?thesis
    using None
    by (intro registry_eqI) (simp_all add: onClientConnected_def rpc_registerClient_def qcontains_def)
qed

lemma registry_registerServer:
  assumes inv: "proxy_inv s"
  shows "registry_of (snd (registerServer k u name s)) = registry_step (registry_of s) (OpRegisterServer k u)"
proof (cases "\<exists>c. map_of (ps_proxyClients s) k = Some c \<and> pc_type c = TypeNone \<and>
    map_of (ps_serverConnections s) u = None \<and> map_of (ps_clientConnections s) u = None")
  case True
  then obtain c where c: "map_of (ps_proxyClients s) k = Some c" "pc_type c = TypeNone"
    "map_of (ps_serverConnections s) u = None" "map_of (ps_clientConnections s) u = None" by blast
  then show ?thesis
    by (intro registry_eqI) (simp_all add: registerServer_success [OF c] uuidFree_def)
next
  case False
  then have "core (snd (registerServer k u name s)) = core s"
    by (auto simp: registerServer_def qcontains_def core_killAfter split: option.splits)
  then have "registry_of (snd (registerServer k u name s)) = registry_of s" by (rule registry_core)
  moreover have "\<not> (tr_role (registry_of s) k = Some TypeNone \<and> uuidFree (registry_of s) u)"
    using False by (auto simp: uuidFree_def)
  ultimately show ?thesis
    by (auto simp del: registry_simps)
qed

lemma registry_registerClient:
  assumes inv: "proxy_inv s"
  shows "registry_of (snd (registerClient E k u name v s)) =
    registry_step (registry_of s) (OpRegisterClient k u v)"
proof (cases "\<exists>c q sc. map_of (ps_proxyClients s) k = Some c \<and> pc_type c = TypeNone \<and>
    map_of (ps_clientConnections s) u = None \<and> map_of (ps_serverConnections s) u = None \<and>
    serverConnectionOf s v = Some (q, sc)")
  case True
  then obtain c q sc where c: "map_of (ps_proxyClients s) k = Some c" "pc_type c = TypeNone"
    "map_of (ps_clientConnections s) u = None" "map_of (ps_serverConnections s) u = None"
    "serverConnectionOf s v = Some (q, sc)" by blast
  obtain sc' cc' where j: "joinedObjects q sc k u name = (sc', cc')" by fastforce
  note J = joinedObjects_simps [OF j]
  have "map_of (ps_serverConnections s) v = Some q" using c(5) by (simp add: serverConnectionOf_Some)
  then show ?thesis
    unfolding registerClient_success [OF c j] snd_conv registry_core [OF core_sendNotification]
    using c J(4) by (intro registry_eqI) (simp_all add: uuidFree_def)
next
  case False
  then have "core (snd (registerClient E k u name v s)) = core s"
    by (intro registerClient_failure(1))
      (cases "map_of (ps_proxyClients s) k"; cases "serverConnectionOf s v"; auto)
  then have "registry_of (snd (registerClient E k u name v s)) = registry_of s" by (rule registry_core)
  moreover have "tr_role (registry_of s) k = Some TypeNone \<and> uuidFree (registry_of s) u \<longrightarrow>
      tr_servers (registry_of s) v = None"
  proof (intro impI)
    assume *: "tr_role (registry_of s) k = Some TypeNone \<and> uuidFree (registry_of s) u"
    show "tr_servers (registry_of s) v = None"
    proof (rule ccontr)
      assume "tr_servers (registry_of s) v \<noteq> None"
      then obtain q where q: "map_of (ps_serverConnections s) v = Some q" by auto
      then obtain sc where "map_of (ps_serverObjects s) q = Some sc"
        using objectsOk_D(3) [OF registry_inv_D(4) [OF proxy_inv_registry [OF inv]]] by blast
      with q * False show False
        by (auto simp: uuidFree_def serverConnectionOf_def)
    qed
  qed
  ultimately show ?thesis
    by (auto simp del: registry_simps)
qed

text \<open>A uuid leads back to the connection it was registered for.\<close>

lemma registry_role:
  assumes "map_option role (clientCores s p) = Some (t, u)"
  shows "\<exists>c. map_of (ps_proxyClients s) p = Some c \<and> pc_type c = t \<and> tc_uuid c = u"
  using assms by (cases "map_of (ps_proxyClients s) p") (auto simp: clientCores_def clientCore_def)

lemma registry_uuid:
  assumes "proxy_inv s" "map_of (ps_proxyClients s) k = Some c"
  shows "map_of (ps_serverConnections s) u = Some k \<longleftrightarrow> pc_type c = TypeServer \<and> u = tc_uuid c"
    "map_of (ps_clientConnections s) u = Some k \<longleftrightarrow> pc_type c = TypeClient \<and> u = tc_uuid c"
proof -
  note D = registry_inv_D(2,3) [OF proxy_inv_registry [OF assms(1)]]
  have "map_option role (clientCores s k) = Some (pc_type c, tc_uuid c)"
    using assms(2) by (simp add: clientCores_def clientCore_def)
  then show "map_of (ps_serverConnections s) u = Some k \<longleftrightarrow> pc_type c = TypeServer \<and> u = tc_uuid c"
    "map_of (ps_clientConnections s) u = Some k \<longleftrightarrow> pc_type c = TypeClient \<and> u = tc_uuid c"
    unfolding roleOk_D [OF D(1)] roleOk_D [OF D(2)] by auto
qed

lemma registry_object:
  assumes "proxy_inv s" "map_of (ps_clientObjects s) p = Some cc"
  shows "\<exists>c. map_of (ps_proxyClients s) p = Some c \<and> pc_type c = TypeClient \<and> tc_uuid c = cc_clientUuid cc"
proof -
  note D = registry_inv_D [OF proxy_inv_registry [OF assms(1)]]
  have "map_of (ps_clientConnections s) (cc_clientUuid cc) = Some p"
    by (rule objectsOk_D(2) [OF D(5) assms(2)])
  then show ?thesis
    by (intro registry_role) (simp only: roleOk_D [OF D(3)])
qed

lemma registry_link:
  assumes "proxy_inv s" "map_of (ps_clientObjects s) p = Some cc" "cc_serverConnection cc = Some q"
  shows "\<exists>c. map_of (ps_proxyClients s) q = Some c \<and> pc_type c = TypeServer"
proof -
  note D = registry_inv_D [OF proxy_inv_registry [OF assms(1)]]
  obtain sc where "map_of (ps_serverObjects s) q = Some sc"
    using linksOk_D(1) [OF D(8) assms(2,3)] by blast
  then have "map_of (ps_serverConnections s) (sc_serverUuid sc) = Some q"
    by (rule proxy_inv_server(2) [OF assms(1)])
  then have "map_option role (clientCores s q) = Some (TypeServer, sc_serverUuid sc)"
    by (simp only: roleOk_D [OF D(2)])
  from registry_role [OF this] show ?thesis by blast
qed

lemma registry_disconnect_server:
  assumes inv: "proxy_inv s" and c: "map_of (ps_proxyClients s) k = Some c" "pc_type c = TypeServer"
  shows "registry_of (disconnectServerConnection c (forgotten k s)) = registry_step (registry_of s) (OpDisconnect k)"
proof -
  note T = disconnectServerConnection_effect [OF inv c refl]
  show ?thesis
  proof (rule registry_eqI)
    fix u
    show "tr_servers (registry_of (disconnectServerConnection c (forgotten k s))) u =
        tr_servers (registry_step (registry_of s) (OpDisconnect k)) u"
      using registry_uuid(1) [OF inv c(1), of u] c(2) by (simp add: T(2))
    show "tr_clients (registry_of (disconnectServerConnection c (forgotten k s))) u =
        tr_clients (registry_step (registry_of s) (OpDisconnect k)) u"
      using registry_uuid(2) [OF inv c(1), of u] c(2) by (simp add: T(3))
  next
    fix p
    show "tr_tunnel (registry_of (disconnectServerConnection c (forgotten k s))) p =
        tr_tunnel (registry_step (registry_of s) (OpDisconnect k)) p"
    proof (cases "map_of (ps_clientObjects s) p")
      case (Some cc)
      then have "p \<noteq> k" using registry_object [OF inv Some] c by auto
      with Some show ?thesis
        by (cases "cc_serverConnection cc = Some k") (simp_all add: T(6) unlink_def connection_defs)
    qed (simp add: T(6))
  qed (simp add: T(1))
qed

lemma registry_disconnect_client:
  assumes inv: "proxy_inv s" and c: "map_of (ps_proxyClients s) k = Some c" "pc_type c = TypeClient"
  shows "registry_of (disconnectClientConnection E c (forgotten k s)) = registry_step (registry_of s) (OpDisconnect k)"
proof -
  define t where "t = disconnectClientConnection E c (forgotten k s)"
  obtain cc where cc: "map_of (ps_clientObjects s) k = Some cc"
    using client_object(2) [OF inv c] by blast
  have roles: "map_option pc_type (map_of (ps_proxyClients t) p) =
        (if p = k then None else map_option pc_type (map_of (ps_proxyClients s) p))"
      and maps: "ps_serverConnections t = ps_serverConnections s"
        "map_of (ps_clientConnections t) = (map_of (ps_clientConnections s))(tc_uuid c := None)"
        "map_of (ps_clientObjects t) p = (if p = k then None else map_of (ps_clientObjects s) p)" for p
  proof -
    let ?goal = "map_option pc_type (map_of (ps_proxyClients t) p) =
        (if p = k then None else map_option pc_type (map_of (ps_proxyClients s) p)) \<and>
      ps_serverConnections t = ps_serverConnections s \<and>
      map_of (ps_clientConnections t) = (map_of (ps_clientConnections s))(tc_uuid c := None) \<and>
      map_of (ps_clientObjects t) p = (if p = k then None else map_of (ps_clientObjects s) p)"
    have ?goal
    proof (cases "cc_serverConnection cc")
      case None
      then show ?thesis
        by (simp add: t_def disconnectClientConnection_alone [OF inv c cc None])
    next
      case (Some q)
      obtain sc where sc: "map_of (ps_serverObjects s) q = Some sc"
        using linksOk_D(1) [OF registry_inv_D(8) [OF proxy_inv_registry [OF inv]] cc Some] by blast
      let ?n = "sendNotification E ''TunnelProxy'' ''ClientDisconnected''
               [(''socketAddress'', VUInt (uint (cc_socketAddress cc)))] q (leaveServer k c cc q sc s)"
      have core: "core ?n = core (leaveServer k c cc q sc s)" by (rule core_sendNotification)
      have "tr_role (registry_of ?n) p = tr_role (registry_of (leaveServer k c cc q sc s)) p"
        using registry_core [OF core] by simp
      then show ?thesis
        using core_fields [OF core]
        by (simp add: t_def disconnectClientConnection_linked [OF inv c cc Some sc] Let_def leaveServer_def)
    qed
    then show "map_option pc_type (map_of (ps_proxyClients t) p) =
        (if p = k then None else map_option pc_type (map_of (ps_proxyClients s) p))"
      "ps_serverConnections t = ps_serverConnections s"
      "map_of (ps_clientConnections t) = (map_of (ps_clientConnections s))(tc_uuid c := None)"
      "map_of (ps_clientObjects t) p = (if p = k then None else map_of (ps_clientObjects s) p)" by simp_all
  qed
  show ?thesis
    unfolding t_def [symmetric]
  proof (rule registry_eqI)
    fix u
    show "tr_servers (registry_of t) u = tr_servers (registry_step (registry_of s) (OpDisconnect k)) u"
      using registry_uuid(1) [OF inv c(1), of u] c(2) by (simp add: maps)
    show "tr_clients (registry_of t) u = tr_clients (registry_step (registry_of s) (OpDisconnect k)) u"
      using registry_uuid(2) [OF inv c(1), of u] c(2) by (simp add: maps)
  next
    fix p
    have "Option.bind (map_of (ps_clientObjects s) p) cc_serverConnection \<noteq> Some k"
    proof
      assume "Option.bind (map_of (ps_clientObjects s) p) cc_serverConnection = Some k"
      then obtain x where "map_of (ps_clientObjects s) p = Some x" "cc_serverConnection x = Some k"
        by (auto simp: bind_eq_Some_conv)
      from registry_link [OF inv this] c show False by simp
    qed
    then show "tr_tunnel (registry_of t) p = tr_tunnel (registry_step (registry_of s) (OpDisconnect k)) p"
      by (simp add: maps)
  qed (simp add: roles)
qed

lemma registry_unregister [simp]: "registry_of (rpc_unregisterClient k s) = registry_of s"
  by (rule registry_eqI) simp_all

lemma registry_disconnect:
  assumes inv: "proxy_inv s" and c: "map_of (ps_proxyClients s) k = Some c"
  shows "registry_of (onClientDisconnected E k s) = registry_step (registry_of s) (OpDisconnect k)"
proof (cases "pc_type c")
  case TypeServer
  then show ?thesis
    using c by (simp add: onClientDisconnected_def Let_def registry_disconnect_server [OF inv c TypeServer])
next
  case TypeClient
  then show ?thesis
    using c by (simp add: onClientDisconnected_def Let_def registry_disconnect_client [OF inv c TypeClient])
next
  case TypeNone
  then have eq: "onClientDisconnected E k s = rpc_unregisterClient k (forgotten k s)"
    using c by (simp add: onClientDisconnected_def Let_def)
  have none: "map_of (ps_clientObjects s) p = Some x \<Longrightarrow> p \<noteq> k \<and> cc_serverConnection x \<noteq> Some k" for p x
    using registry_object [OF inv, of p x] registry_link [OF inv, of p x k] c TypeNone by auto
  show ?thesis
    unfolding eq registry_unregister
  proof (rule registry_eqI)
    fix p
    show "tr_tunnel (registry_of (forgotten k s)) p = tr_tunnel (registry_step (registry_of s) (OpDisconnect k)) p"
      using none [of p] by (cases "map_of (ps_clientObjects s) p") auto
  qed (use registry_uuid [OF inv c] TypeNone in simp_all)
qed

section \<open>Every event\<close>

text \<open>The abstract state only changes by operations of the connection.\<close>

definition simulated :: "uuid \<Rightarrow> proxy_server \<Rightarrow> proxy_server \<Rightarrow> bool" where
  "simulated k s t =
     (\<exists>ops. (\<forall>op \<in> set ops. op_connection op = k) \<and>
        registry_of t = foldl registry_step (registry_of s) ops)"

lemma simulated_core:
  assumes "core t = core s"
  shows "simulated k s t"
  unfolding simulated_def by (rule exI [of _ "[]"]) (simp add: registry_core [OF assms])

lemma simulated_op: "registry_of t = registry_step (registry_of s) op \<Longrightarrow> op_connection op = k \<Longrightarrow> simulated k s t"
  unfolding simulated_def by (rule exI [of _ "[op]"]) simp

lemma simulated_trans:
  assumes "simulated k s t" "simulated k t u"
  shows "simulated k s u"
proof -
  obtain ops ops' where "\<forall>op \<in> set ops. op_connection op = k" "registry_of t = foldl registry_step (registry_of s) ops"
    "\<forall>op \<in> set ops'. op_connection op = k" "registry_of u = foldl registry_step (registry_of t) ops'"
    using assms unfolding simulated_def by blast
  then show ?thesis
    unfolding simulated_def by (intro exI [of _ "ops @ ops'"]) auto
qed

interpretation simulation: request_relation "simulated k" k for k
proof
  fix s :: proxy_server and u name E v
  assume "proxy_inv s"
  then show "simulated k s (snd (registerServer k u name s))"
    "simulated k s (snd (registerClient E k u name v s))"
    by (rule simulated_op [OF registry_registerServer], simp,
        rule simulated_op [OF registry_registerClient], simp)
qed (fact simulated_core, fact simulated_trans)

text \<open>The connection an event comes from; timers of replies and the tick belong to none.\<close>

fun event_connection :: "proxy_event \<Rightarrow> uuid" where
  "event_connection (ClientConnected _ k _ _) = k"
| "event_connection (ClientDisconnected k) = k"
| "event_connection (DataAvailable k _) = k"
| "event_connection (InactiveTimeout k) = k"
| "event_connection _ = nullUuid"

lemma simulated_step:
  assumes inv: "proxy_inv s"
  shows "simulated (event_connection e) s (proxy_step E s e)"
proof (cases e)
  case (ClientConnected interface k address now)
  then show ?thesis using simulated_op [OF registry_connect [OF inv]] by simp
next
  case (ClientDisconnected k)
  show ?thesis
  proof (cases "map_of (ps_proxyClients s) k")
    case None
    with ClientDisconnected show ?thesis by (simp add: onClientDisconnected_def simulated_core)
  next
    case (Some c)
    with ClientDisconnected simulated_op [OF registry_disconnect [OF inv Some]] show ?thesis by simp
  qed
next
  case (DataAvailable k data)
  then show ?thesis using simulation.data [OF inv] by simp
next
  case (InactiveTimeout k)
  then show ?thesis using simulated_core [OF core_onInactiveTimeout] by simp
next
  case (ReplyFinished p)
  then show ?thesis using simulated_core [OF core_asyncReplyFinished] by simp
next
  case (ReplyTimeout p)
  have "core (asyncReplyTimeout E p s) = core s" by (simp add: asyncReplyTimeout_def core_simps)
  from simulated_core [OF this] ReplyTimeout show ?thesis by simp
next
  case Tick
  have "core (tick s) = core s" by (simp add: tick_def core_def)
  from simulated_core [OF this] Tick show ?thesis by simp
qed

end
