(* ===== verification/Demo.thy ===== *)
theory Demo
  imports ProxyData
begin

text \<open>
  A concrete environment and a proxy with one server and one client in it, on which the properties
  of the proxy are tried. Instead of JSON texts this environment reads the short messages
  \<open>{n}\<close>: \<open>{1}\<close> registers a server, \<open>{2}\<close> registers a client with it, \<open>{3}\<close> asks
  for the disconnection of the first client, \<open>{4}\<close> calls a method that does not exist; it
  writes \<open>{}\<close> for every message.
\<close>

definition demo_request :: "string \<Rightarrow> vmap \<Rightarrow> variant" where
  "demo_request method params =
     VMap [(''id'', VInt 7), (''method'', VString method), (''params'', VMap params)]"

definition demo_fromJson :: "bytes \<Rightarrow> string + variant" where
  "demo_fromJson d =
     (if d = [123, 1, 125] then
        Inr (demo_request ''TunnelProxy.RegisterServer''
          [(''serverName'', VString ''nymea''), (''serverUuid'', VUuid 100)])
      else if d = [123, 2, 125] then
        Inr (demo_request ''TunnelProxy.RegisterClient''
          [(''clientName'', VString ''app''), (''clientUuid'', VUuid 200), (''serverUuid'', VUuid 100)])
      else if d = [123, 3, 125] then
        Inr (demo_request ''TunnelProxy.DisconnectClient'' [(''socketAddress'', VUInt 1)])
      else if d = [123, 4, 125] then Inr (demo_request ''TunnelProxy.Unknown'' [])
      else Inl ''illegal value'')"

definition demo_env :: env where
  "demo_env =
     \<lparr>env_fromJson = demo_fromJson, env_toJson = (\<lambda>_. [123, 125]), env_toJsonText = (\<lambda>_. ''{}''),
      env_toInt = (\<lambda>_. None), env_toUInt = (\<lambda>_. 0), env_toBool = (\<lambda>_. False),
      env_toString = (\<lambda>_. ''''), env_uuidOfString = (\<lambda>_. nullUuid), env_uuidToString = (\<lambda>_. ''''),
      env_canConvert = (\<lambda>t v. vtype_of v = t), env_convert = (\<lambda>t v. vtype_of v = t),
      env_SERVER_NAME_STRING = ''nymea-remoteproxy'', env_SERVER_VERSION_STRING = ''1.0'',
      env_API_VERSION_STRING = ''0.1''\<rparr>"

definition demo_connect :: "proxy_event list" where
  "demo_connect =
     [ClientConnected TransportTcp 10 ''10.0.0.1'' 0, ClientConnected TransportTcp 11 ''10.0.0.2'' 0]"

definition demo_server :: "proxy_event list" where
  "demo_server = demo_connect @ [DataAvailable 10 [123, 1, 125]]"

definition demo_tunnel :: "proxy_event list" where
  "demo_tunnel = demo_server @ [DataAvailable 11 [123, 2, 125]]"

abbreviation demo :: "proxy_event list \<Rightarrow> proxy_server" where
  "demo es \<equiv> run_events (proxy_step demo_env) (newTunnelProxyServer defaultConfiguration) es"

end
