(* ===== verification/TunnelProxy.thy ===== *)
theory TunnelProxy
  imports Isolation RegistrySpec Demo
begin

text \<open>
  What the proxy promises, in every state it can reach from its start by the events of its
  transports and timers (\<open>proxy_run\<close>). The witnesses use the runs of \<open>Demo\<close>: a server on
  connection 10 and a client on connection 11.
\<close>

abbreviation proxy_run :: "env \<Rightarrow> proxy_configuration \<Rightarrow> proxy_event list \<Rightarrow> proxy_server" where
  "proxy_run E cfg es \<equiv> run_events (proxy_step E) (newTunnelProxyServer cfg) es"

lemmas run_inv = proxy_machine.run_inv

section \<open>The example runs\<close>

text \<open>What the witnesses need to know about the example: evaluated once.\<close>

definition demo_view where
  "demo_view s =
     (map_of (ps_clientObjects s) 11, map_of (ps_serverObjects s) 10,
      map_option (\<lambda>c. (pc_type c, tc_uuid c, tc_slipEnabled c, tc_dataBuffer c)) (map_of (ps_proxyClients s) 10),
      interfaceOf s 10, interfaceOf s 11, ps_serverConnections s)"

lemma demo_tunnel_view:
  "demo_view (demo demo_tunnel) =
     (Some \<lparr>cc_transportClient = 11, cc_serverConnection = Some 10, cc_clientUuid = 200,
        cc_clientName = ''app'', cc_serverUuid = 100, cc_socketAddress = 1\<rparr>,
      Some \<lparr>sc_transportClient = 10, sc_serverUuid = 100, sc_serverName = ''nymea'', sc_connectionLimit = 100,
        sc_currentAddressCounter = 1, sc_clientConnections = [(200, 11)],
        sc_clientConnectionsAddresses = [(1, 11)], sc_lastPingTimestamp = 0\<rparr>,
      Some (TypeServer, 100, True, []), Some TransportTcp, Some TransportTcp, [(100, 10)])"
  by code_simp

lemma demo_tunnel_facts:
  "map_of (ps_clientObjects (demo demo_tunnel)) 11 = Some
     \<lparr>cc_transportClient = 11, cc_serverConnection = Some 10, cc_clientUuid = 200,
        cc_clientName = ''app'', cc_serverUuid = 100, cc_socketAddress = 1\<rparr>"
  "map_of (ps_serverObjects (demo demo_tunnel)) 10 = Some
     \<lparr>sc_transportClient = 10, sc_serverUuid = 100, sc_serverName = ''nymea'', sc_connectionLimit = 100,
        sc_currentAddressCounter = 1, sc_clientConnections = [(200, 11)],
        sc_clientConnectionsAddresses = [(1, 11)], sc_lastPingTimestamp = 0\<rparr>"
  "map_option (\<lambda>c. (pc_type c, tc_uuid c, tc_slipEnabled c, tc_dataBuffer c))
     (map_of (ps_proxyClients (demo demo_tunnel)) 10) = Some (TypeServer, 100, True, [])"
  "interfaceOf (demo demo_tunnel) 10 = Some TransportTcp"
  "interfaceOf (demo demo_tunnel) 11 = Some TransportTcp"
  "ps_serverConnections (demo demo_tunnel) = [(100, 10)]"
  using demo_tunnel_view unfolding demo_view_def prod.inject by blast+

section \<open>Consistency\<close>

text \<open>C3: After any sequence of events the tables of the proxy fit together: every client is stored
  under its id, the JSON server knows exactly the connected clients, a registered uuid leads to its
  connection and back and is taken once, a client knows its server exactly when the server lists the
  client, an address of a server leads to the client that has it, and SLIP is for servers only.\<close>

theorem proxy_always_consistent: "proxy_inv (proxy_run E cfg es)"
  by (rule run_inv)

text \<open>C4: The proxy implements the abstract registry: whatever an event does to the registration
  state is a sequence of specified operations (connect, register a server, register a client,
  disconnect) of the connection the event comes from, and of no other.\<close>

theorem proxy_refines_registry:
  "\<exists>ops. (\<forall>op \<in> set ops. op_connection op = event_connection e) \<and>
     registry_of (proxy_step E (proxy_run E cfg es) e) =
       foldl registry_step (registry_of (proxy_run E cfg es)) ops"
  using simulated_step [OF run_inv, of e] unfolding simulated_def .

theorem proxy_refines_registry_witness:
  "\<exists>ops. (\<forall>op \<in> set ops. op_connection op = 11) \<and>
     registry_of (proxy_step demo_env (demo demo_server) (DataAvailable 11 [123, 2, 125])) =
       foldl registry_step (registry_of (demo demo_server)) ops"
  using proxy_refines_registry [of "DataAvailable 11 [123, 2, 125]" demo_env defaultConfiguration demo_server]
  by simp

text \<open>C11: Each operation of the proxy does to the abstract registry what the specification says,
  refusals included: a connection with a known id, a second registration, a uuid that is taken and
  an unknown server leave it as it is; a server that goes ends the tunnels of its clients.\<close>

theorem operations_refine_registry:
  assumes "map_of (ps_proxyClients (proxy_run E cfg es)) k' = Some c"
  shows "registry_of (onClientConnected interface k address now (proxy_run E cfg es)) =
      registry_step (registry_of (proxy_run E cfg es)) (OpConnect k) \<and>
    registry_of (snd (registerServer k u name (proxy_run E cfg es))) =
      registry_step (registry_of (proxy_run E cfg es)) (OpRegisterServer k u) \<and>
    registry_of (snd (registerClient E k u name v (proxy_run E cfg es))) =
      registry_step (registry_of (proxy_run E cfg es)) (OpRegisterClient k u v) \<and>
    registry_of (onClientDisconnected E k' (proxy_run E cfg es)) =
      registry_step (registry_of (proxy_run E cfg es)) (OpDisconnect k')"
  by (intro conjI, rule registry_connect [OF run_inv], rule registry_registerServer [OF run_inv],
      rule registry_registerClient [OF run_inv], rule registry_disconnect [OF run_inv assms])

theorem operations_refine_registry_witness:
  "registry_of (onClientConnected TransportTcp 12 ''10.0.0.3'' 0 (demo demo_tunnel)) =
     registry_step (registry_of (demo demo_tunnel)) (OpConnect 12) \<and>
   registry_of (onClientDisconnected demo_env 10 (demo demo_tunnel)) =
     registry_step (registry_of (demo demo_tunnel)) (OpDisconnect 10)"
proof -
  obtain c where "map_of (ps_proxyClients (demo demo_tunnel)) 10 = Some c"
    using demo_tunnel_facts(3) by auto
  from operations_refine_registry [OF this, of TransportTcp 12 "''10.0.0.3''" 0] show ?thesis by blast
qed

section \<open>Who hears of what\<close>

text \<open>Isolation: whatever a chunk of data makes the proxy send or close concerns the connection
  the data came from, the server it is tunnelled to, or a client that is tunnelled to it. No other
  connection ever hears of it, whatever the data is, and no tunnel of another connection ends.\<close>

theorem data_isolation:
  "\<exists>es'. ps_effects (proxy_step E (proxy_run E cfg es) (DataAvailable k data)) =
      ps_effects (proxy_run E cfg es) @ es' \<and>
    (\<forall>x \<in> set es'. concerns k (proxy_step E (proxy_run E cfg es) (DataAvailable k data)) (effect_target x))"
proof -
  have "isolated k (proxy_run E cfg es) (onClientDataAvailable E k data (proxy_run E cfg es))"
    by (rule isolation.data [OF run_inv])
  then show ?thesis unfolding isolated_def proxy_step.simps by blast
qed

theorem data_isolation_witness:
  "\<exists>es'. ps_effects (proxy_step demo_env (demo demo_tunnel) (DataAvailable 11 [1, 2])) =
      ps_effects (demo demo_tunnel) @ es' \<and>
    (\<forall>x \<in> set es'. concerns 11 (proxy_step demo_env (demo demo_tunnel) (DataAvailable 11 [1, 2])) (effect_target x))"
  by (rule data_isolation)

text \<open>Whatever the bytes a registered client sends, the proxy sends exactly one packet: to the
  server of this client, the SLIP encoded frame with the client's address and these bytes.\<close>

theorem client_data_reaches_server:
  assumes "map_of (ps_clientObjects (proxy_run E cfg es)) k = Some cc" "cc_serverConnection cc = Some q"
  shows "ps_effects (proxy_step E (proxy_run E cfg es) (DataAvailable k data)) =
    ps_effects (proxy_run E cfg es) @
      [SendData (the (interfaceOf (proxy_run E cfg es) q)) q
        (serializeData (buildFrame \<lparr>fr_socketAddress = cc_socketAddress cc, fr_data = data\<rparr>))]"
proof -
  obtain c where "map_of (ps_proxyClients (proxy_run E cfg es)) k = Some c" "pc_type c = TypeClient"
    using registry_client_object [OF run_inv assms(1)] by blast
  from client_data_effects [OF run_inv this assms(1)] assms(2) show ?thesis by simp
qed

theorem client_data_reaches_server_witness:
  "ps_effects (proxy_step demo_env (demo demo_tunnel) (DataAvailable 11 [0xC0, 5])) =
     ps_effects (demo demo_tunnel) @ [SendData TransportTcp 10 [0, 1, 0xDB, 0xDC, 5, 0xC0]]"
  using client_data_reaches_server [OF demo_tunnel_facts(1), of 10 "[0xC0, 5]"] demo_tunnel_facts(4)
  by (simp add: serializeData_def serialize_byte_def buildFrame_def stream_write_u16_def protocol_bytes)

end
