(* ===== verification/Delivery.thy ===== *)
theory Delivery
  imports TunnelProxy
begin

text \<open>
  From a server to its clients. A frame is delivered the way it came over the wire: the proxy checks
  that it can be decoded, but reads address and payload from the bytes that are still escaped.
\<close>

section \<open>One frame\<close>

text \<open>The frame the proxy reads from what a server sent for the frame \<open>f\<close>.\<close>

definition wireFrame :: "Frame \<Rightarrow> Frame" where
  "wireFrame f = parseFrame (serialize_loop (buildFrame f))"

text \<open>Without END and ESC bytes the frame arrives as it was sent.\<close>

definition escapeFree :: "Frame \<Rightarrow> bool" where
  "escapeFree f = (ProtocolByteEnd \<notin> set (buildFrame f) \<and> ProtocolByteEsc \<notin> set (buildFrame f))"

lemma wireFrame_plain: "escapeFree f \<Longrightarrow> wireFrame f = f"
  by (simp add: escapeFree_def wireFrame_def serialize_loop_plain parse_build)

lemma server_chunk_effects:
  assumes inv: "proxy_inv s" and sc: "map_of (ps_serverObjects s) q = Some sc"
    and c: "map_of (ps_proxyClients s) q = Some c" "tc_slipEnabled c" "tc_dataBuffer c = []"
    and a: "fr_socketAddress (wireFrame f) \<noteq> 0"
  shows "ps_effects (onClientDataAvailable E q (serializeData (buildFrame f)) s) =
    (case getClientConnection sc (fr_socketAddress (wireFrame f)) of
       None \<Rightarrow> ps_effects s
     | Some p \<Rightarrow> ps_effects s @ [SendData (the (interfaceOf s p)) p (fr_data (wireFrame f))])"
proof -
  let ?d = "serializeData (buildFrame f)"
  let ?c = "client_addRxDataCount (int (length ?d)) c"
  let ?s = "updClient q (\<lambda>_. ?c) s"
  let ?c' = "?c\<lparr>tc_dataBuffer := []\<rparr>"
  let ?t = "updClient q (\<lambda>_. ?c') ?s"
  have server: "pc_type c = TypeServer"
    using registry_server_object [OF inv sc] c(1) by auto
  have data: "processData ?d ?c = ([serialize_loop (buildFrame f)], ?c')"
    using c by (simp add: processData_def slip_loop_packet)
  have s: "proxy_inv ?s" "map_of (ps_proxyClients ?s) q = Some ?c"
    using proxy_inv_updClient [OF inv c(1) clientCore_addRx] c(1) by simp_all
  have "clientCore ?c' = clientCore ?c"
    by (simp add: clientCore_def)
  then have t: "proxy_inv ?t"
    by (rule proxy_inv_updClient [OF s])
  have step: "onClientDataAvailable E q ?d s = processFrame E q (tc_uuid ?c') (serialize_loop (buildFrame f)) ?t"
    using c server data by (simp add: onClientDataAvailable_def Let_def)
  have "interfaceOf ?t p = interfaceOf s p" for p
    using c(1) by (simp add: interfaceOf_def)
  then show ?thesis
    unfolding step
    using server_frame_effects [OF t, of q ?c' sc "serialize_loop (buildFrame f)" "fr_socketAddress (wireFrame f)"
        "fr_data (wireFrame f)" E] c server sc a
    by (simp add: wireFrame_def split: option.split)
qed

section \<open>What arrives\<close>

text \<open>A frame of a registered server is delivered, as the proxy reads it, to the client of this
  server that has the address, and to nobody when there is none.\<close>

theorem server_frame_is_routed:
  assumes "map_of (ps_serverObjects (proxy_run E cfg es)) q = Some sc"
    and "map_of (ps_proxyClients (proxy_run E cfg es)) q = Some c" "tc_slipEnabled c" "tc_dataBuffer c = []"
    and "fr_socketAddress (wireFrame f) \<noteq> 0"
  shows "ps_effects (proxy_step E (proxy_run E cfg es) (DataAvailable q (serializeData (buildFrame f)))) =
    (case getClientConnection sc (fr_socketAddress (wireFrame f)) of
       None \<Rightarrow> ps_effects (proxy_run E cfg es)
     | Some p \<Rightarrow> ps_effects (proxy_run E cfg es) @
         [SendData (the (interfaceOf (proxy_run E cfg es) p)) p (fr_data (wireFrame f))])"
  using server_chunk_effects [OF run_inv assms] by simp

lemma demo_server_client:
  "\<exists>c. map_of (ps_proxyClients (demo demo_tunnel)) 10 = Some c \<and> tc_slipEnabled c \<and> tc_dataBuffer c = []"
  using demo_tunnel_facts(3) by auto

theorem server_frame_is_routed_witness:
  "ps_effects (proxy_step demo_env (demo demo_tunnel)
      (DataAvailable 10 (serializeData (buildFrame \<lparr>fr_socketAddress = 1, fr_data = [7, 8]\<rparr>)))) =
     ps_effects (demo demo_tunnel) @ [SendData TransportTcp 11 [7, 8]] \<and>
   ps_effects (proxy_step demo_env (demo demo_tunnel)
      (DataAvailable 10 (serializeData (buildFrame \<lparr>fr_socketAddress = 2, fr_data = [7, 8]\<rparr>)))) =
     ps_effects (demo demo_tunnel)"
proof -
  obtain c where c: "map_of (ps_proxyClients (demo demo_tunnel)) 10 = Some c" "tc_slipEnabled c" "tc_dataBuffer c = []"
    using demo_server_client by blast
  have "wireFrame \<lparr>fr_socketAddress = 1, fr_data = [7, 8]\<rparr> = \<lparr>fr_socketAddress = 1, fr_data = [7, 8]\<rparr>"
    "wireFrame \<lparr>fr_socketAddress = 2, fr_data = [7, 8]\<rparr> = \<lparr>fr_socketAddress = 2, fr_data = [7, 8]\<rparr>"
    by code_simp+
  then show ?thesis
    using server_frame_is_routed [OF demo_tunnel_facts(2) c, of "\<lparr>fr_socketAddress = 1, fr_data = [7, 8]\<rparr>"]
      server_frame_is_routed [OF demo_tunnel_facts(2) c, of "\<lparr>fr_socketAddress = 2, fr_data = [7, 8]\<rparr>"]
      demo_tunnel_facts(5)
    by (simp add: getClientConnection_def)
qed

text \<open>A payload byte that SLIP escapes does not arrive: for the payload \<open>C0\<close> the client receives
  the two bytes \<open>DB DC\<close>, because the proxy takes the frame from the buffer it decoded and not from
  the decoded packet.\<close>

theorem escaped_payload_is_corrupted:
  "ps_effects (proxy_step demo_env (demo demo_tunnel)
      (DataAvailable 10 (serializeData (buildFrame \<lparr>fr_socketAddress = 1, fr_data = [ProtocolByteEnd]\<rparr>)))) =
    ps_effects (demo demo_tunnel) @ [SendData TransportTcp 11 [ProtocolByteEsc, ProtocolByteTransposedEnd]]"
proof -
  obtain c where c: "map_of (ps_proxyClients (demo demo_tunnel)) 10 = Some c" "tc_slipEnabled c" "tc_dataBuffer c = []"
    using demo_server_client by blast
  have w: "wireFrame \<lparr>fr_socketAddress = 1, fr_data = [ProtocolByteEnd]\<rparr> =
      \<lparr>fr_socketAddress = 1, fr_data = [ProtocolByteEsc, ProtocolByteTransposedEnd]\<rparr>"
    by code_simp
  show ?thesis
    using server_chunk_effects [OF run_inv demo_tunnel_facts(2) c, of "\<lparr>fr_socketAddress = 1, fr_data = [ProtocolByteEnd]\<rparr>"]
      demo_tunnel_facts(5)
    by (simp add: w getClientConnection_def)
qed

text \<open>A frame for the client with address 192 (\<open>00 C0\<close>) is delivered to the client of the same
  server that has address 219 (\<open>00 DB\<close>), with the byte \<open>DC\<close> before the payload, whatever the
  payload is.\<close>

theorem escaped_address_is_misrouted:
  "wireFrame \<lparr>fr_socketAddress = 0xC0, fr_data = payload\<rparr> =
     \<lparr>fr_socketAddress = 0xDB, fr_data = ProtocolByteTransposedEnd # serialize_loop payload\<rparr>"
  by (simp add: wireFrame_def buildFrame_def stream_write_u16_def serialize_byte_def parseFrame_def protocol_bytes)

section \<open>A malformed packet\<close>

definition buffered :: "proxy_server \<Rightarrow> uuid \<Rightarrow> bytes \<Rightarrow> bool" where
  "buffered s q buffer =
     (\<exists>c. map_of (ps_proxyClients s) q = Some c \<and> pc_type c = TypeServer \<and> tc_slipEnabled c \<and> tc_dataBuffer c = buffer)"

lemma stuck_chunk:
  assumes bad: "deserialize_loop False [] bad = None" and s: "buffered s q (bad @ junk)"
  shows "ps_effects (onClientDataAvailable E q data s) = ps_effects s"
    and "buffered (onClientDataAvailable E q data s) q (bad @ junk @ filter (\<lambda>b. b \<noteq> ProtocolByteEnd) data)"
proof -
  obtain c where c: "map_of (ps_proxyClients s) q = Some c" "pc_type c = TypeServer" "tc_slipEnabled c"
      "tc_dataBuffer c = bad @ junk"
    using s unfolding buffered_def by blast
  let ?c = "client_addRxDataCount (int (length data)) c"
  have "processData data ?c = ([], ?c\<lparr>tc_dataBuffer := bad @ junk @ filter (\<lambda>b. b \<noteq> ProtocolByteEnd) data\<rparr>)"
    using c by (simp add: processData_def slip_loop_stuck [OF bad])
  then show "ps_effects (onClientDataAvailable E q data s) = ps_effects s"
    "buffered (onClientDataAvailable E q data s) q (bad @ junk @ filter (\<lambda>b. b \<noteq> ProtocolByteEnd) data)"
    using c by (simp_all add: onClientDataAvailable_def Let_def buffered_def)
qed

text \<open>C37: After one packet the decoder refuses, the connection of a server is deaf for good: whatever it
  sends, in whatever chunks, is kept in the buffer without limit, and nothing is ever answered or
  delivered.\<close>

theorem malformed_packet_deafens:
  assumes "deserialize_loop False [] bad = None" "buffered s q (bad @ junk)"
  shows "ps_effects (run_events (proxy_step E) s (map (DataAvailable q) chunks)) = ps_effects s \<and>
    buffered (run_events (proxy_step E) s (map (DataAvailable q) chunks)) q
      (bad @ junk @ filter (\<lambda>b. b \<noteq> ProtocolByteEnd) (concat chunks))"
  using assms(2)
proof (induction chunks arbitrary: s junk)
  case (Cons data chunks)
  from Cons.IH [OF stuck_chunk(2) [OF assms(1) Cons.prems, of E data]]
  show ?case by (simp add: stuck_chunk(1) [OF assms(1) Cons.prems])
qed simp

lemma demo_stuck: "buffered (demo (demo_tunnel @ [DataAvailable 10 [ProtocolByteEsc, 1]])) 10 [ProtocolByteEsc, 1]"
proof -
  obtain c where c: "map_of (ps_proxyClients (demo demo_tunnel)) 10 = Some c" "tc_slipEnabled c" "tc_dataBuffer c = []"
      "pc_type c = TypeServer"
    using demo_tunnel_facts(3) by auto
  let ?c = "client_addRxDataCount (int (length [ProtocolByteEsc, 1])) c"
  have "processData [ProtocolByteEsc, 1] ?c = ([], ?c\<lparr>tc_dataBuffer := [ProtocolByteEsc, 1]\<rparr>)"
    using c by (simp add: processData_def protocol_bytes)
  with c show ?thesis
    by (simp add: run_events_append onClientDataAvailable_def Let_def buffered_def)
qed

theorem malformed_packet_deafens_witness:
  "ps_effects (run_events (proxy_step demo_env) (demo (demo_tunnel @ [DataAvailable 10 [ProtocolByteEsc, 1]]))
      (map (DataAvailable 10) [[ProtocolByteEnd], serializeData (buildFrame \<lparr>fr_socketAddress = 1, fr_data = [1]\<rparr>)])) =
    ps_effects (demo (demo_tunnel @ [DataAvailable 10 [ProtocolByteEsc, 1]]))"
proof -
  have "deserialize_loop False [] [ProtocolByteEsc, 1] = None" by (simp add: protocol_bytes)
  then show ?thesis
    by (rule conjunct1 [OF malformed_packet_deafens [where junk = "[]"]]) (simp add: demo_stuck)
qed

end
