(* ===== verification/Departure.thy ===== *)
theory Departure
  imports TunnelProxy
begin

text \<open>
  What the proxy does when the socket of a server or of a client is gone.
\<close>

section \<open>A server goes\<close>

lemma linked_client:
  assumes inv: "proxy_inv s" and q: "map_of (ps_serverObjects s) q = Some sc" and p: "p \<in> set (clientConnections sc)"
  shows "p \<noteq> q" and "\<exists>cc c i. map_of (ps_clientObjects s) p = Some cc \<and> cc_transportClient cc = p \<and>
      map_of (ps_proxyClients s) p = Some c \<and> tc_interface c = Some i \<and> tc_clientId c = p"
proof -
  obtain cc where cc: "map_of (ps_clientObjects s) p = Some cc"
    using p clientConnections_linked [OF inv q] by blast
  obtain c where c: "map_of (ps_proxyClients s) p = Some c" "pc_type c = TypeClient" "cc_transportClient cc = p"
    using registry_client_object [OF inv cc] by blast
  then show "p \<noteq> q" using registry_server_object [OF inv q] by auto
  obtain i where "tc_interface c = Some i" "tc_clientId c = p"
    using proxy_inv_interface [OF inv c(1)] proxy_inv_client(1) [OF inv c(1)] by blast
  with cc c show "\<exists>cc c i. map_of (ps_clientObjects s) p = Some cc \<and> cc_transportClient cc = p \<and>
      map_of (ps_proxyClients s) p = Some c \<and> tc_interface c = Some i \<and> tc_clientId c = p" by blast
qed

lemma effects_rpc_unregisterClient [simp]: "ps_effects (rpc_unregisterClient k s) = ps_effects s"
  by (simp add: rpc_unregisterClient_def Let_def split: option.split)

lemma tunnelOf_rpc_unregisterClient [simp]: "tunnelOf (rpc_unregisterClient k s) p = tunnelOf s p"
  by (simp add: tunnelOf_def)

lemma server_gone_effects:
  assumes inv: "proxy_inv s" and q: "map_of (ps_serverObjects s) q = Some sc"
  shows "ps_effects (onClientDisconnected E q s) = ps_effects s @
      map (\<lambda>p. KillClientConnection (the (interfaceOf s p)) p ''Server disconnected'') (clientConnections sc)"
    and "tunnelOf (onClientDisconnected E q s) p = (if tunnelOf s p = Some q then None else tunnelOf s p)"
    and "ps_serverConnections (onClientDisconnected E q s) = qremove (sc_serverUuid sc) (ps_serverConnections s)"
proof -
  obtain c where c: "map_of (ps_proxyClients s) q = Some c" "pc_type c = TypeServer" "tc_uuid c = sc_serverUuid sc"
    using registry_server_object [OF inv q] by blast
  note T = disconnectServerConnection_effect [OF inv c(1,2) refl]
  have step: "onClientDisconnected E q s = rpc_unregisterClient q (disconnectServerConnection c (forgotten q s))"
    using c by (simp add: onClientDisconnected_def Let_def)
  have "ps_effects (dropClients q (clientConnections sc) (serverGone q c s)) =
      ps_effects (serverGone q c s) @
      map (\<lambda>p. KillClientConnection (the (interfaceOf (serverGone q c s) p)) p ''Server disconnected'') (clientConnections sc)"
    by (rule dropClients_effects) (use q linked_client [OF inv q] in auto)
  also have "\<dots> = ps_effects s @
      map (\<lambda>p. KillClientConnection (the (interfaceOf s p)) p ''Server disconnected'') (clientConnections sc)"
    using linked_client(1) [OF inv q] by (simp add: interfaceOf_def)
  finally show "ps_effects (onClientDisconnected E q s) = ps_effects s @
      map (\<lambda>p. KillClientConnection (the (interfaceOf s p)) p ''Server disconnected'') (clientConnections sc)"
    unfolding step disconnectServerConnection_loop [OF inv c(1,2) q] by simp
  show "tunnelOf (onClientDisconnected E q s) p = (if tunnelOf s p = Some q then None else tunnelOf s p)"
    by (cases "map_of (ps_clientObjects s) p")
      (simp_all add: step tunnelOf_def T unlink_def setServerConnection_def)
  show "ps_serverConnections (onClientDisconnected E q s) = qremove (sc_serverUuid sc) (ps_serverConnections s)"
    by (simp add: step T c(3))
qed

text \<open>When the socket of a server is gone, the proxy closes exactly the connections of the clients
  that were tunnelled to it, ends their tunnels and no others, and its uuid is free again.\<close>

theorem server_disconnect_closes_clients:
  assumes "map_of (ps_serverObjects (proxy_run E cfg es)) q = Some sc"
  shows "ps_effects (proxy_step E (proxy_run E cfg es) (ClientDisconnected q)) = ps_effects (proxy_run E cfg es) @
      map (\<lambda>p. KillClientConnection (the (interfaceOf (proxy_run E cfg es) p)) p ''Server disconnected'') (clientConnections sc) \<and>
    set (clientConnections sc) = {p. tunnelOf (proxy_run E cfg es) p = Some q} \<and>
    tunnelOf (proxy_step E (proxy_run E cfg es) (ClientDisconnected q)) =
      (\<lambda>p. if tunnelOf (proxy_run E cfg es) p = Some q then None else tunnelOf (proxy_run E cfg es) p) \<and>
    \<not> qcontains (ps_serverConnections (proxy_step E (proxy_run E cfg es) (ClientDisconnected q))) (sc_serverUuid sc)"
proof -
  have "set (clientConnections sc) = {p. tunnelOf (proxy_run E cfg es) p = Some q}"
    using clientConnections_linked [OF run_inv assms] by (auto simp: tunnelOf_def bind_eq_Some_conv)
  then show ?thesis
    using server_gone_effects [OF run_inv assms, of E] by (auto simp: qcontains_def)
qed

theorem server_disconnect_closes_clients_witness:
  "ps_effects (proxy_step demo_env (demo demo_tunnel) (ClientDisconnected 10)) = ps_effects (demo demo_tunnel) @
     [KillClientConnection TransportTcp 11 ''Server disconnected'']"
  using server_disconnect_closes_clients [OF demo_tunnel_facts(2)] demo_tunnel_facts(5)
  by (simp add: clientConnections_def qvalues_def)

section \<open>A client goes\<close>

text \<open>A JSON message for a connection the proxy has.\<close>

definition jsonPacket :: "proxy_server \<Rightarrow> uuid \<Rightarrow> bytes \<Rightarrow> bytes" where
  "jsonPacket s k data =
     (case map_of (ps_proxyClients s) k of
        None \<Rightarrow> []
      | Some c \<Rightarrow>
          if tc_slipEnabled c then serializeData (buildFrame \<lparr>fr_socketAddress = 0, fr_data = data @ [newline]\<rparr>)
          else data @ [newline])"

lemma sendJson_effects:
  assumes "map_of (ps_proxyClients s) k = Some c" "tc_interface c = Some i" "tc_clientId c = k"
  shows "ps_effects (sendJson k data s) = ps_effects s @ [SendData i k (jsonPacket s k data)]"
  using assms by (simp add: sendJson_def jsonPacket_def client_sendData_effects)

lemma client_gone_effects:
  assumes inv: "proxy_inv s" and k: "map_of (ps_clientObjects s) k = Some cc" "cc_serverConnection cc = Some q"
    and sc: "map_of (ps_serverObjects s) q = Some sc"
  shows "ps_effects (onClientDisconnected E k s) = ps_effects s @
      [SendData (the (interfaceOf s q)) q (jsonPacket s q (env_toJson E
         (notificationMap (rpc_notificationId s) ''TunnelProxy'' ''ClientDisconnected''
           [(''socketAddress'', VUInt (uint (cc_socketAddress cc)))])))]"
    and "tunnelOf (onClientDisconnected E k s) p = (if p = k then None else tunnelOf s p)"
    and "map_of (ps_serverObjects (onClientDisconnected E k s)) q = Some (fst (unregisterClientConnection sc cc))"
    and "ps_clientConnections (onClientDisconnected E k s) = qremove (cc_clientUuid cc) (ps_clientConnections s)"
proof -
  obtain c where c: "map_of (ps_proxyClients s) k = Some c" "pc_type c = TypeClient" "tc_uuid c = cc_clientUuid cc"
    using registry_client_object [OF inv k(1)] by blast
  obtain cq where cq: "map_of (ps_proxyClients s) q = Some cq" "pc_type cq = TypeServer"
    using registry_server_object [OF inv sc] by blast
  obtain i where i: "tc_interface cq = Some i" "tc_clientId cq = q"
    using proxy_inv_interface [OF inv cq(1)] proxy_inv_client(1) [OF inv cq(1)] by blast
  have "k \<noteq> q" using c cq by auto
  have step: "onClientDisconnected E k s =
      rpc_unregisterClient k (disconnectClientConnection E c (forgotten k s))"
    using c by (simp add: onClientDisconnected_def Let_def)
  note step' = step [unfolded disconnectClientConnection_linked [OF inv c(1,2) k sc] Let_def]
  let ?l = "(leaveServer k c cc q sc s)\<lparr>rpc_notificationId := rpc_notificationId s + 1\<rparr>"
  have "map_of (ps_proxyClients ?l) q = Some cq"
    using cq \<open>k \<noteq> q\<close> by (simp add: leaveServer_def)
  from sendJson_effects [OF this i] cq i \<open>k \<noteq> q\<close>
  show "ps_effects (onClientDisconnected E k s) = ps_effects s @
      [SendData (the (interfaceOf s q)) q (jsonPacket s q (env_toJson E
         (notificationMap (rpc_notificationId s) ''TunnelProxy'' ''ClientDisconnected''
           [(''socketAddress'', VUInt (uint (cc_socketAddress cc)))])))]"
    unfolding step' sendNotification_def Let_def
    by (simp add: leaveServer_def interfaceOf_def jsonPacket_def)
  show "tunnelOf (onClientDisconnected E k s) p = (if p = k then None else tunnelOf s p)"
    unfolding step' tunnelOf_def
    by (simp add: addressing_core [OF core_sendNotification] leaveServer_def)
  show "map_of (ps_serverObjects (onClientDisconnected E k s)) q = Some (fst (unregisterClientConnection sc cc))"
    unfolding step' by (simp add: addressing_core [OF core_sendNotification] leaveServer_def)
  show "ps_clientConnections (onClientDisconnected E k s) = qremove (cc_clientUuid cc) (ps_clientConnections s)"
    unfolding step' by (simp add: core_fields(2) [OF core_sendNotification] leaveServer_def c(3))
qed

text \<open>C17: When the socket of a tunnelled client is gone, its server, and nobody else, gets exactly one
  message, the notification with the client's address; this tunnel ends and no other, and the uuid
  and the address of the client are free again.\<close>

theorem client_disconnect_notifies_server:
  assumes "map_of (ps_clientObjects (proxy_run E cfg es)) k = Some cc" "cc_serverConnection cc = Some q"
  shows "ps_effects (proxy_step E (proxy_run E cfg es) (ClientDisconnected k)) = ps_effects (proxy_run E cfg es) @
      [SendData (the (interfaceOf (proxy_run E cfg es) q)) q (jsonPacket (proxy_run E cfg es) q (env_toJson E
         (notificationMap (rpc_notificationId (proxy_run E cfg es)) ''TunnelProxy'' ''ClientDisconnected''
           [(''socketAddress'', VUInt (uint (cc_socketAddress cc)))])))] \<and>
    tunnelOf (proxy_step E (proxy_run E cfg es) (ClientDisconnected k)) =
      (\<lambda>p. if p = k then None else tunnelOf (proxy_run E cfg es) p) \<and>
    \<not> qcontains (ps_clientConnections (proxy_step E (proxy_run E cfg es) (ClientDisconnected k))) (cc_clientUuid cc) \<and>
    (\<exists>sc. map_of (ps_serverObjects (proxy_step E (proxy_run E cfg es) (ClientDisconnected k))) q = Some sc \<and>
       getClientConnection sc (cc_socketAddress cc) = None)"
proof -
  obtain sc where sc: "map_of (ps_serverObjects (proxy_run E cfg es)) q = Some sc"
    using linksOk_D(1) [OF registry_inv_D(8) [OF proxy_inv_registry [OF run_inv]] assms] by blast
  from client_gone_effects [OF run_inv assms sc, of E] show ?thesis
    by (auto simp: qcontains_def getClientConnection_def unregisterClientConnection_def)
qed

theorem client_disconnect_notifies_server_witness:
  "tunnelOf (proxy_step demo_env (demo demo_tunnel) (ClientDisconnected 11)) 11 = None \<and>
   ps_effects (proxy_step demo_env (demo demo_tunnel) (ClientDisconnected 11)) = ps_effects (demo demo_tunnel) @
     [SendData TransportTcp 10 [0, 0, 123, 125, 10, 0xC0]]"
proof -
  have "jsonPacket (demo demo_tunnel) 10 (env_toJson demo_env v) = [0, 0, 123, 125, 10, 0xC0]" for v
    using demo_tunnel_facts(3)
    by (auto simp: jsonPacket_def demo_env_def serializeData_def buildFrame_def stream_write_u16_def
        serialize_byte_def protocol_bytes newline_def)
  with client_disconnect_notifies_server [OF demo_tunnel_facts(1)] demo_tunnel_facts(4) show ?thesis by simp
qed

end
