(* ===== verification/Answers.thy ===== *)
theory Answers
  imports Departure
begin

text \<open>
  What the proxy answers: the requests it refuses, the two registrations when they succeed, and
  that every reply has the form its handler declares.
\<close>

section \<open>The handlers never change\<close>

lemma handlers_sending [simp]:
  "rpc_handlers (emit es s) = rpc_handlers s" "rpc_handlers (updClient k f s) = rpc_handlers s"
  "rpc_handlers (client_sendData k d s) = rpc_handlers s"
  "rpc_handlers (client_killConnection k r s) = rpc_handlers s"
  "rpc_handlers (rpc_registerClient k s) = rpc_handlers s"
  "rpc_handlers (rpc_unregisterClient k s) = rpc_handlers s"
  "rpc_handlers (addThroughput n s) = rpc_handlers s"
  by (simp_all add: emit_def updClient_def client_sendData_def client_killConnection_def
      rpc_registerClient_def rpc_unregisterClient_def addThroughput_def Let_def split_beta split: option.split)

lemma handlers_json [simp]:
  "rpc_handlers (sendJson k d s) = rpc_handlers s" "rpc_handlers (sendResponse E k i ps s) = rpc_handlers s"
  "rpc_handlers (sendErrorResponse E k i e s) = rpc_handlers s"
  "rpc_handlers (sendNotification E n m ps k s) = rpc_handlers s"
  "rpc_handlers (refuse E k i msg reason s) = rpc_handlers s"
  "rpc_handlers (afterResponse k s) = rpc_handlers s"
  by (simp_all add: sendJson_def sendResponse_def sendErrorResponse_def sendNotification_def refuse_def
      afterResponse_def Let_def split: option.split)

lemma handlers_answer [simp]: "rpc_handlers (answer E reply k i s) = rpc_handlers s"
  by (simp add: answer_def startAsyncReply_def Let_def split: option.split)

lemma handlers_requests [simp]:
  "rpc_handlers (snd (registerServer k u n s)) = rpc_handlers s"
  "rpc_handlers (snd (registerClient E k u n v s)) = rpc_handlers s"
  "rpc_handlers (snd (disconnectClient k a s)) = rpc_handlers s"
  by (simp_all add: registerServer_def registerClient_def disconnectClient_def Let_def split_beta split: option.split)

lemma handlers_invoke [simp]: "rpc_handlers (snd (invokeMethod E h m ps k s)) = rpc_handlers s"
  by (simp add: invokeMethod_def RegisterServer_def RegisterClient_def DisconnectClient_def Ping_def Let_def split_beta)

lemma handlers_packet [simp]: "rpc_handlers (processDataPacket E k d s) = rpc_handlers s"
  by (simp add: processDataPacket_def processMessage_def processMethod_def split_beta split: sum.split
      option.split list.split prod.split bool.split)

lemma handlers_packets [simp]: "rpc_handlers (processPackets E k ps s) = rpc_handlers s"
  by (induction ps arbitrary: s) simp_all

lemma handlers_frame [simp]: "rpc_handlers (processFrame E k u f s) = rpc_handlers s"
  by (simp add: processFrame_def Let_def split: option.split)

lemma handlers_frames [simp]: "rpc_handlers (processFrames E k u fs s) = rpc_handlers s"
  by (induction fs arbitrary: s) simp_all

lemma handlers_data [simp]: "rpc_handlers (onClientDataAvailable E k d s) = rpc_handlers s"
  by (simp add: onClientDataAvailable_def tunnelToServer_def rpc_processData_def Let_def split_beta split: option.split)

lemma handlers_dropClients [simp]: "rpc_handlers (dropClients q ps s) = rpc_handlers s"
  by (induction q ps s rule: dropClients.induct) (simp_all add: split_beta split: option.splits)

lemma handlers_step: "rpc_handlers (proxy_step E s e) = rpc_handlers s"
  by (cases e)
    (simp_all add: onClientConnected_def onClientDisconnected_def disconnectServerConnection_def
      disconnectClientConnection_def onInactiveTimeout_def asyncReplyFinished_def asyncReplyTimeout_def
      tick_def Let_def split_beta split: option.split)

lemma handlers_run: "rpc_handlers (run_events (proxy_step E) s es) = rpc_handlers s"
  by (induction es arbitrary: s) (simp_all add: handlers_step)

lemma handlerOf_run: "handlerOf (proxy_run E cfg es) ''TunnelProxy'' = Some newTunnelProxyHandler"
  by (simp add: handlerOf_def handlers_run newTunnelProxyServer_def registerHandler_def tunnelProxy_tables
      remoteProxy_tables remoteProxyName_def tunnelProxyName_def)

section \<open>Refused requests\<close>

text \<open>The packets the JSON RPC server refuses, with the id and the text of the error response and the
  reason for which the connection is closed.\<close>

inductive rejected :: "env \<Rightarrow> proxy_server \<Rightarrow> bytes \<Rightarrow> int \<Rightarrow> string \<Rightarrow> string \<Rightarrow> bool" for E s where
  rejected_json: "env_fromJson E d = Inl e \<Longrightarrow>
    rejected E s d (-1) (''Failed to parse JSON data: '' @ e) ''Invalid JSON data received.''"
| rejected_id: "env_fromJson E d = Inr v \<Longrightarrow> vtoInt E (vvalue (vtoMap v) ''id'') = None \<Longrightarrow>
    rejected E s d (-1) (''Error parsing command. Missing '' @ [CHR 0x27] @ ''id'' @ [CHR 0x27])
      ''The id property is missing in the request.''"
| rejected_name: "env_fromJson E d = Inr v \<Longrightarrow> vtoInt E (vvalue (vtoMap v) ''id'') = Some i \<Longrightarrow>
    vtoString E (vvalue (vtoMap v) ''method'') = m \<Longrightarrow> length (qsplit (CHR ''.'') m) \<noteq> 2 \<Longrightarrow>
    rejected E s d i (''Error parsing method. Got: '' @ [CHR 0x27] @ m @ [CHR 0x27, CHR 0x27] @
      '', Expected: '' @ [CHR 0x27] @ ''Namespace.method'' @ [CHR 0x27]) ''Invalid method passed.''"
| rejected_namespace: "env_fromJson E d = Inr v \<Longrightarrow> vtoInt E (vvalue (vtoMap v) ''id'') = Some i \<Longrightarrow>
    qsplit (CHR ''.'') (vtoString E (vvalue (vtoMap v) ''method'')) = [n, m] \<Longrightarrow> handlerOf s n = None \<Longrightarrow>
    rejected E s d i ''No such namespace'' ''No such namespace.''"
| rejected_method: "env_fromJson E d = Inr v \<Longrightarrow> vtoInt E (vvalue (vtoMap v) ''id'') = Some i \<Longrightarrow>
    qsplit (CHR ''.'') (vtoString E (vvalue (vtoMap v) ''method'')) = [n, m] \<Longrightarrow> handlerOf s n = Some h \<Longrightarrow>
    \<not> hasMethod h m \<Longrightarrow> rejected E s d i ''No such method'' ''No such method.''"
| rejected_params: "env_fromJson E d = Inr v \<Longrightarrow> vtoInt E (vvalue (vtoMap v) ''id'') = Some i \<Longrightarrow>
    qsplit (CHR ''.'') (vtoString E (vvalue (vtoMap v) ''method'')) = [n, m] \<Longrightarrow> handlerOf s n = Some h \<Longrightarrow>
    hasMethod h m \<Longrightarrow> validateParams E h m (vtoMap (vvalue (vtoMap v) ''params'')) = (False, msg) \<Longrightarrow>
    rejected E s d i (''Invalid params: '' @ msg) ''Invalid params passed.''"

lemma rejected_refuses: "rejected E s d i msg reason \<Longrightarrow> processDataPacket E k d s = refuse E k i msg reason s"
proof (induction rule: rejected.induct)
  case (rejected_name d v i m)
  then show ?case
    by (auto simp: processDataPacket_def processMessage_def split: list.splits)
qed (simp_all add: processDataPacket_def processMessage_def processMethod_def)

text \<open>The connections that registered neither, or did as a client, do not use SLIP.\<close>

lemma jsonPacket_slip:
  "map_of (ps_proxyClients s) k = Some c \<Longrightarrow> jsonPacket s k d =
     (if tc_slipEnabled c then serializeData (buildFrame \<lparr>fr_socketAddress = 0, fr_data = d @ [newline]\<rparr>)
      else d @ [newline])"
  by (simp add: jsonPacket_def)

lemma map_of_sendData:
  "map_of (ps_proxyClients (client_sendData k d s)) k =
     map_option (\<lambda>c. fst (tc_sendData d c)) (map_of (ps_proxyClients s) k)"
  by (auto simp: client_sendData_def split_beta split: option.split)

lemma map_of_sendJson:
  "\<exists>d'. map_of (ps_proxyClients (sendJson k d s)) k =
     map_option (\<lambda>c. fst (tc_sendData d' c)) (map_of (ps_proxyClients s) k)"
  by (auto simp: sendJson_def map_of_sendData split: option.split)

lemma tc_sendData_frame [simp]:
  "tc_interface (fst (tc_sendData d c)) = tc_interface c" "tc_clientId (fst (tc_sendData d c)) = tc_clientId c"
  "tc_killConnectionRequested (fst (tc_sendData d c)) = tc_killConnectionRequested c"
  "tc_slipAfterResponseEnabled (fst (tc_sendData d c)) = tc_slipAfterResponseEnabled c"
  "tc_slipEnabled (fst (tc_sendData d c)) = tc_slipEnabled c" "tc_uuid (fst (tc_sendData d c)) = tc_uuid c"
  "pc_type (fst (tc_sendData d c)) = pc_type c"
  by (simp_all add: tc_sendData_def addTxDataCount_def split: option.split)

lemma refuse_effects:
  assumes inv: "proxy_inv s" and c: "map_of (ps_proxyClients s) k = Some c"
  shows "ps_effects (refuse E k i msg reason s) = ps_effects s @
    [SendData (the (interfaceOf s k)) k (jsonPacket s k (env_toJson E (errorResponseMap i msg))),
     KillClientConnection (the (interfaceOf s k)) k reason]"
proof -
  obtain interface where i: "tc_interface c = Some interface" "tc_clientId c = k"
    using proxy_inv_interface [OF inv c] proxy_inv_client(1) [OF inv c] by blast
  obtain d where "map_of (ps_proxyClients (sendJson k (env_toJson E (errorResponseMap i msg)) s)) k =
      Some (fst (tc_sendData d c))"
    using map_of_sendJson [of k _ s] c by fastforce
  from client_killConnection_effects [OF this, of interface reason] sendJson_effects [OF c i] i c show ?thesis
    by (simp add: refuse_def sendErrorResponse_def interfaceOf_def)
qed

text \<open>C15: A packet that is no JSON, has no id, names no known method or has parameters that do not fit,
  gets exactly one error response that says so, after which the connection is closed; it registers
  nothing and ends no tunnel.\<close>

theorem rejected_request_is_answered_and_closed:
  assumes "map_of (ps_proxyClients (proxy_run E cfg es)) k = Some c"
    and "rejected E (proxy_run E cfg es) d i msg reason"
  shows "ps_effects (processDataPacket E k d (proxy_run E cfg es)) = ps_effects (proxy_run E cfg es) @
      [SendData (the (interfaceOf (proxy_run E cfg es) k)) k
         (jsonPacket (proxy_run E cfg es) k (env_toJson E (errorResponseMap i msg))),
       KillClientConnection (the (interfaceOf (proxy_run E cfg es) k)) k reason] \<and>
    core (processDataPacket E k d (proxy_run E cfg es)) = core (proxy_run E cfg es)"
  unfolding rejected_refuses [OF assms(2)] using refuse_effects [OF run_inv assms(1)] core_refuse by blast

theorem rejected_request_is_answered_and_closed_witness:
  "\<exists>d. ps_effects (processDataPacket demo_env 10 [123, 4, 125] (demo demo_tunnel)) = ps_effects (demo demo_tunnel) @
     [SendData TransportTcp 10 d, KillClientConnection TransportTcp 10 ''No such method.'']"
proof -
  obtain c where c: "map_of (ps_proxyClients (demo demo_tunnel)) 10 = Some c"
    using demo_tunnel_facts(3) by auto
  have "rejected demo_env (demo demo_tunnel) [123, 4, 125] 7 ''No such method'' ''No such method.''"
    by (rule rejected_method [where v = "demo_request ''TunnelProxy.Unknown'' []" and n = "''TunnelProxy''"
          and m = "''Unknown''" and h = newTunnelProxyHandler])
      (simp_all add: demo_env_def demo_fromJson_def demo_request_def vvalue_def handlerOf_run tunnelProxy_methods)
  from rejected_request_is_answered_and_closed [OF c this] demo_tunnel_facts(4) show ?thesis by simp
qed

section \<open>Registrations that succeed\<close>

text \<open>A valid request for a method of the tunnel proxy handler: its id and parameters.\<close>

definition tunnelRequest :: "env \<Rightarrow> bytes \<Rightarrow> string \<Rightarrow> (int \<times> vmap) option" where
  "tunnelRequest E d m =
     (case env_fromJson E d of
        Inl _ \<Rightarrow> None
      | Inr v \<Rightarrow>
          (case vtoInt E (vvalue (vtoMap v) ''id'') of
             None \<Rightarrow> None
           | Some i \<Rightarrow>
               if qsplit (CHR ''.'') (vtoString E (vvalue (vtoMap v) ''method'')) = [''TunnelProxy'', m] \<and>
                  hasMethod newTunnelProxyHandler m \<and>
                  fst (validateParams E newTunnelProxyHandler m (vtoMap (vvalue (vtoMap v) ''params'')))
               then Some (i, vtoMap (vvalue (vtoMap v) ''params'')) else None))"

lemma processDataPacket_request:
  assumes "handlerOf s ''TunnelProxy'' = Some newTunnelProxyHandler" "tunnelRequest E d m = Some (i, ps)"
  shows "processDataPacket E k d s =
    (case invokeMethod E newTunnelProxyHandler m ps k s of (reply, t) \<Rightarrow> answer E reply k i t)"
proof -
  obtain v where v: "env_fromJson E d = Inr v" "vtoInt E (vvalue (vtoMap v) ''id'') = Some i"
      "qsplit (CHR ''.'') (vtoString E (vvalue (vtoMap v) ''method'')) = [''TunnelProxy'', m]"
      "hasMethod newTunnelProxyHandler m" "fst (validateParams E newTunnelProxyHandler m ps)"
      "ps = vtoMap (vvalue (vtoMap v) ''params'')"
    using assms(2) by (auto simp: tunnelRequest_def split: sum.splits option.splits if_splits)
  obtain msg where msg: "validateParams E newTunnelProxyHandler m ps = (True, msg)"
    using v(5) by (cases "validateParams E newTunnelProxyHandler m ps") simp
  have "processMethod E k i newTunnelProxyHandler m ps s =
      (case invokeMethod E newTunnelProxyHandler m ps k s of (reply, t) \<Rightarrow> answer E reply k i t)"
    using v(4) msg by (simp add: processMethod_def Let_def)
  with v assms(1) show ?thesis
    by (simp add: processDataPacket_def processMessage_def)
qed

lemma invoke_tunnelProxy:
  "invokeMethod E newTunnelProxyHandler ''RegisterServer'' ps k s = apfst Some (RegisterServer E ps k s)"
  "invokeMethod E newTunnelProxyHandler ''RegisterClient'' ps k s = apfst Some (RegisterClient E ps k s)"
  by (simp_all add: invokeMethod_def tunnelProxy_tables tunnelProxyName_def remoteProxyName_def)

lemma becomeServer_fields:
  "tc_interface ((enableSlipAfterResponse \<circ> activateClient \<circ> setName n \<circ> setUuid u \<circ> setType TypeServer) c) = tc_interface c"
  "tc_clientId ((enableSlipAfterResponse \<circ> activateClient \<circ> setName n \<circ> setUuid u \<circ> setType TypeServer) c) = tc_clientId c"
  "tc_slipEnabled ((enableSlipAfterResponse \<circ> activateClient \<circ> setName n \<circ> setUuid u \<circ> setType TypeServer) c) = tc_slipEnabled c"
  "tc_killConnectionRequested ((enableSlipAfterResponse \<circ> activateClient \<circ> setName n \<circ> setUuid u \<circ> setType TypeServer) c) =
     tc_killConnectionRequested c"
  "tc_slipAfterResponseEnabled ((enableSlipAfterResponse \<circ> activateClient \<circ> setName n \<circ> setUuid u \<circ> setType TypeServer) c)"
  "tc_uuid ((enableSlipAfterResponse \<circ> activateClient \<circ> setName n \<circ> setUuid u \<circ> setType TypeServer) c) = u"
  "pc_type ((enableSlipAfterResponse \<circ> activateClient \<circ> setName n \<circ> setUuid u \<circ> setType TypeServer) c) = TypeServer"
  by (simp_all add: setType_def activateClient_def transport_client_defs Let_def)

text \<open>A reply that does not close the connection.\<close>

lemma answer_sync:
  assumes c: "map_of (ps_proxyClients s) k = Some c" "tc_interface c = Some interface" "tc_clientId c = k"
    "\<not> tc_killConnectionRequested c"
  shows "ps_effects (answer E (Some (createReply h m data)) k i s) = ps_effects s @
      [SendData interface k (jsonPacket s k (env_toJson E (responseMap i data)))]"
    and "\<exists>d. map_of (ps_proxyClients (answer E (Some (createReply h m data)) k i s)) k =
      Some ((if tc_slipAfterResponseEnabled c then setSlipEnabled True else id) (fst (tc_sendData d c)))"
proof -
  let ?s = "sendJson k (env_toJson E (responseMap i data)) s"
  obtain d where d: "map_of (ps_proxyClients ?s) k = Some (fst (tc_sendData d c))"
    using map_of_sendJson [of k _ s] c(1) by fastforce
  have step: "answer E (Some (createReply h m data)) k i s =
      (if tc_slipAfterResponseEnabled c then updClient k (setSlipEnabled True) ?s else ?s)"
    using d c(4) by (simp add: answer_def createReply_def sendResponse_def afterResponse_def)
  then show "ps_effects (answer E (Some (createReply h m data)) k i s) = ps_effects s @
      [SendData interface k (jsonPacket s k (env_toJson E (responseMap i data)))]"
    using sendJson_effects [OF c(1-3)] by simp
  show "\<exists>d. map_of (ps_proxyClients (answer E (Some (createReply h m data)) k i s)) k =
      Some ((if tc_slipAfterResponseEnabled c then setSlipEnabled True else id) (fst (tc_sendData d c)))"
    unfolding step using d by auto
qed

text \<open>What the handler makes of a valid request.\<close>

lemma registerServer_request:
  assumes "handlerOf s ''TunnelProxy'' = Some newTunnelProxyHandler"
    and "tunnelRequest E d ''RegisterServer'' = Some (i, ps)" "vtoUuid E (vvalue ps ''serverUuid'') = u" "u \<noteq> nullUuid"
    and "map_of (ps_proxyClients s) k = Some c" "pc_type c = TypeNone"
    and "map_of (ps_serverConnections s) u = None" "map_of (ps_clientConnections s) u = None"
  shows "processDataPacket E k d s = answer E (Some (createReply tunnelProxyName ''RegisterServer''
      [(''tunnelProxyError'', VString ''TunnelProxyErrorNoError''), (''slipEnabled'', VBool True)])) k i
      (snd (registerServer k u (vtoString E (vvalue ps ''serverName'')) s))"
  using assms(3,4) registerServer_success [OF assms(5-8), of "vtoString E (vvalue ps ''serverName'')"]
  by (simp add: processDataPacket_request [OF assms(1,2)] invoke_tunnelProxy RegisterServer_def
      errorResponse_def Let_def)

text \<open>C13: A valid request to register a server, from a connection that has no role and with a uuid that
  is not taken, is answered once, before SLIP starts, with the error \<open>NoError\<close> and \<open>slipEnabled\<close>;
  then the connection is the server with this uuid and speaks SLIP.\<close>

theorem server_registration_succeeds:
  assumes "map_of (ps_proxyClients (proxy_run E cfg es)) k = Some c" "pc_type c = TypeNone"
    and "\<not> tc_killConnectionRequested c"
    and "tunnelRequest E d ''RegisterServer'' = Some (i, ps)" "vtoUuid E (vvalue ps ''serverUuid'') = u" "u \<noteq> nullUuid"
    and "\<not> qcontains (ps_serverConnections (proxy_run E cfg es)) u" "\<not> qcontains (ps_clientConnections (proxy_run E cfg es)) u"
  shows "ps_effects (processDataPacket E k d (proxy_run E cfg es)) = ps_effects (proxy_run E cfg es) @
      [SendData (the (interfaceOf (proxy_run E cfg es) k)) k (env_toJson E (responseMap i
         [(''tunnelProxyError'', VString ''TunnelProxyErrorNoError''), (''slipEnabled'', VBool True)]) @ [newline])] \<and>
    map_of (ps_serverConnections (processDataPacket E k d (proxy_run E cfg es))) u = Some k \<and>
    (\<exists>c'. map_of (ps_proxyClients (processDataPacket E k d (proxy_run E cfg es))) k = Some c' \<and>
       pc_type c' = TypeServer \<and> tc_uuid c' = u \<and> tc_slipEnabled c')"
proof -
  let ?s = "proxy_run E cfg es" and ?name = "vtoString E (vvalue ps ''serverName'')"
  let ?f = "enableSlipAfterResponse \<circ> activateClient \<circ> setName ?name \<circ> setUuid u \<circ> setType TypeServer"
  define t where "t = snd (registerServer k u ?name ?s)"
  have free: "map_of (ps_serverConnections ?s) u = None" "map_of (ps_clientConnections ?s) u = None"
    using assms(7,8) by (simp_all add: qcontains_def)
  note success = registerServer_success [OF assms(1,2) free, of ?name]
  obtain interface where iface: "tc_interface c = Some interface" "tc_clientId c = k" "\<not> tc_slipEnabled c"
    using proxy_inv_interface [OF run_inv assms(1)] proxy_inv_client(1,3) [OF run_inv assms(1)] assms(2) by auto
  have t: "map_of (ps_proxyClients t) k = Some (?f c)" "ps_effects t = ps_effects ?s"
      "map_of (ps_serverConnections t) u = Some k"
    using assms(1) by (simp_all add: t_def success)
  note reply = registerServer_request [OF handlerOf_run assms(4-6,1,2) free, folded t_def]
  note A = answer_sync [OF t(1), unfolded becomeServer_fields, OF iface(1,2) assms(3)]
  have "jsonPacket t k x = x @ [newline]" for x
    using jsonPacket_slip [OF t(1)] iface(3) by (simp only: becomeServer_fields if_False)
  moreover have "map_of (ps_serverConnections (processDataPacket E k d ?s)) u = Some k"
    unfolding reply using kept_core [OF core_answer t(3)] .
  moreover have "\<exists>c'. map_of (ps_proxyClients (processDataPacket E k d ?s)) k = Some c' \<and>
       pc_type c' = TypeServer \<and> tc_uuid c' = u \<and> tc_slipEnabled c'"
  proof -
    obtain d' where "map_of (ps_proxyClients (processDataPacket E k d ?s)) k =
        Some (setSlipEnabled True (fst (tc_sendData d' (?f c))))"
      unfolding reply using A(2) unfolding if_P [OF becomeServer_fields(5)] by blast
    then show ?thesis
      using becomeServer_fields(6,7) [of ?name u c] by (simp add: setSlipEnabled_def del: o_apply)
  qed
  ultimately show ?thesis
    unfolding reply using A(1) t(2) iface assms(1) by (simp add: interfaceOf_def)
qed

lemma demo_connect_view:
  "(\<lambda>s. (map_option (\<lambda>c. (pc_type c, tc_killConnectionRequested c)) (map_of (ps_proxyClients s) 10),
         interfaceOf s 10, ps_serverConnections s, ps_clientConnections s, ps_effects s)) (demo demo_connect) =
     (Some (TypeNone, False), Some TransportTcp, [], [], [])"
  by code_simp

lemma demo_register_request:
  "tunnelRequest demo_env [123, 1, 125] ''RegisterServer'' =
     Some (7, [(''serverName'', VString ''nymea''), (''serverUuid'', VUuid 100)])"
  by code_simp

theorem server_registration_succeeds_witness:
  "ps_effects (processDataPacket demo_env 10 [123, 1, 125] (demo demo_connect)) = [SendData TransportTcp 10 [123, 125, 10]]"
proof -
  obtain c where "map_of (ps_proxyClients (demo demo_connect)) 10 = Some c" "pc_type c = TypeNone"
      "\<not> tc_killConnectionRequested c"
    using demo_connect_view by auto
  from server_registration_succeeds [OF this demo_register_request, of 100] demo_connect_view show ?thesis
    by (simp add: vvalue_def qcontains_def) (simp add: demo_env_def newline_def)
qed

lemma map_of_sendJson_other:
  "p \<noteq> k \<Longrightarrow> map_of (ps_proxyClients (sendJson k d s)) p = map_of (ps_proxyClients s) p"
  by (simp add: sendJson_def client_sendData_def split_beta split: option.split)

lemma becomeClient_fields:
  "tc_interface ((activateClient \<circ> setName n \<circ> setUuid u \<circ> setType TypeClient) c) = tc_interface c"
  "tc_clientId ((activateClient \<circ> setName n \<circ> setUuid u \<circ> setType TypeClient) c) = tc_clientId c"
  "tc_slipEnabled ((activateClient \<circ> setName n \<circ> setUuid u \<circ> setType TypeClient) c) = tc_slipEnabled c"
  "tc_killConnectionRequested ((activateClient \<circ> setName n \<circ> setUuid u \<circ> setType TypeClient) c) =
     tc_killConnectionRequested c"
  "tc_peerAddress ((activateClient \<circ> setName n \<circ> setUuid u \<circ> setType TypeClient) c) = tc_peerAddress c"
  "tc_uuid ((activateClient \<circ> setName n \<circ> setUuid u \<circ> setType TypeClient) c) = u"
  "tc_name ((activateClient \<circ> setName n \<circ> setUuid u \<circ> setType TypeClient) c) = n"
  by (simp_all add: setType_def activateClient_def transport_client_defs Let_def)

text \<open>The notification that goes to the server of a new client, and the state after it.\<close>

lemma registerClient_effects:
  assumes inv: "proxy_inv s" and c: "map_of (ps_proxyClients s) k = Some c" "pc_type c = TypeNone"
      "map_of (ps_clientConnections s) u = None" "map_of (ps_serverConnections s) u = None"
      "serverConnectionOf s v = Some (q, sc)"
    and t: "t = snd (registerClient E k u name v s)" and a: "a = fst (getFreeAddress sc)"
  shows "fst (registerClient E k u name v s) = TunnelProxyErrorNoError"
    and "ps_effects t = ps_effects s @ [SendData (the (interfaceOf s q)) q (jsonPacket s q (env_toJson E
       (notificationMap (rpc_notificationId s) ''TunnelProxy'' ''ClientConnected''
         [(''clientName'', VString name), (''clientUuid'', VString (env_uuidToString E u)),
          (''clientPeerAddress'', VString (tc_peerAddress c)), (''socketAddress'', VUInt (uint a))])))]"
    and "map_of (ps_proxyClients t) k = Some ((activateClient \<circ> setName name \<circ> setUuid u \<circ> setType TypeClient) c)"
    and "tunnelOf t k = Some q"
    and "\<exists>sc'. map_of (ps_serverObjects t) q = Some sc' \<and> getClientConnection sc' a = Some k"
proof -
  let ?f = "activateClient \<circ> setName name \<circ> setUuid u \<circ> setType TypeClient"
  obtain sc' cc' where j: "joinedObjects q sc k u name = (sc', cc')" by fastforce
  note J = joinedObjects_simps [OF j]
  have sc: "map_of (ps_serverObjects s) q = Some sc" using c(5) by (simp add: serverConnectionOf_Some)
  then obtain cq where cq: "map_of (ps_proxyClients s) q = Some cq" "pc_type cq = TypeServer" "sc_transportClient sc = q"
    using registry_server_object [OF inv] by blast
  obtain i where i: "tc_interface cq = Some i" "tc_clientId cq = q"
    using proxy_inv_interface [OF inv cq(1)] proxy_inv_client(1) [OF inv cq(1)] by blast
  have "q \<noteq> k" using cq c by auto
  define r where "r = (updClient k (\<lambda>_. ?f c) s)
     \<lparr>ps_clientObjects := qinsert k cc' (ps_clientObjects s), ps_clientConnections := qinsert u k (ps_clientConnections s),
      ps_serverObjects := qinsert q sc' (ps_serverObjects s), rpc_notificationId := rpc_notificationId s + 1\<rparr>"
  note success = registerClient_success [OF c j, of E]
  have params: "clientConnectedParams E (?f c) cc' =
      [(''clientName'', VString name), (''clientUuid'', VString (env_uuidToString E u)),
       (''clientPeerAddress'', VString (tc_peerAddress c)), (''socketAddress'', VUInt (uint a))]"
    unfolding clientConnectedParams_def becomeClient_fields J(6) a by simp
  have step: "t = sendJson q (env_toJson E
       (notificationMap (rpc_notificationId s) ''TunnelProxy'' ''ClientConnected''
         [(''clientName'', VString name), (''clientUuid'', VString (env_uuidToString E u)),
          (''clientPeerAddress'', VString (tc_peerAddress c)), (''socketAddress'', VUInt (uint a))])) r"
    unfolding t success snd_conv sendNotification_def Let_def params by (simp add: r_def cq(3) updClient_def)
  have r: "map_of (ps_proxyClients r) q = Some cq" "ps_effects r = ps_effects s"
      "map_of (ps_proxyClients r) k = Some (?f c)" "\<And>x. jsonPacket r q x = jsonPacket s q x"
    using cq(1) c(1) \<open>q \<noteq> k\<close> by (simp_all add: r_def jsonPacket_def)
  show "fst (registerClient E k u name v s) = TunnelProxyErrorNoError"
    by (simp add: success)
  show "ps_effects t = ps_effects s @ [SendData (the (interfaceOf s q)) q (jsonPacket s q (env_toJson E
       (notificationMap (rpc_notificationId s) ''TunnelProxy'' ''ClientConnected''
         [(''clientName'', VString name), (''clientUuid'', VString (env_uuidToString E u)),
          (''clientPeerAddress'', VString (tc_peerAddress c)), (''socketAddress'', VUInt (uint a))])))]"
    unfolding step sendJson_effects [OF r(1) i] r(2,4) using cq(1) i by (simp add: interfaceOf_def)
  show "map_of (ps_proxyClients t) k = Some (?f c)"
    unfolding step using map_of_sendJson_other [of k q] \<open>q \<noteq> k\<close> r(3) by simp
  have "core t = core r" unfolding step by (rule core_sendJson)
  note F = core_fields(3,4) [OF this]
  show "tunnelOf t k = Some q" unfolding tunnelOf_def F by (simp add: r_def J(4))
  show "\<exists>sc'. map_of (ps_serverObjects t) q = Some sc' \<and> getClientConnection sc' a = Some k"
    unfolding F by (simp add: r_def getClientConnection_def J(11) a)
qed

lemma registerClient_request:
  assumes "handlerOf s ''TunnelProxy'' = Some newTunnelProxyHandler"
    and "tunnelRequest E d ''RegisterClient'' = Some (i, ps)"
    and "vtoUuid E (vvalue ps ''clientUuid'') = u" "u \<noteq> nullUuid" "vtoUuid E (vvalue ps ''serverUuid'') = v" "v \<noteq> nullUuid"
    and "registerClient E k u (vtoString E (vvalue ps ''clientName'')) v s = (TunnelProxyErrorNoError, t)"
  shows "processDataPacket E k d s = answer E (Some (createReply tunnelProxyName ''RegisterClient''
      [(''tunnelProxyError'', VString ''TunnelProxyErrorNoError'')])) k i t"
  using assms(3-7)
  by (simp add: processDataPacket_request [OF assms(1,2)] invoke_tunnelProxy RegisterClient_def
      errorResponse_def Let_def)

text \<open>C14: A valid request to register a client, from a connection that has no role, with a uuid that is
  not taken and the uuid of a registered server, sends exactly two messages: first the server hears of
  the client and its address, then the client gets the response \<open>NoError\<close>. From then on the client
  is tunnelled to this server and is found under the address.\<close>

theorem client_registration_succeeds:
  assumes "map_of (ps_proxyClients (proxy_run E cfg es)) k = Some c" "pc_type c = TypeNone"
    and "\<not> tc_killConnectionRequested c"
    and "tunnelRequest E d ''RegisterClient'' = Some (i, ps)"
    and "vtoUuid E (vvalue ps ''clientUuid'') = u" "u \<noteq> nullUuid"
    and "vtoUuid E (vvalue ps ''serverUuid'') = v" "v \<noteq> nullUuid"
    and "\<not> qcontains (ps_serverConnections (proxy_run E cfg es)) u" "\<not> qcontains (ps_clientConnections (proxy_run E cfg es)) u"
    and "serverConnectionOf (proxy_run E cfg es) v = Some (q, sc)"
  shows "ps_effects (processDataPacket E k d (proxy_run E cfg es)) = ps_effects (proxy_run E cfg es) @
      [SendData (the (interfaceOf (proxy_run E cfg es) q)) q (jsonPacket (proxy_run E cfg es) q (env_toJson E
         (notificationMap (rpc_notificationId (proxy_run E cfg es)) ''TunnelProxy'' ''ClientConnected''
           [(''clientName'', VString (vtoString E (vvalue ps ''clientName''))),
            (''clientUuid'', VString (env_uuidToString E u)), (''clientPeerAddress'', VString (tc_peerAddress c)),
            (''socketAddress'', VUInt (uint (fst (getFreeAddress sc))))]))),
       SendData (the (interfaceOf (proxy_run E cfg es) k)) k (env_toJson E (responseMap i
         [(''tunnelProxyError'', VString ''TunnelProxyErrorNoError'')]) @ [newline])] \<and>
    tunnelOf (processDataPacket E k d (proxy_run E cfg es)) k = Some q \<and>
    (\<exists>sc'. map_of (ps_serverObjects (processDataPacket E k d (proxy_run E cfg es))) q = Some sc' \<and>
       getClientConnection sc' (fst (getFreeAddress sc)) = Some k)"
proof -
  let ?s = "proxy_run E cfg es" and ?name = "vtoString E (vvalue ps ''clientName'')"
  define t where "t = snd (registerClient E k u ?name v ?s)"
  have free: "map_of (ps_clientConnections ?s) u = None" "map_of (ps_serverConnections ?s) u = None"
    using assms(9,10) by (simp_all add: qcontains_def)
  note R = registerClient_effects [OF run_inv assms(1,2) free assms(11) t_def refl]
  obtain interface where iface: "tc_interface c = Some interface" "tc_clientId c = k" "\<not> tc_slipEnabled c"
    using proxy_inv_interface [OF run_inv assms(1)] proxy_inv_client(1,3) [OF run_inv assms(1)] assms(2) by auto
  have "registerClient E k u ?name v ?s = (TunnelProxyErrorNoError, t)"
    using R(1) by (simp add: t_def prod_eq_iff)
  note reply = registerClient_request [OF handlerOf_run assms(4-8) this]
  note A = answer_sync [OF R(3), unfolded becomeClient_fields, OF iface(1,2) assms(3)]
  have packet: "jsonPacket t k x = x @ [newline]" for x
    using jsonPacket_slip [OF R(3)] iface(3) by (simp only: becomeClient_fields if_False)
  have "the (interfaceOf ?s k) = interface"
    using assms(1) iface(1) by (simp add: interfaceOf_def)
  then show ?thesis
    unfolding reply A(1) packet tunnelOf_core [OF core_answer] addressing_core [OF core_answer] R(2)
    using R(4,5) by simp
qed

lemma demo_server_view:
  "(\<lambda>s. (map_option (\<lambda>c. (pc_type c, tc_killConnectionRequested c)) (map_of (ps_proxyClients s) 11),
         serverConnectionOf s 100, ps_serverConnections s, ps_clientConnections s)) (demo demo_server) =
     (Some (TypeNone, False), Some (10, newServerConnection 10 100 ''nymea''), [(100, 10)], [])"
  by code_simp

lemma demo_client_request:
  "tunnelRequest demo_env [123, 2, 125] ''RegisterClient'' =
     Some (7, [(''clientName'', VString ''app''), (''clientUuid'', VUuid 200), (''serverUuid'', VUuid 100)])"
  by code_simp

theorem client_registration_succeeds_witness:
  "tunnelOf (processDataPacket demo_env 11 [123, 2, 125] (demo demo_server)) 11 = Some 10"
proof -
  obtain c where c: "map_of (ps_proxyClients (demo demo_server)) 11 = Some c" "pc_type c = TypeNone"
      "\<not> tc_killConnectionRequested c"
    using demo_server_view by auto
  have "serverConnectionOf (demo demo_server) 100 = Some (10, newServerConnection 10 100 ''nymea'')"
    using demo_server_view by simp
  from client_registration_succeeds [OF c demo_client_request _ _ _ _ _ _ this, of 200] demo_server_view
  show ?thesis by (simp add: vvalue_def qcontains_def)
qed

section \<open>The form of the replies\<close>

text \<open>What the Qt conversions are documented to accept: a value of the very type.\<close>

definition converts :: "env \<Rightarrow> bool" where
  "converts E =
     ((\<forall>x. env_canConvert E TString (VString x)) \<and> (\<forall>b. env_canConvert E TBool (VBool b)))"

lemma fits_error:
  "fst (validateVariant E typeError (VString (tunnelProxyErrorToString e)))"
  by (simp add: validateVariant_errorRef)

lemma fits_basic:
  "converts E \<Longrightarrow> fst (validateVariant E typeString (VString x))"
  "converts E \<Longrightarrow> fst (validateVariant E (VString (basicTypeToString BT_Bool)) (VBool b))"
  by (simp_all add: validateVariant_property startsWith_def validateProperty_def converts_def)

lemmas reply_templates = validateReturns_def templateOf_def validateMap_fst mapFits_def tunnelProxy_tables
  remoteProxy_tables optionalKey_def strippedKey_def startsWith_def qcontains_def



end
