(* ===== verification/ProxyConnection.thy ===== *)
theory ProxyConnection
  imports Variant
begin

text \<open>
  The client library's connection to the proxy: \<open>proxyconnection.{h,cpp}\<close> and its two kinds,
  \<open>tcpsocketconnection.{h,cpp}\<close> and \<open>websocketconnection.{h,cpp}\<close>. A connection turns the
  signals of its socket into its own; the socket is Qt's.
\<close>

section \<open>State\<close>

datatype socket_state =
    UnconnectedState | HostLookupState | ConnectingState | ConnectedState | BoundState
  | ListeningState | ClosingState

datatype connection_type = ConnectionTypeWebSocket | ConnectionTypeTcpSocket

text \<open>\<open>pu_valid\<close> is \<open>QUrl::isValid\<close>, false as well for an empty url.\<close>

record proxy_url =
  pu_scheme :: string
  pu_host :: string
  pu_port :: int
  pu_valid :: bool

record proxy_connection =
  con_type :: connection_type
  con_serverUrl :: proxy_url
  con_connected :: bool
  con_ssl :: bool

text \<open>What a connection asks of its socket.\<close>

datatype connection_op =
    OpConnectToHost string int
  | OpConnectToHostEncrypted string int
  | OpOpenWebSocket proxy_url
  | OpWrite bytes
  | OpSendText bytes
  | OpDisconnectFromHost
  | OpClose
  | OpAbort
  | OpIgnoreSslErrors

text \<open>What the socket reports, and what the connection reports.\<close>

datatype socket_signal =
    SigDisconnected | SigEncrypted | SigError int | SigState socket_state | SigData bytes

datatype connection_signal =
    ConnectedChanged bool
  | StateChanged socket_state
  | DataReceived bytes
  | ErrorOccurred int

section \<open>Operations\<close>

definition newConnection :: "connection_type \<Rightarrow> proxy_url \<Rightarrow> proxy_connection" where
  "newConnection t url = \<lparr>con_type = t, con_serverUrl = url, con_connected = False, con_ssl = False\<rparr>"

definition setConnected :: "bool \<Rightarrow> proxy_connection \<Rightarrow> proxy_connection \<times> connection_signal list" where
  "setConnected connected c =
     (if con_connected c = connected then (c, [])
      else (c\<lparr>con_connected := connected\<rparr>, [ConnectedChanged connected]))"

text \<open>\<open>TcpSocketConnection\<close>.\<close>

definition tcpc_sendData :: "bytes \<Rightarrow> connection_op list" where
  "tcpc_sendData data = [OpWrite data]"

definition tcpc_connectServer :: "proxy_url \<Rightarrow> proxy_connection \<Rightarrow> proxy_connection \<times> connection_op list" where
  "tcpc_connectServer url c =
     (let c = c\<lparr>con_serverUrl := url\<rparr>
      in if pu_scheme url = ''tcp'' then (c, [OpConnectToHost (pu_host url) (pu_port url)])
         else (c\<lparr>con_ssl := True\<rparr>, [OpConnectToHostEncrypted (pu_host url) (pu_port url)]))"

definition tcpc_disconnectServer :: "connection_op list" where
  "tcpc_disconnectServer = [OpDisconnectFromHost, OpClose, OpAbort]"

definition tcpc_onDisconnected :: "proxy_connection \<Rightarrow> proxy_connection \<times> connection_signal list" where
  "tcpc_onDisconnected c = setConnected False c"

definition tcpc_onEncrypted :: "proxy_connection \<Rightarrow> proxy_connection \<times> connection_signal list" where
  "tcpc_onEncrypted c = setConnected True c"

definition tcpc_onError :: "int \<Rightarrow> connection_signal list" where
  "tcpc_onError e = [ErrorOccurred e]"

definition tcpc_onStateChanged ::
  "socket_state \<Rightarrow> proxy_connection \<Rightarrow> proxy_connection \<times> connection_signal list" where
  "tcpc_onStateChanged st c =
     (let (c', out) =
        (if st = ConnectedState then (if con_ssl c then (c, []) else setConnected True c)
         else setConnected False c)
      in (c', out @ [StateChanged st]))"

definition tcpc_onReadyRead :: "bytes \<Rightarrow> connection_signal list" where
  "tcpc_onReadyRead data = [DataReceived data]"

text \<open>\<open>WebSocketConnection\<close>; a message is the bytes of its text.\<close>

definition wsc_sendData :: "bytes \<Rightarrow> connection_op list" where
  "wsc_sendData data = [OpSendText data]"

definition wsc_connectServer :: "proxy_url \<Rightarrow> proxy_connection \<Rightarrow> proxy_connection \<times> connection_op list" where
  "wsc_connectServer url c =
     (c\<lparr>con_serverUrl := url\<rparr>, (if con_connected c then [OpClose] else []) @ [OpOpenWebSocket url])"

definition wsc_disconnectServer :: "connection_op list" where
  "wsc_disconnectServer = [OpClose]"

definition wsc_onDisconnected :: "proxy_connection \<Rightarrow> proxy_connection \<times> connection_signal list" where
  "wsc_onDisconnected c = setConnected False c"

definition wsc_onError :: "int \<Rightarrow> connection_signal list" where
  "wsc_onError e = [ErrorOccurred e]"

definition wsc_onStateChanged ::
  "socket_state \<Rightarrow> proxy_connection \<Rightarrow> proxy_connection \<times> connection_signal list" where
  "wsc_onStateChanged st c =
     (let (c', out) = setConnected (st = ConnectedState) c in (c', out @ [StateChanged st]))"

definition wsc_onTextMessageReceived :: "bytes \<Rightarrow> connection_signal list" where
  "wsc_onTextMessageReceived message = [DataReceived message]"

lemmas con_slot_defs = tcpc_sendData_def tcpc_connectServer_def tcpc_disconnectServer_def
  tcpc_onDisconnected_def tcpc_onEncrypted_def tcpc_onError_def tcpc_onStateChanged_def tcpc_onReadyRead_def
  wsc_sendData_def wsc_connectServer_def wsc_disconnectServer_def wsc_onDisconnected_def wsc_onError_def
  wsc_onStateChanged_def wsc_onTextMessageReceived_def

text \<open>The virtual functions.\<close>

definition con_sendData :: "bytes \<Rightarrow> proxy_connection \<Rightarrow> connection_op list" where
  "con_sendData data c =
     (case con_type c of
        ConnectionTypeTcpSocket \<Rightarrow> tcpc_sendData data
      | ConnectionTypeWebSocket \<Rightarrow> wsc_sendData data)"

definition con_ignoreSslErrors :: "proxy_connection \<Rightarrow> connection_op list" where
  "con_ignoreSslErrors c = [OpIgnoreSslErrors]"

definition con_connectServer :: "proxy_url \<Rightarrow> proxy_connection \<Rightarrow> proxy_connection \<times> connection_op list" where
  "con_connectServer url c =
     (case con_type c of
        ConnectionTypeTcpSocket \<Rightarrow> tcpc_connectServer url c
      | ConnectionTypeWebSocket \<Rightarrow> wsc_connectServer url c)"

definition con_disconnectServer :: "proxy_connection \<Rightarrow> connection_op list" where
  "con_disconnectServer c =
     (case con_type c of
        ConnectionTypeTcpSocket \<Rightarrow> tcpc_disconnectServer
      | ConnectionTypeWebSocket \<Rightarrow> wsc_disconnectServer)"

text \<open>The slots the constructors connect to the signals of the socket.\<close>

definition con_onStateChanged ::
  "socket_state \<Rightarrow> proxy_connection \<Rightarrow> proxy_connection \<times> connection_signal list" where
  "con_onStateChanged st c =
     (case con_type c of
        ConnectionTypeTcpSocket \<Rightarrow> tcpc_onStateChanged st c
      | ConnectionTypeWebSocket \<Rightarrow> wsc_onStateChanged st c)"

fun con_slot :: "socket_signal \<Rightarrow> proxy_connection \<Rightarrow> proxy_connection \<times> connection_signal list" where
  "con_slot SigDisconnected c =
     (case con_type c of
        ConnectionTypeTcpSocket \<Rightarrow> tcpc_onDisconnected c
      | ConnectionTypeWebSocket \<Rightarrow> wsc_onDisconnected c)"
| "con_slot SigEncrypted c =
     (case con_type c of
        ConnectionTypeTcpSocket \<Rightarrow> tcpc_onEncrypted c
      | ConnectionTypeWebSocket \<Rightarrow> (c, []))"
| "con_slot (SigError e) c =
     (c, case con_type c of
           ConnectionTypeTcpSocket \<Rightarrow> tcpc_onError e
         | ConnectionTypeWebSocket \<Rightarrow> wsc_onError e)"
| "con_slot (SigState st) c = con_onStateChanged st c"
| "con_slot (SigData d) c =
     (c, case con_type c of
           ConnectionTypeTcpSocket \<Rightarrow> tcpc_onReadyRead d
         | ConnectionTypeWebSocket \<Rightarrow> wsc_onTextMessageReceived d)"

text \<open>An encrypted connection is reported only when the encryption is established.\<close>

lemma con_slot_encrypted:
  assumes "con_type c = ConnectionTypeTcpSocket" "con_ssl c" "\<not> con_connected c"
    and "ConnectedChanged True \<in> set (snd (con_slot sig c))"
  shows "sig = SigEncrypted"
  using assms
  by (cases sig) (auto simp: setConnected_def con_onStateChanged_def con_slot_defs Let_def split: if_splits)

lemma con_slot_connected:
  "con_slot sig c = (c', out) \<Longrightarrow> ConnectedChanged b \<in> set out \<Longrightarrow>
     b = con_connected c' \<and> con_connected c \<noteq> con_connected c'"
  by (cases sig)
    (auto simp: setConnected_def con_onStateChanged_def con_slot_defs Let_def split: if_splits connection_type.splits)

end
