(* ===== verification/ClientJson.thy ===== *)
theory ClientJson
  imports ProxyClient
begin

text \<open>
  The JSON RPC client of the client library: \<open>jsonreply.{h,cpp}\<close> and
  \<open>proxyjsonrpcclient.{h,cpp}\<close>. A reply waits in \<open>jc_replies\<close> under the id of its request;
  the owner's slot for its \<open>finished\<close> signal is \<open>jr_slot\<close>.
\<close>

section \<open>Replies\<close>

datatype reply_slot = OnHelloFinished | OnRegistrationFinished | OnPingFinished | OnDisconnectFinished

record client_reply =
  jr_commandId :: int
  jr_nameSpace :: string
  jr_method :: string
  jr_params :: vmap
  jr_response :: vmap
  jr_slot :: "reply_slot option"

definition newReply :: "int \<Rightarrow> string \<Rightarrow> string \<Rightarrow> vmap \<Rightarrow> client_reply" where
  "newReply commandId nameSpace method params =
     \<lparr>jr_commandId = commandId, jr_nameSpace = nameSpace, jr_method = method, jr_params = params,
      jr_response = [], jr_slot = None\<rparr>"

definition requestMap :: "client_reply \<Rightarrow> vmap \<times> client_reply" where
  "requestMap r =
     (let request = qinsert ''method'' (VString (jr_nameSpace r @ ''.'' @ jr_method r))
            (qinsert ''id'' (VInt (jr_commandId r)) []);
          request = (if jr_params r \<noteq> [] then qinsert ''params'' (VMap (jr_params r)) request else request)
      in (request, r\<lparr>jr_commandId := jr_commandId r + 1\<rparr>))"

definition setResponse :: "vmap \<Rightarrow> client_reply \<Rightarrow> client_reply" where
  "setResponse response r = r\<lparr>jr_response := response\<rparr>"

section \<open>The client\<close>

record json_client =
  jc_commandId :: int
  jc_replies :: "(int, client_reply) qhash"
  jc_dataBuffer :: bytes

definition newJsonClient :: json_client where
  "newJsonClient = \<lparr>jc_commandId = 0, jc_replies = [], jc_dataBuffer = []\<rparr>"

text \<open>The bytes that \<open>sendRequest\<close> hands to the connection.\<close>

definition sendRequest :: "env \<Rightarrow> vmap \<Rightarrow> bool \<Rightarrow> bytes" where
  "sendRequest E request slipEnabled =
     (let data = env_toJson E (VMap request) @ [newline]
      in if slipEnabled
         then serializeData (buildFrame \<lparr>fr_socketAddress = 0, fr_data = data\<rparr>)
         else data)"

text \<open>What the five calls share; \<open>slot\<close> is what the caller connects to the reply.\<close>

definition callMethod ::
  "env \<Rightarrow> string \<Rightarrow> string \<Rightarrow> vmap \<Rightarrow> bool \<Rightarrow> reply_slot \<Rightarrow> json_client \<Rightarrow> bytes \<times> json_client" where
  "callMethod E nameSpace method params slipEnabled slot jc =
     (let (request, reply) = requestMap (newReply (jc_commandId jc) nameSpace method params)
      in (sendRequest E request slipEnabled,
          jc\<lparr>jc_replies := qinsert (jc_commandId jc) (reply\<lparr>jr_slot := Some slot\<rparr>) (jc_replies jc)\<rparr>))"

definition callHello :: "env \<Rightarrow> json_client \<Rightarrow> bytes \<times> json_client" where
  "callHello E = callMethod E ''RemoteProxy'' ''Hello'' [] False OnHelloFinished"

definition callRegisterServer :: "env \<Rightarrow> uuid \<Rightarrow> string \<Rightarrow> json_client \<Rightarrow> bytes \<times> json_client" where
  "callRegisterServer E serverUuid serverName =
     callMethod E ''TunnelProxy'' ''RegisterServer''
       (qinsert ''serverUuid'' (VString (env_uuidToString E serverUuid))
         (qinsert ''serverName'' (VString serverName) []))
       False OnRegistrationFinished"

definition callRegisterClient ::
  "env \<Rightarrow> uuid \<Rightarrow> string \<Rightarrow> uuid \<Rightarrow> json_client \<Rightarrow> bytes \<times> json_client" where
  "callRegisterClient E clientUuid clientName serverUuid =
     callMethod E ''TunnelProxy'' ''RegisterClient''
       (qinsert ''serverUuid'' (VString (env_uuidToString E serverUuid))
         (qinsert ''clientName'' (VString clientName)
           (qinsert ''clientUuid'' (VUuid clientUuid) [])))
       False OnRegistrationFinished"

definition callDisconnectClient :: "env \<Rightarrow> quint16 \<Rightarrow> json_client \<Rightarrow> bytes \<times> json_client" where
  "callDisconnectClient E socketAddress =
     callMethod E ''TunnelProxy'' ''DisconnectClient''
       (qinsert ''socketAddress'' (VInt (uint socketAddress)) []) True OnDisconnectFinished"

definition callPing :: "env \<Rightarrow> quint32 \<Rightarrow> json_client \<Rightarrow> bytes \<times> json_client" where
  "callPing E timestamp =
     callMethod E ''TunnelProxy'' ''Ping''
       (qinsert ''timestamp'' (VUInt (uint timestamp)) []) True OnPingFinished"

section \<open>What comes in\<close>

datatype json_signal =
    ReplyFinished client_reply
  | TunnelEstablished string string
  | TunnelProxyClientConnected string uuid string quint16
  | TunnelProxyClientDisconnected quint16

text \<open>\<open>toInt()\<close> without the flag is 0 where no number is found.\<close>

definition notificationSignals :: "env \<Rightarrow> vmap \<Rightarrow> json_signal list" where
  "notificationSignals E dataMap =
     (let parts = qsplit (CHR ''.'') (vtoString E (vvalue dataMap ''notification''));
          nameSpace = hd parts;
          notificationName = last parts;
          params = vtoMap (vvalue dataMap ''params'')
      in if nameSpace = ''RemoteProxy'' \<and> notificationName = ''TunnelEstablished'' then
           [TunnelEstablished (vtoString E (vvalue params ''name'')) (vtoString E (vvalue params ''uuid''))]
         else if nameSpace = ''TunnelProxy'' \<and> notificationName = ''ClientConnected'' then
           [TunnelProxyClientConnected (vtoString E (vvalue params ''clientName''))
              (vtoUuid E (vvalue params ''clientUuid'')) (vtoString E (vvalue params ''clientPeerAddress''))
              (ucast (vtoUInt E (vvalue params ''socketAddress'')))]
         else if nameSpace = ''TunnelProxy'' \<and> notificationName = ''ClientDisconnected'' then
           [TunnelProxyClientDisconnected (ucast (vtoUInt E (vvalue params ''socketAddress'')))]
         else [])"

definition jc_processMessage :: "env \<Rightarrow> vmap \<Rightarrow> json_client \<Rightarrow> json_client \<times> json_signal list" where
  "jc_processMessage E dataMap jc =
     (let commandId = vtoInt0 E (vvalue dataMap ''id'')
      in case map_of (jc_replies jc) commandId of
           Some reply \<Rightarrow>
             (jc\<lparr>jc_replies := qremove commandId (jc_replies jc)\<rparr>, [ReplyFinished (setResponse dataMap reply)])
         | None \<Rightarrow>
             (jc, if qcontains dataMap ''notification'' then notificationSignals E dataMap else []))"

definition jc_processDataPacket :: "env \<Rightarrow> bytes \<Rightarrow> json_client \<Rightarrow> json_client \<times> json_signal list" where
  "jc_processDataPacket E data jc =
     (case env_fromJson E data of
        Inl _ \<Rightarrow> (jc, [])
      | Inr jsonDoc \<Rightarrow> jc_processMessage E (vtoMap jsonDoc) jc)"

text \<open>
  The packets that \<open>processData\<close> hands to \<open>processDataPacket\<close>, one after the other; the
  owner's slots run between them.
\<close>

definition jc_packets :: "bytes \<Rightarrow> json_client \<Rightarrow> bytes list \<times> json_client" where
  "jc_packets data jc =
     (let (packets, rest) = json_feed (jc_dataBuffer jc) data
      in (packets, jc\<lparr>jc_dataBuffer := rest\<rparr>))"

section \<open>Ids\<close>

text \<open>Every request has the id of the client's counter, which no call changes.\<close>

lemma callMethod_commandId [simp]:
  "jc_commandId (snd (callMethod E ns m ps slip slot jc)) = jc_commandId jc"
  by (simp add: callMethod_def requestMap_def Let_def)

lemmas call_defs = callHello_def callRegisterServer_def callRegisterClient_def
  callDisconnectClient_def callPing_def

lemma callMethod_replies:
  "jc_replies (snd (callMethod E ns m ps slip slot jc)) =
     qinsert (jc_commandId jc)
       \<lparr>jr_commandId = jc_commandId jc + 1, jr_nameSpace = ns, jr_method = m, jr_params = ps,
        jr_response = [], jr_slot = Some slot\<rparr> (jc_replies jc)"
  by (simp add: callMethod_def requestMap_def newReply_def Let_def)

lemma jc_processMessage_commandId [simp]:
  "jc_commandId (fst (jc_processMessage E m jc)) = jc_commandId jc"
  by (simp add: jc_processMessage_def Let_def split: option.splits)

end
