(* ===== verification/SocketServer.thy ===== *)
theory SocketServer
  imports ProxyConnection ClientJson
begin

text \<open>
  \<open>tunnelproxy/tunnelproxysocketserver.{h,cpp}\<close> and \<open>tunnelproxysocket.{h,cpp}\<close> of the client
  library: a server behind the proxy. It connects, says Hello, registers, and from then on reads
  SLIP frames: those for address 0 are JSON RPC, the others are data of its clients. A timer
  reconnects it, another one keeps it alive. \<open>ss_outputs\<close> collects its signals and the calls on
  its socket, oldest first.
\<close>

section \<open>State\<close>

datatype server_state =
    StateConnecting | StateHostLookup | StateConnected | StateInitializing | StateRegister
  | StateRunning | StateDiconnecting | StateDisconnected

datatype server_error =
    ErrorNoError | ErrorConnectionError | ErrorInvalidAddress | ErrorNotConnected | ErrorNotRegistered

record tunnel_proxy_socket =
  ts_clientName :: string
  ts_clientUuid :: uuid
  ts_clientPeerAddress :: string
  ts_socketAddress :: quint16
  ts_connected :: bool

datatype server_output =
    SsStateChanged server_state
  | SsRunningChanged bool
  | SsErrorOccurred int
  | SsServerErrorOccurred server_error
  | SsClientConnected tunnel_proxy_socket
  | SsSocketDisconnected tunnel_proxy_socket
  | SsClientDisconnected tunnel_proxy_socket
  | SsDataReceived quint16 bytes
  | SsSocket connection_op
  | SsNullPointer

record socket_server =
  ss_serverUuid :: uuid
  ss_serverName :: string
  ss_connectionType :: connection_type
  ss_remoteProxyServer :: string
  ss_remoteProxyServerName :: string
  ss_remoteProxyServerVersion :: string
  ss_remoteProxyApiVersion :: string
  ss_running :: bool
  ss_serverUrl :: proxy_url
  ss_error :: int
  ss_serverError :: server_error
  ss_state :: server_state
  ss_reconnectTimer :: qtimer
  ss_keepAliveTimer :: qtimer
  ss_enabled :: bool
  ss_connection :: "proxy_connection option"
  ss_jsonClient :: "json_client option"
  ss_tunnelProxySockets :: "(quint16, tunnel_proxy_socket) qhash"
  ss_dataBuffer :: bytes
  ss_outputs :: "server_output list"

definition emptyProxyUrl :: proxy_url where
  "emptyProxyUrl = \<lparr>pu_scheme = [], pu_host = [], pu_port = -1, pu_valid = False\<rparr>"

text \<open>The constructor, with the timers of \<open>setupTimers\<close>.\<close>

definition newSocketServer :: "uuid \<Rightarrow> string \<Rightarrow> connection_type \<Rightarrow> socket_server" where
  "newSocketServer serverUuid serverName connectionType =
     \<lparr>ss_serverUuid = serverUuid, ss_serverName = serverName, ss_connectionType = connectionType,
      ss_remoteProxyServer = [], ss_remoteProxyServerName = [], ss_remoteProxyServerVersion = [],
      ss_remoteProxyApiVersion = [], ss_running = False, ss_serverUrl = emptyProxyUrl, ss_error = -1,
      ss_serverError = ErrorNoError, ss_state = StateDisconnected,
      ss_reconnectTimer = \<lparr>tm_interval = 5000, tm_singleShot = False, tm_active = False\<rparr>,
      ss_keepAliveTimer = \<lparr>tm_interval = 30000, tm_singleShot = False, tm_active = False\<rparr>,
      ss_enabled = False, ss_connection = None, ss_jsonClient = None, ss_tunnelProxySockets = [],
      ss_dataBuffer = [], ss_outputs = []\<rparr>"

definition newTunnelProxySocket :: "string \<Rightarrow> uuid \<Rightarrow> string \<Rightarrow> quint16 \<Rightarrow> tunnel_proxy_socket" where
  "newTunnelProxySocket clientName clientUuid clientPeerAddress socketAddress =
     \<lparr>ts_clientName = clientName, ts_clientUuid = clientUuid,
      ts_clientPeerAddress = clientPeerAddress, ts_socketAddress = socketAddress, ts_connected = True\<rparr>"

definition setDisconnected :: "tunnel_proxy_socket \<Rightarrow> tunnel_proxy_socket" where
  "setDisconnected t = t\<lparr>ts_connected := False\<rparr>"

definition ss_emit :: "server_output list \<Rightarrow> socket_server \<Rightarrow> socket_server" where
  "ss_emit outs ss = ss\<lparr>ss_outputs := ss_outputs ss @ outs\<rparr>"

section \<open>States and errors\<close>

definition ss_setRunning :: "bool \<Rightarrow> socket_server \<Rightarrow> socket_server" where
  "ss_setRunning running ss =
     (if ss_running ss = running then ss
      else (let ss = ss_emit [SsRunningChanged running] (ss\<lparr>ss_running := running\<rparr>)
            in if running then ss\<lparr>ss_keepAliveTimer := timer_start (ss_keepAliveTimer ss)\<rparr>
               else ss\<lparr>ss_keepAliveTimer := timer_stop (ss_keepAliveTimer ss)\<rparr>))"

definition ss_setState :: "server_state \<Rightarrow> socket_server \<Rightarrow> socket_server" where
  "ss_setState st ss =
     (if ss_state ss = st then ss
      else (let ss = ss_setRunning (st = StateRunning)
                       (ss_emit [SsStateChanged st] (ss\<lparr>ss_state := st\<rparr>))
            in if st = StateDisconnected \<and> ss_enabled ss
               then ss\<lparr>ss_reconnectTimer := timer_start (ss_reconnectTimer ss),
                       ss_keepAliveTimer := timer_stop (ss_keepAliveTimer ss)\<rparr>
               else ss))"

definition ss_setError :: "int \<Rightarrow> socket_server \<Rightarrow> socket_server" where
  "ss_setError e ss =
     (if ss_error ss = e then ss else ss_emit [SsErrorOccurred e] (ss\<lparr>ss_error := e\<rparr>))"

definition ss_setServerError :: "server_error \<Rightarrow> socket_server \<Rightarrow> socket_server" where
  "ss_setServerError e ss =
     (if ss_serverError ss = e then ss
      else ss_emit [SsServerErrorOccurred e] (ss\<lparr>ss_serverError := e\<rparr>))"

section \<open>Clients\<close>

definition ss_onTunnelProxyClientConnected ::
  "string \<Rightarrow> uuid \<Rightarrow> string \<Rightarrow> quint16 \<Rightarrow> socket_server \<Rightarrow> socket_server" where
  "ss_onTunnelProxyClientConnected clientName clientUuid clientPeerAddress socketAddress ss =
     (let t = newTunnelProxySocket clientName clientUuid clientPeerAddress socketAddress
      in ss_emit [SsClientConnected t]
           (ss\<lparr>ss_tunnelProxySockets := qinsert socketAddress t (ss_tunnelProxySockets ss)\<rparr>))"

definition ss_onTunnelProxyClientDisconnected :: "quint16 \<Rightarrow> socket_server \<Rightarrow> socket_server" where
  "ss_onTunnelProxyClientDisconnected socketAddress ss =
     (case map_of (ss_tunnelProxySockets ss) socketAddress of
        None \<Rightarrow> ss
      | Some t \<Rightarrow>
          (let t = setDisconnected t
           in ss_emit [SsSocketDisconnected t, SsClientDisconnected t]
                (ss\<lparr>ss_tunnelProxySockets := qremove socketAddress (ss_tunnelProxySockets ss)\<rparr>)))"

definition ss_cleanUp :: "socket_server \<Rightarrow> socket_server" where
  "ss_cleanUp ss =
     (let ss = fold ss_onTunnelProxyClientDisconnected (map fst (ss_tunnelProxySockets ss)) ss
      in ss_setState StateDisconnected
           (ss\<lparr>ss_jsonClient := None, ss_connection := None, ss_remoteProxyServer := [],
               ss_remoteProxyServerName := [], ss_remoteProxyServerVersion := [],
               ss_remoteProxyApiVersion := []\<rparr>))"

section \<open>Start and stop\<close>

definition ss_startServer :: "proxy_url \<Rightarrow> socket_server \<Rightarrow> bool \<times> socket_server" where
  "ss_startServer url ss =
     (if \<not> pu_valid url then (False, ss)
      else
        (let ss = ss_cleanUp (ss\<lparr>ss_serverUrl := url, ss_error := -1\<rparr>);
             (connection, ops) = con_connectServer url (newConnection (ss_connectionType ss) url)
         in (True, (ss_emit (map SsSocket ops)
              (ss\<lparr>ss_connection := Some connection, ss_jsonClient := Some newJsonClient\<rparr>))
                \<lparr>ss_enabled := True\<rparr>)))"

definition ss_stopServer :: "socket_server \<Rightarrow> socket_server" where
  "ss_stopServer ss =
     (let ss = ss\<lparr>ss_enabled := False, ss_reconnectTimer := timer_stop (ss_reconnectTimer ss)\<rparr>
      in case ss_connection ss of
           None \<Rightarrow> ss
         | Some c \<Rightarrow> ss_emit (map SsSocket (con_disconnectServer c)) ss)"

text \<open>\<open>m_connection->sendData\<close>, \<open>m_connection->disconnectServer\<close> and a call of the JSON client.\<close>

definition ss_send :: "bytes \<Rightarrow> socket_server \<Rightarrow> socket_server" where
  "ss_send data ss =
     (case ss_connection ss of
        None \<Rightarrow> ss_emit [SsNullPointer] ss
      | Some c \<Rightarrow> ss_emit (map SsSocket (con_sendData data c)) ss)"

definition ss_dropConnection :: "socket_server \<Rightarrow> socket_server" where
  "ss_dropConnection ss =
     (case ss_connection ss of
        None \<Rightarrow> ss_emit [SsNullPointer] ss
      | Some c \<Rightarrow> ss_emit (map SsSocket (con_disconnectServer c)) ss)"

definition ss_call :: "(json_client \<Rightarrow> bytes \<times> json_client) \<Rightarrow> socket_server \<Rightarrow> socket_server" where
  "ss_call call ss =
     (case ss_jsonClient ss of
        None \<Rightarrow> ss_emit [SsNullPointer] ss
      | Some jc \<Rightarrow> (let (data, jc') = call jc in ss_send data (ss\<lparr>ss_jsonClient := Some jc'\<rparr>)))"

definition ss_requestSocketDisconnect :: "env \<Rightarrow> quint16 \<Rightarrow> socket_server \<Rightarrow> socket_server" where
  "ss_requestSocketDisconnect E socketAddress ss = ss_call (callDisconnectClient E socketAddress) ss"

text \<open>\<open>TunnelProxySocket::writeData\<close>; its connection is the one of the server it was made by.\<close>

definition ts_writeData :: "bytes \<Rightarrow> tunnel_proxy_socket \<Rightarrow> socket_server \<Rightarrow> socket_server" where
  "ts_writeData data t ss =
     ss_send (serializeData (buildFrame \<lparr>fr_socketAddress = ts_socketAddress t, fr_data = data\<rparr>)) ss"

definition ts_disconnectSocket :: "env \<Rightarrow> tunnel_proxy_socket \<Rightarrow> socket_server \<Rightarrow> socket_server" where
  "ts_disconnectSocket E t ss = ss_requestSocketDisconnect E (ts_socketAddress t) ss"

section \<open>Slots\<close>

definition ss_onConnectionChanged :: "env \<Rightarrow> bool \<Rightarrow> socket_server \<Rightarrow> socket_server" where
  "ss_onConnectionChanged E connected ss =
     (if connected
      then (let ss = ss_setState StateConnected ss;
                ss = ss_setState StateInitializing (ss\<lparr>ss_serverError := ErrorNoError\<rparr>)
            in ss_call (callHello E) ss)
      else ss_cleanUp (ss_setServerError ErrorNotConnected (ss_setState StateDisconnected ss)))"

fun ss_onConnectionStateChanged :: "socket_state \<Rightarrow> socket_server \<Rightarrow> socket_server" where
  "ss_onConnectionStateChanged UnconnectedState ss = ss_setState StateDisconnected ss"
| "ss_onConnectionStateChanged HostLookupState ss = ss_setState StateHostLookup ss"
| "ss_onConnectionStateChanged ConnectingState ss = ss_setState StateConnecting ss"
| "ss_onConnectionStateChanged ConnectedState ss =
     (let ss = ss_setState StateConnected ss
      in ss\<lparr>ss_reconnectTimer := timer_stop (ss_reconnectTimer ss)\<rparr>)"
| "ss_onConnectionStateChanged ClosingState ss = ss_setState StateDiconnecting ss"
| "ss_onConnectionStateChanged BoundState ss = ss"
| "ss_onConnectionStateChanged ListeningState ss = ss"

definition ss_onHelloFinished :: "env \<Rightarrow> client_reply \<Rightarrow> socket_server \<Rightarrow> socket_server" where
  "ss_onHelloFinished E reply ss =
     (let response = jr_response reply
      in if vtoString E (vvalue response ''status'') \<noteq> ''success''
         then ss_setServerError ErrorConnectionError (ss_dropConnection ss)
         else
           (let params = vtoMap (vvalue response ''params'');
                ss = ss\<lparr>ss_remoteProxyServer := vtoString E (vvalue params ''server''),
                        ss_remoteProxyServerName := vtoString E (vvalue params ''name''),
                        ss_remoteProxyServerVersion := vtoString E (vvalue params ''version''),
                        ss_remoteProxyApiVersion := vtoString E (vvalue params ''apiVersion'')\<rparr>
            in ss_call (callRegisterServer E (ss_serverUuid ss) (ss_serverName ss))
                 (ss_setState StateRegister ss)))"

definition ss_onServerRegistrationFinished ::
  "env \<Rightarrow> client_reply \<Rightarrow> socket_server \<Rightarrow> socket_server" where
  "ss_onServerRegistrationFinished E reply ss =
     (let response = jr_response reply
      in if vtoString E (vvalue response ''status'') \<noteq> ''success''
         then ss_setServerError ErrorConnectionError (ss_dropConnection ss)
         else if vtoString E (vvalue (vtoMap (vvalue response ''params'')) ''tunnelProxyError'')
                   \<noteq> ''TunnelProxyErrorNoError''
         then ss_setServerError ErrorConnectionError (ss_dropConnection ss)
         else (ss_setState StateRunning ss)\<lparr>ss_serverError := ErrorNoError\<rparr>)"

definition ss_onJsonSignal :: "env \<Rightarrow> json_signal \<Rightarrow> socket_server \<Rightarrow> socket_server" where
  "ss_onJsonSignal E sig ss =
     (case sig of
        ReplyFinished reply \<Rightarrow>
          (case jr_slot reply of
             Some OnHelloFinished \<Rightarrow> ss_onHelloFinished E reply ss
           | Some OnRegistrationFinished \<Rightarrow> ss_onServerRegistrationFinished E reply ss
           | _ \<Rightarrow> ss)
      | TunnelProxyClientConnected name uuid peer address \<Rightarrow>
          ss_onTunnelProxyClientConnected name uuid peer address ss
      | TunnelProxyClientDisconnected address \<Rightarrow> ss_onTunnelProxyClientDisconnected address ss
      | TunnelEstablished _ _ \<Rightarrow> ss)"

fun ss_processPackets :: "env \<Rightarrow> bytes list \<Rightarrow> socket_server \<Rightarrow> socket_server" where
  "ss_processPackets E [] ss = ss"
| "ss_processPackets E (p # ps) ss =
     (case ss_jsonClient ss of
        None \<Rightarrow> ss_emit [SsNullPointer] ss
      | Some jc \<Rightarrow>
          (let (jc', sigs) = jc_processDataPacket E p jc
           in ss_processPackets E ps (fold (ss_onJsonSignal E) sigs (ss\<lparr>ss_jsonClient := Some jc'\<rparr>))))"

definition ss_processJson :: "env \<Rightarrow> bytes \<Rightarrow> socket_server \<Rightarrow> socket_server" where
  "ss_processJson E data ss =
     (case ss_jsonClient ss of
        None \<Rightarrow> ss_emit [SsNullPointer] ss
      | Some jc \<Rightarrow>
          (let (packets, jc') = jc_packets data jc
           in ss_processPackets E packets (ss\<lparr>ss_jsonClient := Some jc'\<rparr>)))"

section \<open>Frames\<close>

text \<open>
  The SLIP loop: the packets that decode, and the buffer left. Whatever stands in the buffer at an
  END byte is cleared.
\<close>

fun recv_loop :: "bytes \<Rightarrow> bytes \<Rightarrow> bytes list \<times> bytes" where
  "recv_loop buffer [] = ([], buffer)"
| "recv_loop buffer (b # bs) =
     (if b = ProtocolByteEnd then
        if buffer = [] then recv_loop buffer bs
        else (case deserializeData buffer of
                None \<Rightarrow> recv_loop [] bs
              | Some frameData \<Rightarrow>
                  (let (packets, rest) = recv_loop [] bs in (frameData # packets, rest)))
      else recv_loop (buffer @ [b]) bs)"

definition ss_onFrame :: "env \<Rightarrow> bytes \<Rightarrow> socket_server \<Rightarrow> socket_server" where
  "ss_onFrame E frameData ss =
     (let frame = parseFrame frameData
      in if fr_socketAddress frame = 0 then ss_processJson E (fr_data frame) ss
         else (case map_of (ss_tunnelProxySockets ss) (fr_socketAddress frame) of
                 None \<Rightarrow> ss
               | Some t \<Rightarrow> ss_emit [SsDataReceived (fr_socketAddress frame) (fr_data frame)] ss))"

definition ss_onConnectionDataAvailable :: "env \<Rightarrow> bytes \<Rightarrow> socket_server \<Rightarrow> socket_server" where
  "ss_onConnectionDataAvailable E data ss =
     (let ss = ss\<lparr>ss_keepAliveTimer := timer_start (ss_keepAliveTimer ss)\<rparr>
      in if ss_state ss \<noteq> StateRunning
         then (ss_processJson E data ss)\<lparr>ss_dataBuffer := []\<rparr>
         else
           (let (frames, rest) = recv_loop (ss_dataBuffer ss) data
            in (fold (ss_onFrame E) frames ss)\<lparr>ss_dataBuffer := rest\<rparr>))"

definition ss_onConnectionSocketError :: "int \<Rightarrow> socket_server \<Rightarrow> socket_server" where
  [simp]: "ss_onConnectionSocketError e ss = ss_setError e ss"

fun ss_onSignal :: "env \<Rightarrow> connection_signal \<Rightarrow> socket_server \<Rightarrow> socket_server" where
  "ss_onSignal E (ConnectedChanged b) ss = ss_onConnectionChanged E b ss"
| "ss_onSignal E (StateChanged st) ss = ss_onConnectionStateChanged st ss"
| "ss_onSignal E (DataReceived d) ss = ss_onConnectionDataAvailable E d ss"
| "ss_onSignal E (ErrorOccurred e) ss = ss_onConnectionSocketError e ss"

section \<open>Timers\<close>

definition ss_onReconnectTimeout :: "socket_server \<Rightarrow> socket_server" where
  "ss_onReconnectTimeout ss =
     (if \<not> tm_active (ss_reconnectTimer ss) then ss
      else if \<not> ss_enabled ss then ss\<lparr>ss_reconnectTimer := timer_stop (ss_reconnectTimer ss)\<rparr>
      else if ss_state ss = StateDisconnected then snd (ss_startServer (ss_serverUrl ss) ss)
      else ss)"

definition ss_onKeepAliveTimeout :: "env \<Rightarrow> quint32 \<Rightarrow> socket_server \<Rightarrow> socket_server" where
  "ss_onKeepAliveTimeout E timestamp ss =
     (if \<not> tm_active (ss_keepAliveTimer ss) then ss
      else if ss_state ss = StateRunning then ss_call (callPing E timestamp) ss
      else ss\<lparr>ss_keepAliveTimer := timer_stop (ss_keepAliveTimer ss)\<rparr>)"

section \<open>The state machine\<close>

text \<open>
  The calls of the application, the signals of the socket and of the timers. The application
  writes to a socket and disconnects it as long as the server has it. A connection object that was
  given up can still report that it is closing or closed. A socket has data only while it is connected.
\<close>

fun signal_possible :: "socket_signal \<Rightarrow> proxy_connection \<Rightarrow> bool" where
  "signal_possible (SigData _) c = con_connected c"
| "signal_possible _ c = True"

datatype server_event =
    SsStart proxy_url
  | SsStop
  | SsWriteData quint16 bytes
  | SsDisconnectSocket quint16
  | SsSignal socket_signal
  | SsGivenUpClosing
  | SsGivenUpClosed
  | SsReconnectTimeout
  | SsKeepAliveTimeout quint32

fun ss_step :: "env \<Rightarrow> socket_server \<Rightarrow> server_event \<Rightarrow> socket_server" where
  "ss_step E ss (SsStart url) = snd (ss_startServer url ss)"
| "ss_step E ss SsStop = ss_stopServer ss"
| "ss_step E ss (SsWriteData address data) =
     (case map_of (ss_tunnelProxySockets ss) address of None \<Rightarrow> ss | Some t \<Rightarrow> ts_writeData data t ss)"
| "ss_step E ss (SsDisconnectSocket address) =
     (case map_of (ss_tunnelProxySockets ss) address of None \<Rightarrow> ss | Some t \<Rightarrow> ts_disconnectSocket E t ss)"
| "ss_step E ss (SsSignal sig) =
     (case ss_connection ss of
        None \<Rightarrow> ss
      | Some c \<Rightarrow>
          if signal_possible sig c
          then (let (c', sigs) = con_slot sig c
                in fold (ss_onSignal E) sigs (ss\<lparr>ss_connection := Some c'\<rparr>))
          else ss)"
| "ss_step E ss SsGivenUpClosing = ss_onConnectionStateChanged ClosingState ss"
| "ss_step E ss SsGivenUpClosed = ss_onConnectionStateChanged UnconnectedState ss"
| "ss_step E ss SsReconnectTimeout = ss_onReconnectTimeout ss"
| "ss_step E ss (SsKeepAliveTimeout timestamp) = ss_onKeepAliveTimeout E timestamp ss"

section \<open>The SLIP reader\<close>

lemma recv_loop_append:
  "recv_loop buffer (xs @ ys) =
     (let (out, rest) = recv_loop buffer xs; (out', rest') = recv_loop rest ys in (out @ out', rest'))"
  by (induction buffer xs rule: recv_loop.induct) (auto simp: Let_def split: option.splits prod.splits)

interpretation recv_reader: byte_receiver recv_loop
  by unfold_locales (simp_all add: recv_loop_append)

lemma recv_loop_no_End:
  "ProtocolByteEnd \<notin> set xs \<Longrightarrow> recv_loop buffer xs = ([], buffer @ xs)"
  by (induction xs arbitrary: buffer) auto

lemma recv_loop_packet: "d \<noteq> [] \<Longrightarrow> recv_loop [] (serializeData d) = ([d], [])"
  by (simp add: serializeData_def recv_loop_append recv_loop_no_End deserialize_serialize_loop)

interpretation recv_link: frame_link recv_loop "[]" "\<lambda>f. serializeData (buildFrame f)" buildFrame "\<lambda>_. True"
  by unfold_locales (simp add: recv_loop_packet)

text \<open>An END byte brings the reader back to its start, whatever came before.\<close>

lemma recv_loop_resync: "snd (recv_loop buffer (xs @ [ProtocolByteEnd])) = []"
  by (simp add: recv_loop_append split: prod.splits option.splits)

end
