(* ===== verification/Streams.thy ===== *)
theory Streams
  imports Delivery SocketServer
begin

text \<open>
  Whole conversations through the proxy: the network may cut the bytes anywhere on both sides.
\<close>

section \<open>From a server to its clients\<close>

text \<open>What one frame makes the proxy send.\<close>

definition deliver :: "proxy_server \<Rightarrow> server_connection \<Rightarrow> Frame \<Rightarrow> effect list" where
  "deliver s sc f =
     (case getClientConnection sc (fr_socketAddress f) of
        None \<Rightarrow> []
      | Some p \<Rightarrow> [SendData (the (interfaceOf s p)) p (fr_data f)])"

lemma deliver_cong: "(\<And>p. interfaceOf t p = interfaceOf s p) \<Longrightarrow> deliver t sc f = deliver s sc f"
  by (simp add: deliver_def split: option.split)

lemma frame_delivers:
  assumes inv: "proxy_inv s" and sc: "map_of (ps_serverObjects s) q = Some sc"
    and c: "map_of (ps_proxyClients s) q = Some c" and a: "fr_socketAddress (parseFrame f) \<noteq> 0"
  shows "ps_effects (processFrame E q (tc_uuid c) f s) = ps_effects s @ deliver s sc (parseFrame f)"
    and "core (processFrame E q (tc_uuid c) f s) = core s"
    and "interfaceOf (processFrame E q (tc_uuid c) f s) p = interfaceOf s p"
    and "\<exists>c'. map_of (ps_proxyClients (processFrame E q (tc_uuid c) f s)) q = Some c' \<and> tc_uuid c' = tc_uuid c \<and>
      tc_slipEnabled c' = tc_slipEnabled c \<and> tc_dataBuffer c' = tc_dataBuffer c"
proof -
  have "pc_type c = TypeServer" using registry_server_object [OF inv sc] c by auto
  from server_frame_effects [OF inv c this sc, of f "fr_socketAddress (parseFrame f)" "fr_data (parseFrame f)" E] a
  show "ps_effects (processFrame E q (tc_uuid c) f s) = ps_effects s @ deliver s sc (parseFrame f)"
    by (simp add: deliver_def split: option.split)
  have same: "interfaceOf (addThroughput n (client_sendData x d s)) p = interfaceOf s p" for x n d
    by (auto simp: interfaceOf_def addThroughput_def client_sendData_def tc_sendData_def
        addTxDataCount_def split: option.split)
  have mine: "\<exists>c'. map_of (ps_proxyClients (addThroughput n (client_sendData x d s))) q = Some c' \<and> tc_uuid c' = tc_uuid c \<and>
      tc_slipEnabled c' = tc_slipEnabled c \<and> tc_dataBuffer c' = tc_dataBuffer c" for n x d
    using c by (auto simp: addThroughput_def client_sendData_def tc_sendData_def addTxDataCount_def split: option.split)
  show "core (processFrame E q (tc_uuid c) f s) = core s"
    "interfaceOf (processFrame E q (tc_uuid c) f s) p = interfaceOf s p"
    "\<exists>c'. map_of (ps_proxyClients (processFrame E q (tc_uuid c) f s)) q = Some c' \<and> tc_uuid c' = tc_uuid c \<and>
      tc_slipEnabled c' = tc_slipEnabled c \<and> tc_dataBuffer c' = tc_dataBuffer c"
    using a same mine c by (auto simp: core_forward processFrame_def Let_def split: option.split)
qed

lemma frames_deliver:
  assumes "proxy_inv s" "map_of (ps_serverObjects s) q = Some sc" "map_of (ps_proxyClients s) q = Some c"
    and "\<forall>f \<in> set fs. fr_socketAddress (parseFrame f) \<noteq> 0" "u = tc_uuid c"
  shows "ps_effects (processFrames E q u fs s) = ps_effects s @ concat (map (\<lambda>f. deliver s sc (parseFrame f)) fs) \<and>
    core (processFrames E q u fs s) = core s \<and> (\<forall>p. interfaceOf (processFrames E q u fs s) p = interfaceOf s p) \<and>
    (\<exists>c'. map_of (ps_proxyClients (processFrames E q u fs s)) q = Some c' \<and>
      tc_slipEnabled c' = tc_slipEnabled c \<and> tc_dataBuffer c' = tc_dataBuffer c)"
  using assms
proof (induction fs arbitrary: s c)
  case Nil
  then show ?case by simp
next
  case (Cons f fs)
  let ?t = "processFrame E q u f s"
  have a: "fr_socketAddress (parseFrame f) \<noteq> 0" using Cons.prems(4) by simp
  note F = frame_delivers [OF Cons.prems(1-3) a, of E, folded Cons.prems(5)]
  obtain c' where c': "map_of (ps_proxyClients ?t) q = Some c'" "tc_uuid c' = u"
      "tc_slipEnabled c' = tc_slipEnabled c" "tc_dataBuffer c' = tc_dataBuffer c"
    using F(4) Cons.prems(5) by auto
  have sc: "map_of (ps_serverObjects ?t) q = Some sc"
    using Cons.prems(2) unfolding addressing_core(1) [OF F(2)] .
  have "deliver ?t sc g = deliver s sc g" for g
    by (rule deliver_cong) (rule F(3))
  with Cons.IH [OF proxy_inv_same [OF F(2) Cons.prems(1)] sc c'(1)] Cons.prems(4) c' F
  show ?case by simp
qed

lemma chunk_delivers:
  assumes inv: "proxy_inv s" and sc: "map_of (ps_serverObjects s) q = Some sc"
    and c: "map_of (ps_proxyClients s) q = Some c" "tc_slipEnabled c"
    and r: "slip_loop (tc_dataBuffer c) data = (fs, rest)" "\<forall>f \<in> set fs. fr_socketAddress (parseFrame f) \<noteq> 0"
  shows "ps_effects (onClientDataAvailable E q data s) = ps_effects s @ concat (map (\<lambda>f. deliver s sc (parseFrame f)) fs) \<and>
    core (onClientDataAvailable E q data s) = core s \<and>
    (\<forall>p. interfaceOf (onClientDataAvailable E q data s) p = interfaceOf s p) \<and>
    (\<exists>c'. map_of (ps_proxyClients (onClientDataAvailable E q data s)) q = Some c' \<and>
      tc_slipEnabled c' \<and> tc_dataBuffer c' = rest)"
proof -
  let ?c = "client_addRxDataCount (int (length data)) c"
  let ?c' = "?c\<lparr>tc_dataBuffer := rest\<rparr>"
  let ?s = "updClient q (\<lambda>_. ?c) s"
  let ?t = "updClient q (\<lambda>_. ?c') ?s"
  have server: "pc_type c = TypeServer"
    using registry_server_object [OF inv sc] c(1) by auto
  have core: "clientCore ?c' = clientCore ?c" by (simp add: clientCore_def)
  have s: "proxy_inv ?s" "map_of (ps_proxyClients ?s) q = Some ?c" "core ?s = core s"
    using proxy_inv_updClient [OF inv c(1) clientCore_addRx] c(1) core_updClient_const [OF c(1) clientCore_addRx]
    by simp_all
  have t: "proxy_inv ?t" "core ?t = core s"
    using proxy_inv_updClient [OF s(1,2) core] core_updClient_const [OF s(2) core] s(3) by simp_all
  have step: "onClientDataAvailable E q data s = processFrames E q (tc_uuid ?c') fs ?t"
    using c server r(1) by (simp add: onClientDataAvailable_def processData_def Let_def)
  have same: "interfaceOf ?t p = interfaceOf s p" for p
    using c(1) by (simp add: interfaceOf_def)
  then have d: "deliver ?t sc f = deliver s sc f" for f by (rule deliver_cong)
  have e: "ps_effects ?t = ps_effects s" by simp
  have "map_of (ps_serverObjects ?t) q = Some sc" "map_of (ps_proxyClients ?t) q = Some ?c'"
    using sc c(1) by simp_all
  from frames_deliver [OF t(1) this r(2) refl, of E] show ?thesis
    unfolding step d e t(2) same using c(2) by auto
qed

lemma stream_delivers:
  assumes "proxy_inv s" "map_of (ps_serverObjects s) q = Some sc" "map_of (ps_proxyClients s) q = Some c" "tc_slipEnabled c"
    and "feed_all slip_loop (tc_dataBuffer c) cs = (fs, rest)" "\<forall>f \<in> set fs. fr_socketAddress (parseFrame f) \<noteq> 0"
  shows "ps_effects (run_events (proxy_step E) s (map (DataAvailable q) cs)) =
    ps_effects s @ concat (map (\<lambda>f. deliver s sc (parseFrame f)) fs)"
  using assms
proof (induction cs arbitrary: s c fs)
  case Nil
  then show ?case by simp
next
  case (Cons data cs)
  let ?t = "onClientDataAvailable E q data s"
  obtain fs1 rest1 fs2 where r: "slip_loop (tc_dataBuffer c) data = (fs1, rest1)"
      "feed_all slip_loop rest1 cs = (fs2, rest)" "fs = fs1 @ fs2"
    using Cons.prems(5) by (auto simp: Let_def split: prod.splits)
  have "\<forall>f \<in> set fs1. fr_socketAddress (parseFrame f) \<noteq> 0" using Cons.prems(6) r(3) by simp
  note C = chunk_delivers [OF Cons.prems(1-4) r(1) this, of E]
  obtain c' where c': "map_of (ps_proxyClients ?t) q = Some c'" "tc_slipEnabled c'" "tc_dataBuffer c' = rest1"
    using C by blast
  have t: "proxy_inv ?t" using proxy_inv_same [of ?t s] C Cons.prems(1) by blast
  have core: "core ?t = core s" using C by blast
  have sc: "map_of (ps_serverObjects ?t) q = Some sc"
    unfolding addressing_core(1) [OF core] by (rule Cons.prems(2))
  have same: "deliver ?t sc f = deliver s sc f" for f
    by (rule deliver_cong) (use C in blast)
  have "ps_effects ?t = ps_effects s @ concat (map (\<lambda>f. deliver s sc (parseFrame f)) fs1)"
    using C by blast
  moreover have "\<forall>f \<in> set fs2. fr_socketAddress (parseFrame f) \<noteq> 0" using Cons.prems(6) r(3) by simp
  ultimately show ?case
    using Cons.IH [OF t sc c'(1,2) r(2) [folded c'(3)]] by (simp add: r(3) same)
qed

text \<open>C9: A registered server sends any number of frames without END and ESC bytes to its clients, and
  the network cuts the stream anywhere: every frame is delivered once, unchanged and in order, to the
  client that has its address, and frames for unknown addresses are dropped.\<close>

theorem server_stream_is_delivered:
  assumes "map_of (ps_serverObjects (proxy_run E cfg es)) q = Some sc"
    and "map_of (ps_proxyClients (proxy_run E cfg es)) q = Some c" "tc_slipEnabled c" "tc_dataBuffer c = []"
    and "\<forall>f \<in> set fs. escapeFree f \<and> fr_socketAddress f \<noteq> 0"
    and "concat chunks = concat (map (\<lambda>f. serializeData (buildFrame f)) fs)"
  shows "ps_effects (run_events (proxy_step E) (proxy_run E cfg es) (map (DataAvailable q) chunks)) =
    ps_effects (proxy_run E cfg es) @ concat (map (deliver (proxy_run E cfg es) sc) fs)"
proof -
  have plain: "parseFrame (serialize_loop (buildFrame f)) = f" if "f \<in> set fs" for f
    using wireFrame_plain assms(5) that by (simp add: wireFrame_def)
  have "feed_all slip_loop [] chunks = (map (\<lambda>f. serialize_loop (buildFrame f)) fs, [])"
    by (rule slip_link.packets_arrive_chunked [OF _ assms(6)]) simp
  from stream_delivers [OF run_inv assms(1-3) this [folded assms(4)], of E] plain assms(5) show ?thesis
    by (simp add: comp_def cong: map_cong)
qed

theorem server_stream_is_delivered_witness:
  "ps_effects (run_events (proxy_step demo_env) (demo demo_tunnel)
      (map (DataAvailable 10) [[0, 1, 5], [6, 0xC0, 0], [1, 7, 0xC0]])) =
    ps_effects (demo demo_tunnel) @ [SendData TransportTcp 11 [5, 6], SendData TransportTcp 11 [7]]"
proof -
  obtain c where c: "map_of (ps_proxyClients (demo demo_tunnel)) 10 = Some c" "tc_slipEnabled c" "tc_dataBuffer c = []"
    using demo_server_client by blast
  have plain: "\<forall>f \<in> set [\<lparr>fr_socketAddress = 1, fr_data = [5, 6]\<rparr>, \<lparr>fr_socketAddress = 1, fr_data = [7]\<rparr>].
      escapeFree f \<and> fr_socketAddress f \<noteq> 0"
    by (simp add: escapeFree_def buildFrame_def stream_write_u16_def protocol_bytes)
  have "concat [[0, 1, 5], [6, 0xC0, 0], [1, 7, 0xC0]] = concat (map (\<lambda>f. serializeData (buildFrame f))
      [\<lparr>fr_socketAddress = 1, fr_data = [5, 6]\<rparr>, \<lparr>fr_socketAddress = 1, fr_data = [7]\<rparr>])"
    by (simp add: serializeData_def buildFrame_def stream_write_u16_def serialize_byte_def protocol_bytes)
  from server_stream_is_delivered [OF demo_tunnel_facts(2) c plain this] demo_tunnel_facts(5) show ?thesis
    by (simp add: deliver_def getClientConnection_def)
qed

section \<open>From a client to the application behind its server\<close>

lemma client_chunk_delivers:
  assumes inv: "proxy_inv s" and cc: "map_of (ps_clientObjects s) k = Some cc" "cc_serverConnection cc = Some q"
  shows "ps_effects (onClientDataAvailable E k data s) = ps_effects s @ [SendData (the (interfaceOf s q)) q
      (serializeData (buildFrame \<lparr>fr_socketAddress = cc_socketAddress cc, fr_data = data\<rparr>))]"
    and "core (onClientDataAvailable E k data s) = core s"
    and "interfaceOf (onClientDataAvailable E k data s) p = interfaceOf s p"
proof -
  obtain c where c: "map_of (ps_proxyClients s) k = Some c" "pc_type c = TypeClient"
    using registry_client_object [OF inv cc(1)] by blast
  let ?c = "client_addRxDataCount (int (length data)) c"
  let ?s = "updClient k (\<lambda>_. ?c) s"
  have step: "onClientDataAvailable E k data s = tunnelToServer ?c data ?s"
    using c by (simp add: onClientDataAvailable_def Let_def)
  show "ps_effects (onClientDataAvailable E k data s) = ps_effects s @ [SendData (the (interfaceOf s q)) q
      (serializeData (buildFrame \<lparr>fr_socketAddress = cc_socketAddress cc, fr_data = data\<rparr>))]"
    using client_data_effects [OF inv c cc(1)] cc(2) by simp
  show "core (onClientDataAvailable E k data s) = core s"
    unfolding step core_tunnelToServer by (rule core_updClient_const [OF c(1) clientCore_addRx])
  have "interfaceOf (tunnelToServer x data t) p = interfaceOf t p" for x t
    by (auto simp: tunnelToServer_def interfaceOf_def addThroughput_def client_sendData_def tc_sendData_def
        addTxDataCount_def split: option.split)
  then show "interfaceOf (onClientDataAvailable E k data s) p = interfaceOf s p"
    unfolding step using c(1) by (simp add: interfaceOf_def)
qed

lemma client_stream_delivers:
  assumes "proxy_inv s" "map_of (ps_clientObjects s) k = Some cc" "cc_serverConnection cc = Some q"
  shows "ps_effects (run_events (proxy_step E) s (map (DataAvailable k) ds)) = ps_effects s @
    map (\<lambda>d. SendData (the (interfaceOf s q)) q
      (serializeData (buildFrame \<lparr>fr_socketAddress = cc_socketAddress cc, fr_data = d\<rparr>))) ds"
  using assms
proof (induction ds arbitrary: s)
  case Nil
  then show ?case by simp
next
  case (Cons d ds)
  note C = client_chunk_delivers [OF Cons.prems, of E d]
  have "map_of (ps_clientObjects (onClientDataAvailable E k d s)) k = Some cc"
    unfolding addressing_core(2) [OF C(2)] by (rule Cons.prems(2))
  from Cons.IH [OF proxy_inv_same [OF C(2) Cons.prems(1)] this Cons.prems(3)] show ?case
    by (simp add: C(1,3))
qed

text \<open>The receiving side: frames for sockets the server has become data signals of these sockets.\<close>

definition received :: "socket_server \<Rightarrow> Frame \<Rightarrow> bool" where
  "received ss f = (fr_socketAddress f \<noteq> 0 \<and> map_of (ss_tunnelProxySockets ss) (fr_socketAddress f) \<noteq> None)"

lemma frames_received:
  "\<forall>f \<in> set fs. received ss (parseFrame f) \<Longrightarrow> fold (ss_onFrame E) fs ss =
     ss_emit (map (\<lambda>f. SsDataReceived (fr_socketAddress (parseFrame f)) (fr_data (parseFrame f))) fs) ss"
proof (induction fs arbitrary: ss)
  case Nil
  then show ?case by (simp add: ss_emit_def)
next
  case (Cons f fs)
  have "received (ss_emit outs ss) g = received ss g" for outs g
    by (simp add: received_def ss_emit_def)
  with Cons show ?case
    by (auto simp: ss_onFrame_def received_def Let_def ss_emit_def)
qed

lemma stream_received:
  assumes "ss_state ss = StateRunning" "feed_all recv_loop (ss_dataBuffer ss) cs = (fs, rest)"
    and "\<forall>f \<in> set fs. received ss (parseFrame f)"
  shows "ss_outputs (fold (ss_onConnectionDataAvailable E) cs ss) = ss_outputs ss @
    map (\<lambda>f. SsDataReceived (fr_socketAddress (parseFrame f)) (fr_data (parseFrame f))) fs"
  using assms
proof (induction cs arbitrary: ss fs)
  case Nil
  then show ?case by simp
next
  case (Cons c cs)
  obtain fs1 rest1 fs2 where r: "recv_loop (ss_dataBuffer ss) c = (fs1, rest1)"
      "feed_all recv_loop rest1 cs = (fs2, rest)" "fs = fs1 @ fs2"
    using Cons.prems(2) by (auto simp: Let_def split: prod.splits)
  define t where "t = ss_onConnectionDataAvailable E c ss"
  let ?k = "ss\<lparr>ss_keepAliveTimer := timer_start (ss_keepAliveTimer ss)\<rparr>"
  have "\<forall>f \<in> set fs1. received ?k (parseFrame f)"
    using Cons.prems(3) r(3) by (simp add: received_def)
  then have t: "t = (ss_emit (map (\<lambda>f. SsDataReceived (fr_socketAddress (parseFrame f)) (fr_data (parseFrame f))) fs1) ?k)
      \<lparr>ss_dataBuffer := rest1\<rparr>"
    using Cons.prems(1) r(1) by (simp add: t_def ss_onConnectionDataAvailable_def Let_def frames_received)
  have "\<forall>f \<in> set fs2. received t (parseFrame f)"
    using Cons.prems(3) r(3) by (simp add: t received_def ss_emit_def)
  from Cons.IH [OF _ _ this] r Cons.prems(1) show ?case
    unfolding fold_simps(2) comp_def t_def [symmetric] by (simp add: t ss_emit_def)
qed

text \<open>C5: End to end: whatever a tunnelled client sends, in whatever chunks the proxy's socket delivers
  it, and however the network cuts the bytes the proxy sends to the server, the socket server on the
  other side gives the application exactly these bytes, in order, on the socket of this client.\<close>

theorem end_to_end:
  assumes "map_of (ps_clientObjects (proxy_run E cfg es)) k = Some cc" "cc_serverConnection cc = Some q"
    and "ss_state ss = StateRunning" "ss_dataBuffer ss = []"
    and "cc_socketAddress cc \<noteq> 0" "map_of (ss_tunnelProxySockets ss) (cc_socketAddress cc) = Some socket"
  shows "\<exists>wire. ps_effects (run_events (proxy_step E) (proxy_run E cfg es) (map (DataAvailable k) ds)) =
      ps_effects (proxy_run E cfg es) @ map (SendData (the (interfaceOf (proxy_run E cfg es) q)) q) wire \<and>
    (\<forall>cs. concat cs = concat wire \<longrightarrow>
      ss_outputs (fold (ss_onConnectionDataAvailable F) cs ss) = ss_outputs ss @ map (SsDataReceived (cc_socketAddress cc)) ds)"
proof -
  let ?f = "\<lambda>d. \<lparr>fr_socketAddress = cc_socketAddress cc, fr_data = d\<rparr>"
  let ?wire = "map (\<lambda>d. serializeData (buildFrame (?f d))) ds"
  have "ss_outputs (fold (ss_onConnectionDataAvailable F) cs ss) =
      ss_outputs ss @ map (SsDataReceived (cc_socketAddress cc)) ds" if cs: "concat cs = concat ?wire" for cs
  proof -
    have "feed_all recv_loop (ss_dataBuffer ss) cs = (map buildFrame (map ?f ds), [])"
      unfolding assms(4) by (rule recv_link.packets_arrive_chunked) (simp_all add: cs comp_def)
    from stream_received [OF assms(3) this, of F] assms(5,6) show ?thesis
      by (simp add: parse_build received_def comp_def)
  qed
  moreover have "ps_effects (run_events (proxy_step E) (proxy_run E cfg es) (map (DataAvailable k) ds)) =
      ps_effects (proxy_run E cfg es) @ map (SendData (the (interfaceOf (proxy_run E cfg es) q)) q) ?wire"
    using client_stream_delivers [OF run_inv assms(1,2), of E ds] by (simp add: comp_def)
  ultimately show ?thesis by blast
qed

text \<open>A socket server on connection 10, with the socket of the client.\<close>

definition demo_socketServer :: socket_server where
  "demo_socketServer = (newSocketServer 100 ''nymea'' ConnectionTypeTcpSocket)
     \<lparr>ss_state := StateRunning, ss_tunnelProxySockets := [(1, newTunnelProxySocket ''app'' 200 ''10.0.0.2'' 1)]\<rparr>"

theorem end_to_end_witness:
  "\<exists>wire. ps_effects (run_events (proxy_step demo_env) (demo demo_tunnel) (map (DataAvailable 11) [[0xC0], [1, 2]])) =
      ps_effects (demo demo_tunnel) @ map (SendData TransportTcp 10) wire \<and>
    (\<forall>cs. concat cs = concat wire \<longrightarrow>
      ss_outputs (fold (ss_onConnectionDataAvailable demo_env) cs demo_socketServer) =
        [SsDataReceived 1 [0xC0], SsDataReceived 1 [1, 2]])"
  using end_to_end [OF demo_tunnel_facts(1), of 10 demo_socketServer "newTunnelProxySocket ''app'' 200 ''10.0.0.2'' 1"
      "[[0xC0], [1, 2]]"] demo_tunnel_facts(4)
  by (simp add: demo_socketServer_def newSocketServer_def)

end
