(* ===== verification/JsonFraming.thy ===== *)
theory JsonFraming
  imports ProxyClient
begin

text \<open>
  What the JSON branch of the packet reassembly gives for a stream of JSON objects, each followed
  by a newline, as both sides of the protocol write them: \<open>QJsonDocument::toJson\<close> in compact
  form has no newline of its own. The reassembly looks at braces only, so a cut right after an
  inner closing brace is taken for the end of an object; for every other way to cut the stream the
  objects come out whole and in order.
\<close>

section \<open>Streams of objects\<close>

definition json_message :: "bytes \<Rightarrow> bool" where
  "json_message m = (m \<noteq> [] \<and> hd m = braceOpen \<and> last m = braceClose \<and> newline \<notin> set m)"

definition json_stream :: "bytes list \<Rightarrow> bytes" where
  "json_stream ms = concat (map (\<lambda>m. m @ [newline]) ms)"

text \<open>No chunk ends with a closing brace that the newline does not follow.\<close>

fun cuts_ok :: "bytes \<Rightarrow> bytes list \<Rightarrow> bool" where
  "cuts_ok prev [] = True"
| "cuts_ok prev (c # cs) =
     ((prev @ c \<noteq> [] \<and> last (prev @ c) = braceClose \<longrightarrow>
        concat cs \<noteq> [] \<and> hd (concat cs) = newline) \<and>
      cuts_ok (prev @ c) cs)"

text \<open>The newline that separates two objects can end up on either side of a packet.\<close>

definition trim_newline :: "bytes \<Rightarrow> bytes" where
  "trim_newline p = filter (\<lambda>b. b \<noteq> newline) p"

lemma json_bytes_distinct [simp]:
  "braceOpen \<noteq> braceClose" "braceClose \<noteq> braceOpen" "braceOpen \<noteq> newline" "newline \<noteq> braceOpen"
  "braceClose \<noteq> newline" "newline \<noteq> braceClose"
  by (simp_all add: braceOpen_def braceClose_def newline_def)

lemma json_message_butlast:
  assumes "json_message m"
  shows "m = butlast m @ [braceClose]" "newline \<notin> set (butlast m)"
proof -
  from assms show "m = butlast m @ [braceClose]"
    unfolding json_message_def by (metis append_butlast_last_id)
  from assms show "newline \<notin> set (butlast m)"
    unfolding json_message_def by (blast dest: in_set_butlastD)
qed

lemma json_stream_simps [simp]:
  "json_stream [] = []" "json_stream (m # ms) = m @ newline # json_stream ms"
  by (simp_all add: json_stream_def)

lemma trim_newline_id: "newline \<notin> set m \<Longrightarrow> trim_newline m = m"
  by (auto simp: trim_newline_def filter_id_conv)

lemma trim_newline_append [simp]: "trim_newline (a @ b) = trim_newline a @ trim_newline b"
  by (simp add: trim_newline_def)

lemma trim_newline_Nl [simp]: "trim_newline [newline] = []" "trim_newline [] = []"
  by (simp_all add: trim_newline_def)

lemma cuts_ok_mono: "cuts_ok b cs \<Longrightarrow> a = [] \<or> b \<noteq> [] \<and> last a = last b \<Longrightarrow> cuts_ok a cs"
proof (induction cs arbitrary: a b)
  case Nil
  then show ?case by simp
next
  case (Cons c cs)
  have "cuts_ok (a @ c) cs"
    by (rule Cons.IH [of "b @ c"]) (use Cons.prems in \<open>auto simp: last_append\<close>)
  with Cons.prems show ?case
    by (auto simp: last_append split: if_splits)
qed

lemma hd_json_stream:
  "\<forall>m \<in> set ms. json_message m \<Longrightarrow> json_stream ms \<noteq> [] \<Longrightarrow> hd (json_stream ms) = braceOpen"
  by (cases ms) (auto simp: json_message_def)

section \<open>Splitting\<close>

lemma indexOf_separator:
  "newline \<notin> set xs \<Longrightarrow>
     indexOf [braceClose, newline, braceOpen] (xs @ braceClose # newline # braceOpen # t) = Some (length xs)"
proof (induction xs)
  case Nil
  then show ?case by simp
next
  case (Cons x xs)
  have "take 3 (x # xs @ braceClose # newline # braceOpen # t) \<noteq> [braceClose, newline, braceOpen]"
    using Cons.prems by (cases xs) auto
  with Cons show ?case by (simp add: numeral_3_eq_3)
qed

lemma indexOf_no_separator:
  "newline \<notin> set (butlast xs) \<Longrightarrow> indexOf [braceClose, newline, braceOpen] xs = None"
proof (induction xs)
  case Nil
  then show ?case by simp
next
  case (Cons x xs)
  have "take 3 (x # xs) \<noteq> [braceClose, newline, braceOpen]"
    using Cons.prems by (cases xs rule: list.exhaust [case_names Nil Cons]) (auto split: if_splits simp: take_Cons')
  moreover have "newline \<notin> set (butlast xs)"
    using Cons.prems by (auto split: if_splits)
  ultimately show ?case using Cons.IH by (simp add: numeral_3_eq_3)
qed

lemma json_split_last:
  "newline \<notin> set (butlast xs) \<Longrightarrow> json_split xs = ([], xs)"
  by (simp add: json_split.simps indexOf_no_separator)

lemma json_split_lead:
  assumes "lead = [] \<or> lead = [newline]" "newline \<notin> set (butlast xs)"
  shows "json_split (lead @ xs) = ([], lead @ xs)"
proof (cases "lead = []")
  case True
  with assms show ?thesis by (simp add: json_split_last)
next
  case False
  with assms have "indexOf [braceClose, newline, braceOpen] (lead @ xs) = None"
    by (simp add: indexOf_no_separator)
  then show ?thesis by (simp add: json_split.simps)
qed

lemma json_split_cons:
  assumes "lead = [] \<or> lead = [newline]" "json_message m" "r \<noteq> []" "hd r = braceOpen"
  shows "json_split (lead @ m @ newline # r) =
    (let (out, rest) = json_split r in ((lead @ m) # out, rest))"
proof -
  from assms(3,4) obtain t where r: "r = braceOpen # t" by (cases r) auto
  obtain b where m: "m = b @ [braceClose]" "newline \<notin> set b"
    using json_message_butlast [OF assms(2)] by blast
  define i where "i = length lead + length b"
  have at: "indexOf [braceClose, newline, braceOpen] (b @ braceClose # newline # braceOpen # t)
      = Some (length b)"
    by (rule indexOf_separator) (rule m(2))
  have "indexOf [braceClose, newline, braceOpen] (lead @ m @ newline # r) = Some i"
    using assms(1) by (elim disjE) (simp_all add: i_def at m r)
  then show ?thesis
    by (subst json_split.simps) (simp add: i_def m)
qed

section \<open>One chunk\<close>

text \<open>
  \<open>q\<close> is what the buffer holds of the objects \<open>ns\<close> after the chunk arrived, \<open>rem\<close>
  what is still to come.
\<close>

lemma json_feed_chunk:
  assumes "\<forall>m \<in> set ns. json_message m" "lead = [] \<or> lead = [newline]"
    and "q @ rem = json_stream ns"
    and "q \<noteq> [] \<and> last q = braceClose \<longrightarrow> rem \<noteq> [] \<and> hd rem = newline"
    and "json_feed [] (lead @ q) = (out, rest)"
  shows "\<exists>j. map trim_newline out = take j ns \<and>
    ((\<exists>lead' p. rest = lead' @ p \<and> (lead' = [] \<or> lead' = [newline]) \<and> newline \<notin> set p \<and>
        p @ rem = json_stream (drop j ns) \<and> (p = [] \<or> q \<noteq> [] \<and> last p = last q)) \<or>
     rest = [] \<and> rem = newline # json_stream (drop j ns))"
  using assms
proof (induction ns arbitrary: lead q out)
  case Nil
  then have "q = []" "rem = []" by auto
  with Nil have "out = []" "rest = lead"
    by (auto simp: json_feed_def json_split_last endsWith_def)
  with \<open>q = []\<close> \<open>rem = []\<close> Nil.prems(2) show ?case by auto
next
  case (Cons m ns)
  have m: "json_message m" "newline \<notin> set m" and trim: "trim_newline (lead @ m) = m"
    using Cons.prems(1,2) by (auto simp: json_message_def trim_newline_id)
  from Cons.prems(3) have eq: "q @ rem = m @ newline # json_stream ns" by simp
  consider (partial) t where "m = q @ t" "t \<noteq> []" | (whole) "q = m"
    | (ended) "q = m @ [newline]" | (further) q' where "q = m @ newline # q'" "q' \<noteq> []"
    using eq by (auto simp: append_eq_append_conv2 append_eq_Cons_conv Cons_eq_append_conv) 
  then show ?case
  proof cases
    case partial
    then have nl: "newline \<notin> set q" using m by simp
    have rem: "rem = t @ newline # json_stream ns" using eq partial by simp
    have "last q \<noteq> braceClose" if "q \<noteq> []"
    proof
      assume "last q = braceClose"
      with that Cons.prems(4) rem partial have "hd t = newline" by simp
      with partial m show False by (cases t) auto
    qed
    moreover have "json_split (lead @ q) = ([], lead @ q)"
      using Cons.prems(2) nl by (auto intro!: json_split_lead dest: in_set_butlastD)
    ultimately have "out = []" "rest = lead @ q"
      using Cons.prems(2,5) nl
      by (auto simp: json_feed_def endsWith_single endsWith_append_iff append_eq_append_conv2
          append_eq_Cons_conv Cons_eq_append_conv split: if_splits)
    with Cons.prems(2) nl rem partial show ?thesis
      by (intro exI [of _ 0]) auto
  next
    case whole
    have "json_split (lead @ m) = ([], lead @ m)"
      using Cons.prems(2) m by (auto intro!: json_split_lead dest: in_set_butlastD)
    moreover have "endsWith (lead @ m) [braceClose]"
      using m by (simp add: endsWith_single json_message_def)
    ultimately have "out = [lead @ m]" "rest = []"
      using Cons.prems(5) whole by (auto simp: json_feed_def)
    with eq whole trim show ?thesis by (intro exI [of _ 1]) auto
  next
    case ended
    have "json_split (lead @ m @ [newline]) = ([], lead @ m @ [newline])"
      using Cons.prems(2) m by (intro json_split_lead) (auto simp: butlast_append)
    moreover have "endsWith (lead @ m @ [newline]) [braceClose, newline]"
      unfolding endsWith_append_iff
      by (rule exI [of _ "lead @ butlast m"]) (use json_message_butlast(1) [OF m(1)] in simp)
    ultimately have "out = [lead @ m @ [newline]]" "rest = []"
      using Cons.prems(5) ended by (auto simp: json_feed_def)
    with eq ended trim show ?thesis by (intro exI [of _ 1]) auto
  next
    case further
    from eq further have eq': "q' @ rem = json_stream ns" by simp
    with further(2) have "hd q' = braceOpen"
      using Cons.prems(1) hd_json_stream [of ns] by (metis append_is_Nil_conv hd_append2 set_subset_Cons subsetD)
    obtain out' rest' where f: "json_feed [] ([] @ q') = (out', rest')" by fastforce
    with Cons.prems(2,5) m further \<open>hd q' = braceOpen\<close> have out: "out = (lead @ m) # out'" "rest = rest'"
      by (auto simp: json_feed_def json_split_cons Let_def split: prod.splits if_splits)
    have "\<exists>j. map trim_newline out' = take j ns \<and>
      ((\<exists>lead' p. rest = lead' @ p \<and> (lead' = [] \<or> lead' = [newline]) \<and> newline \<notin> set p \<and>
          p @ rem = json_stream (drop j ns) \<and> (p = [] \<or> q' \<noteq> [] \<and> last p = last q')) \<or>
       rest = [] \<and> rem = newline # json_stream (drop j ns))"
      by (rule Cons.IH [of "[]"]) (use Cons.prems eq' f out further in auto)
    then obtain j where "map trim_newline out' = take j ns"
      "(\<exists>lead' p. rest = lead' @ p \<and> (lead' = [] \<or> lead' = [newline]) \<and> newline \<notin> set p \<and>
          p @ rem = json_stream (drop j ns) \<and> (p = [] \<or> q' \<noteq> [] \<and> last p = last q')) \<or>
       rest = [] \<and> rem = newline # json_stream (drop j ns)" by blast
    with out trim further show ?thesis by (intro exI [of _ "Suc j"]) auto
  qed
qed

section \<open>All chunks\<close>

lemma json_feed_buffer: "json_feed buffer data = json_feed [] (buffer @ data)"
  by (simp add: json_feed_def)

text \<open>The state between two chunks: \<open>rem\<close> is what is still to come of the objects \<open>ns\<close>.\<close>

definition json_pending :: "bytes \<Rightarrow> bytes \<Rightarrow> bytes \<Rightarrow> bytes list \<Rightarrow> bool" where
  "json_pending buffer p rem ns =
     ((\<exists>lead. buffer = lead @ p \<and> (lead = [] \<or> lead = [newline]) \<and> newline \<notin> set p \<and>
         p @ rem = json_stream ns) \<or>
      buffer = [] \<and> p = [] \<and> rem = newline # json_stream ns)"

lemma json_pending_chunk:
  assumes "\<forall>m \<in> set ns. json_message m" "json_pending buffer p (c @ rem) ns"
    and "p @ c \<noteq> [] \<and> last (p @ c) = braceClose \<longrightarrow> rem \<noteq> [] \<and> hd rem = newline"
    and "json_feed buffer c = (out, rest)"
  shows "\<exists>j p'. map trim_newline out = take j ns \<and> json_pending rest p' rem (drop j ns) \<and>
    (p' = [] \<or> p @ c \<noteq> [] \<and> last p' = last (p @ c))"
proof -
  have core: ?thesis if h1: "buffer @ c = lead @ q" and h2: "lead = [] \<or> lead = [newline]"
    and h3: "q @ rem = json_stream ns" and h4: "q \<noteq> [] \<longrightarrow> p @ c \<noteq> [] \<and> last q = last (p @ c)" for lead q
  proof -
    have "q \<noteq> [] \<and> last q = braceClose \<longrightarrow> rem \<noteq> [] \<and> hd rem = newline"
      using h4 assms(3) by metis
    moreover have "json_feed [] (lead @ q) = (out, rest)"
      using assms(4) json_feed_buffer [of buffer c] h1 by simp
    ultimately obtain j where "map trim_newline out = take j ns"
      "(\<exists>lead' p'. rest = lead' @ p' \<and> (lead' = [] \<or> lead' = [newline]) \<and> newline \<notin> set p' \<and>
          p' @ rem = json_stream (drop j ns) \<and> (p' = [] \<or> q \<noteq> [] \<and> last p' = last q)) \<or>
       rest = [] \<and> rem = newline # json_stream (drop j ns)"
      using json_feed_chunk [OF assms(1) h2 h3] by blast
    then show ?thesis
      unfolding json_pending_def using h4 by metis
  qed
  from assms(2) consider (inside) lead where "buffer = lead @ p" "lead = [] \<or> lead = [newline]"
      "p @ c @ rem = json_stream ns"
    | (ended) "buffer = []" "p = []" "c @ rem = newline # json_stream ns"
    unfolding json_pending_def by blast
  then show ?thesis
  proof cases
    case inside
    then show ?thesis by (intro core [of lead "p @ c"]) auto
  next
    case ended
    show ?thesis
    proof (cases c)
      case Nil
      with ended assms(4) have "out = []" "rest = []"
        by (auto simp: json_feed_def json_split_last endsWith_def)
      with ended Nil show ?thesis
        by (intro exI [of _ 0] exI [of _ "[]"]) (simp add: json_pending_def)
    next
      case (Cons x c')
      with ended show ?thesis by (intro core [of "[newline]" c']) auto
    qed
  qed
qed

lemma json_feed_all_pending:
  assumes "\<forall>m \<in> set ns. json_message m" "json_pending buffer p (concat cs) ns" "cuts_ok p cs"
    and "feed_all json_feed buffer cs = (out, rest)"
  shows "map trim_newline out = ns \<and> (rest = [] \<or> rest = [newline])"
  using assms
proof (induction cs arbitrary: buffer p ns out)
  case Nil
  then have "ns = []"
    by (cases ns) (auto simp: json_pending_def)
  with Nil show ?case by (auto simp: json_pending_def)
next
  case (Cons c cs)
  obtain out1 rest1 where f: "json_feed buffer c = (out1, rest1)" by fastforce
  obtain out2 where g: "feed_all json_feed rest1 cs = (out2, rest)" "out = out1 @ out2"
    using Cons.prems(4) f by (auto simp: Let_def split: prod.splits)
  obtain j p' where j: "map trim_newline out1 = take j ns" "json_pending rest1 p' (concat cs) (drop j ns)"
    "p' = [] \<or> p @ c \<noteq> [] \<and> last p' = last (p @ c)"
    using json_pending_chunk [OF Cons.prems(1) _ _ f, of p "concat cs"] Cons.prems(2,3) by auto
  have "cuts_ok p' cs"
    by (rule cuts_ok_mono [of "p @ c"]) (use Cons.prems(3) j(3) in auto)
  with Cons.IH [OF _ j(2) _ g(1)] Cons.prems(1)
  have "map trim_newline out2 = drop j ns \<and> (rest = [] \<or> rest = [newline])"
    by (auto dest: in_set_dropD)
  with j(1) g(2) show ?case by (metis append_take_drop_id map_append)
qed

lemma json_feed_all_stream:
  assumes "\<forall>m \<in> set ms. json_message m" "concat cs = json_stream ms" "cuts_ok [] cs"
  shows "map trim_newline (fst (feed_all json_feed [] cs)) = ms"
    and "snd (feed_all json_feed [] cs) = [] \<or> snd (feed_all json_feed [] cs) = [newline]"
proof -
  obtain out rest where r: "feed_all json_feed [] cs = (out, rest)" by fastforce
  have "json_pending [] [] (concat cs) ms"
    using assms(2) by (simp add: json_pending_def)
  with json_feed_all_pending [OF assms(1) _ assms(3) r] r
  show "map trim_newline (fst (feed_all json_feed [] cs)) = ms"
    and "snd (feed_all json_feed [] cs) = [] \<or> snd (feed_all json_feed [] cs) = [newline]"
    by auto
qed

end
