(* ===== verification/FramingProperties.thy ===== *)
theory FramingProperties
  imports Addresses TunnelProxy JsonFraming
begin

text \<open>
  What the framing promises to both sides of a tunnel: frames survive the SLIP encoding, the
  decoder accepts nothing but encodings, JSON objects are found in a stream, and a client's address
  is free when it gets it.
\<close>

section \<open>SLIP\<close>

text \<open>C27: A frame that was sent comes back: what stands before the END byte of the encoded frame
  is decoded to the bytes of the frame, which parse to its address and its data. There is one END
  byte, the last one.\<close>

theorem frame_roundtrip:
  "\<exists>packet. serializeData (buildFrame f) = packet @ [ProtocolByteEnd] \<and> ProtocolByteEnd \<notin> set packet \<and>
     map_option parseFrame (deserializeData packet) = Some f"
  by (intro exI [of _ "serialize_loop (buildFrame f)"])
    (simp add: serializeData_def deserialize_serialize_loop parse_build)

text \<open>C28: The decoder accepts a packet (the bytes before an END byte) exactly when it is the
  encoding of what the decoder returns, or such an encoding with a dangling ESC byte at its end.\<close>

theorem decoder_accepts_encodings:
  assumes "ProtocolByteEnd \<notin> set packet"
  shows "deserializeData packet = Some out \<longleftrightarrow>
    out \<noteq> [] \<and> (packet = serialize_loop out \<or> packet = serialize_loop out @ [ProtocolByteEsc])"
proof
  assume "deserializeData packet = Some out"
  then have "deserialize_loop False [] packet = Some out" "out \<noteq> []"
    by (auto simp: deserializeData_def split: option.splits if_splits)
  with deserialize_loop_inverse [of False "[]" packet out] assms
  show "out \<noteq> [] \<and> (packet = serialize_loop out \<or> packet = serialize_loop out @ [ProtocolByteEsc])"
    by auto
next
  assume *: "out \<noteq> [] \<and> (packet = serialize_loop out \<or> packet = serialize_loop out @ [ProtocolByteEsc])"
  have "deserialize_loop False [] (serialize_loop out @ t) = deserialize_loop False out t" for t
    using deserialize_loop_serialize [of "[]" out t] by simp
  from this [of "[]"] this [of "[ProtocolByteEsc]"] * show "deserializeData packet = Some out"
    by (auto simp: deserializeData_def)
qed

theorem decoder_accepts_encodings_witness:
  "deserializeData [1, ProtocolByteEsc] = Some [1]"
  using decoder_accepts_encodings [of "[1, ProtocolByteEsc]" "[1]"]
  by (simp add: serialize_byte_def protocol_bytes)

text \<open>The encoding of \<open>n\<close> bytes has between \<open>n + 1\<close> and \<open>2 n + 1\<close> bytes: one for
  each byte, one more for each END or ESC byte among them, and the END byte.\<close>

theorem encoding_length:
  "length (serializeData d) =
     length d + length (filter (\<lambda>b. b = ProtocolByteEnd \<or> b = ProtocolByteEsc) d) + 1 \<and>
   length d < length (serializeData d) \<and> length (serializeData d) \<le> 2 * length d + 1"
  using length_filter_le [of "\<lambda>b. b = ProtocolByteEnd \<or> b = ProtocolByteEsc" d]
  by (simp add: serializeData_def length_serialize_loop)

section \<open>JSON\<close>

text \<open>C29: The objects of a stream, each followed by a newline as both sides write them, come out
  whole and in order however the stream is cut, as long as no chunk ends with a closing brace inside
  an object; nothing but a newline stays behind.\<close>

theorem json_stream_is_split:
  assumes "\<forall>m \<in> set ms. json_message m" "concat chunks = json_stream ms" "cuts_ok [] chunks"
  shows "map trim_newline (fst (feed_all json_feed [] chunks)) = ms \<and>
    snd (feed_all json_feed [] chunks) \<in> {[], [newline]}"
  using json_feed_all_stream [OF assms] by simp

theorem json_stream_is_split_witness:
  "map trim_newline (fst (feed_all json_feed [] [[123, 1], [125, 10, 123], [2, 125]  @ [10]])) =
     [[123, 1, 125], [123, 2, 125]]"
  using json_stream_is_split [of "[[123, 1, 125], [123, 2, 125]]" "[[123, 1], [125, 10, 123], [2, 125] @ [10]]"]
  by (simp add: json_message_def json_stream_def braceOpen_def braceClose_def newline_def)

lemma indexOf_split: "indexOf pat xs = Some i \<Longrightarrow> \<exists>a b. xs = a @ pat @ b \<and> length a = i"
proof (induction pat xs arbitrary: i rule: indexOf.induct)
  case (1 pat)
  then show ?case by (simp split: if_splits)
next
  case (2 pat x xs)
  show ?case
  proof (cases "take (length pat) (x # xs) = pat")
    case True
    have "x # xs = pat @ drop (length pat) (x # xs)"
      using True append_take_drop_id [of "length pat" "x # xs"] by metis
    moreover have "i = 0" using "2.prems" True by (simp split: if_splits)
    ultimately show ?thesis by (intro exI [of _ "[]"] exI [of _ "drop (length pat) (x # xs)"]) simp
  next
    case False
    with "2.prems" obtain j where "indexOf pat xs = Some j" "i = Suc j"
      by (auto split: if_splits)
    with "2.IH" [OF False] obtain a b where "xs = a @ pat @ b" "length a = j" by blast
    with \<open>i = Suc j\<close> show ?thesis by (intro exI [of _ "x # a"] exI [of _ b]) auto
  qed
qed

text \<open>C30: The loop that splits the buffer ends: every packet takes its closing brace and the newline
  after it from the buffer, so there is at most one for every two bytes, and no byte is lost: the
  packets and what stays in the buffer make up the buffer.\<close>

theorem json_loop_ends:
  "2 * length (fst (json_split buffer)) \<le> length buffer \<and>
   concat (map (\<lambda>p. p @ [newline]) (fst (json_split buffer))) @ snd (json_split buffer) = buffer"
proof (induction buffer rule: json_split.induct)
  case (1 buffer)
  show ?case
  proof (cases "indexOf [braceClose, newline, braceOpen] buffer")
    case None
    then show ?thesis by (simp add: json_split.simps)
  next
    case (Some i)
    then obtain a b where buffer: "buffer = a @ [braceClose, newline, braceOpen] @ b" "length a = i"
      using indexOf_split by blast
    then have cut: "drop (i + 2) buffer = braceOpen # b" "take (i + 1) buffer = a @ [braceClose]" by simp_all
    from 1 [OF Some, unfolded cut] have IH: "2 * length (fst (json_split (braceOpen # b))) \<le> length (braceOpen # b)"
      "concat (map (\<lambda>p. p @ [newline]) (fst (json_split (braceOpen # b)))) @ snd (json_split (braceOpen # b)) = braceOpen # b"
      by simp_all
    have "json_split buffer = ((a @ [braceClose]) # fst (json_split (braceOpen # b)), snd (json_split (braceOpen # b)))"
      by (subst json_split.simps) (simp add: Some cut [simplified] split_beta)
    with IH show ?thesis by (simp add: buffer(1))
  qed
qed

text \<open>A chunk that ends with the closing brace of an inner object is taken for a packet: the
  object \<open>{{}}\<close> cut after its first closing brace becomes two packets, of which neither is the
  object.\<close>

theorem json_object_is_torn:
  "feed_all json_feed [] [[braceOpen, braceOpen, braceClose], [braceClose, newline]] =
     ([[braceOpen, braceOpen, braceClose], [braceClose, newline]], [])"
  by code_simp

section \<open>Addresses\<close>

text \<open>C31: As long as a server has at most 98 clients, the address a new client gets is used by no
  other client of the server and is neither the address of the JSON RPC server nor the invalid one,
  wherever the counter of addresses is.\<close>

theorem new_address_is_free:
  assumes "qwf (sc_clientConnectionsAddresses sc)" "sc_connectionLimit sc = 100"
    and "length (sc_clientConnectionsAddresses sc) \<le> 98"
  shows "\<not> qcontains (sc_clientConnectionsAddresses sc) (fst (getFreeAddress sc)) \<and>
    fst (getFreeAddress sc) \<noteq> 0 \<and> fst (getFreeAddress sc) \<noteq> 0xFFFF"
  using getFreeAddress_free [OF assms] by (simp add: takenAddress_def reservedAddress_def)

text \<open>A server whose counter is about to wrap, with one client.\<close>

definition wrapping_server :: server_connection where
  "wrapping_server = (newServerConnection 1 2 [])
     \<lparr>sc_currentAddressCounter := 0xFFFE, sc_clientConnectionsAddresses := [(1, 7)]\<rparr>"

theorem new_address_is_free_witness:
  "\<not> qcontains (sc_clientConnectionsAddresses wrapping_server) (fst (getFreeAddress wrapping_server)) \<and>
   fst (getFreeAddress wrapping_server) \<noteq> 0 \<and> fst (getFreeAddress wrapping_server) \<noteq> 0xFFFF"
  by (rule new_address_is_free) (simp_all add: wrapping_server_def newServerConnection_def qwf_def)

text \<open>The bound is tight: with 99 clients whose addresses come before the end of the address
  space, the search for a free address ends at the address of the JSON RPC server.\<close>

theorem addresses_run_out:
  "fst (getFreeAddress ((newServerConnection 1 2 '''')
     \<lparr>sc_currentAddressCounter := 65435,
      sc_clientConnectionsAddresses := map (\<lambda>i. (word_of_int i, 7)) [65436..65534]\<rparr>)) = 0"
  by code_simp

lemma run_everyone_addressed:
  assumes "\<forall>n \<le> length es. \<not> someone_crowded (proxy_run E cfg (take n es))"
  shows "everyone_addressed (proxy_run E cfg es)"
  using assms
proof (induction es rule: rev_induct)
  case Nil
  show ?case by (simp add: everyone_addressed_def addressed_def newTunnelProxyServer_def registerHandler_def)
next
  case (snoc e es)
  have "everyone_addressed (proxy_run E cfg es)"
  proof (rule snoc.IH, intro allI impI)
    fix n assume "n \<le> length es"
    with snoc.prems [rule_format, of n] show "\<not> someone_crowded (proxy_run E cfg (take n es))" by simp
  qed
  moreover have "\<not> someone_crowded (proxy_step E (proxy_run E cfg es) e)"
    using snoc.prems [rule_format, of "Suc (length es)"] by (simp add: run_events_append)
  ultimately show ?case
    using everyone_addressed_step [OF run_inv] by (simp add: run_events_append)
qed

text \<open>C20: As long as no server ever has 100 clients, every client in a tunnel is found by its server
  under the address it has, which is not a reserved one: no frame for it can get lost, and no two
  clients of a server share an address.\<close>

theorem every_tunnel_is_addressed:
  assumes "\<forall>n \<le> length es. \<not> someone_crowded (proxy_run E cfg (take n es))"
    and "map_of (ps_clientObjects (proxy_run E cfg es)) k = Some cc" "cc_serverConnection cc = Some q"
  shows "\<exists>sc. map_of (ps_serverObjects (proxy_run E cfg es)) q = Some sc \<and>
    getClientConnection sc (cc_socketAddress cc) = Some k \<and> cc_socketAddress cc \<notin> {0, 0xFFFF}"
  using addressed_D [OF run_everyone_addressed [OF assms(1), unfolded everyone_addressed_def] assms(2,3)]
  by (simp add: reservedAddress_def)

text \<open>A server has at most as many clients as the proxy has connections, and an event adds one
  connection at most: a short run crowds nobody.\<close>

lemma clients_connected:
  assumes inv: "proxy_inv s" and q: "map_of (ps_serverObjects s) q = Some sc"
  shows "length (sc_clientConnections sc) \<le> card (dom (tr_role (registry_of s)))"
proof -
  let ?U = "map_of (sc_clientConnections sc)"
  have linked: "\<exists>cc. map_of (ps_clientObjects s) p = Some cc \<and> cc_clientUuid cc = u" if "?U u = Some p" for u p
    using linksOk_D(2) [OF registry_inv_D(8) [OF proxy_inv_registry [OF inv]] q that] by blast
  have "card (dom ?U) \<le> card (dom (tr_role (registry_of s)))"
  proof (rule card_inj_on_le)
    show "inj_on (\<lambda>u. the (?U u)) (dom ?U)"
    proof (rule inj_onI)
      fix u v assume "u \<in> dom ?U" "v \<in> dom ?U" "the (?U u) = the (?U v)"
      with linked [of u] linked [of v] show "u = v" by fastforce
    qed
    show "(\<lambda>u. the (?U u)) ` dom ?U \<subseteq> dom (tr_role (registry_of s))"
      using linked registry_client_object [OF inv] by fastforce
    show "finite (dom (tr_role (registry_of s)))"
      by (simp add: registry_of_def dom_map_option finite_dom_map_of)
  qed
  then show ?thesis
    using proxy_inv_server(3) [OF inv q]
    by (simp add: qwf_def dom_map_of_conv_image_fst distinct_card flip: set_map)
qed

lemma connections_of_ops:
  "dom (tr_role (foldl registry_step r ops)) \<subseteq> dom (tr_role r) \<union> op_connection ` set ops"
proof (induction ops arbitrary: r)
  case (Cons op ops)
  have "dom (tr_role (registry_step r op)) \<subseteq> insert (op_connection op) (dom (tr_role r))"
    by (cases op) (auto split: option.split)
  with Cons.IH [of "registry_step r op"] show ?case by auto
qed simp

lemma connections_of_run: "card (dom (tr_role (registry_of (proxy_run E cfg es)))) \<le> length es"
proof (induction es rule: rev_induct)
  case Nil
  show ?case by (simp add: registry_start [unfolded registry_of_def] registry_start emptyRegistry_def)
next
  case (snoc e es)
  let ?s = "proxy_run E cfg es"
  have "dom (tr_role (registry_of (proxy_step E ?s e))) \<subseteq> insert (event_connection e) (dom (tr_role (registry_of ?s)))"
  proof -
    obtain ops where ops: "\<forall>op \<in> set ops. op_connection op = event_connection e"
        "registry_of (proxy_step E ?s e) = foldl registry_step (registry_of ?s) ops"
      using simulated_step [OF run_inv, of e] unfolding simulated_def by blast
    then have "op_connection ` set ops \<subseteq> {event_connection e}" by blast
    with connections_of_ops [of "registry_of ?s" ops] show ?thesis unfolding ops(2) by blast
  qed
  moreover have "finite (dom (tr_role (registry_of ?s)))"
    by (simp add: registry_of_def dom_map_option finite_dom_map_of)
  ultimately have "card (dom (tr_role (registry_of (proxy_step E ?s e)))) \<le>
      card (insert (event_connection e) (dom (tr_role (registry_of ?s))))"
    by (intro card_mono) auto
  also have "\<dots> \<le> Suc (card (dom (tr_role (registry_of ?s))))" using \<open>finite _\<close> by (simp add: card_insert_if)
  finally have "card (dom (tr_role (registry_of (proxy_step E ?s e)))) \<le> Suc (card (dom (tr_role (registry_of ?s))))" .
  with snoc.IH show ?case unfolding run_events_append by (simp del: registry_simps)
qed

lemma short_run_calm: "length es < 100 \<Longrightarrow> \<not> someone_crowded (proxy_run E cfg es)"
  using clients_connected [OF run_inv] connections_of_run [of E cfg es] unfolding someone_crowded_def crowded_def
  by fastforce

lemma demo_not_crowded: "\<forall>n \<le> length demo_tunnel. \<not> someone_crowded (demo (take n demo_tunnel))"
proof -
  have "length demo_tunnel = 4" by code_simp
  then show ?thesis by (intro allI impI short_run_calm) simp
qed

theorem every_tunnel_is_addressed_witness:
  "\<exists>sc. map_of (ps_serverObjects (demo demo_tunnel)) 10 = Some sc \<and> getClientConnection sc 1 = Some 11"
  using every_tunnel_is_addressed [OF demo_not_crowded demo_tunnel_facts(1), of 10] by simp

end
