(* ===== verification/Transports.thy ===== *)
theory Transports
  imports ProxyData
begin

text \<open>
  \<open>server/transportinterface.{h,cpp}\<close>: the interface the proxy has to its transports. A
  transport keeps the sockets of its clients in a hash from client ids; it turns what its sockets
  do into the signals the proxy listens to, and the calls of the proxy into operations on the
  sockets. The locale states what each transport promises, and that then the signals follow the
  protocol the proxy relies on: a client connects once, sends only while it is connected, and
  disconnects once.
\<close>

section \<open>Sockets\<close>

text \<open>A socket is a pointer to Qt's socket object; these are the calls on it that have an effect.\<close>

type_synonym socket = nat

datatype socket_op =
    SockWrite socket bytes
  | SockSendText socket bytes
  | SockFlush socket
  | SockClose socket
  | SockCloseReason socket string
  | SockAbort socket
  | SockStartEncryption socket

fun op_socket :: "socket_op \<Rightarrow> socket" where
  "op_socket (SockWrite x _) = x"
| "op_socket (SockSendText x _) = x"
| "op_socket (SockFlush x) = x"
| "op_socket (SockClose x) = x"
| "op_socket (SockCloseReason x _) = x"
| "op_socket (SockAbort x) = x"
| "op_socket (SockStartEncryption x) = x"

fun op_payload :: "socket_op \<Rightarrow> bytes" where
  "op_payload (SockWrite _ d) = d"
| "op_payload (SockSendText _ d) = d"
| "op_payload _ = []"

fun op_closes :: "socket_op \<Rightarrow> bool" where
  "op_closes (SockClose _) = True"
| "op_closes (SockCloseReason _ _) = True"
| "op_closes (SockAbort _) = True"
| "op_closes _ = False"

text \<open>The name and the url of the base class.\<close>

record server_url =
  url_scheme :: string
  url_host :: string
  url_port :: quint16

record transport_base =
  tr_serverName :: string
  tr_serverUrl :: server_url

definition setServerUrl :: "server_url \<Rightarrow> 'a transport_base_scheme \<Rightarrow> 'a transport_base_scheme" where
  "setServerUrl url t = t\<lparr>tr_serverUrl := url\<rparr>"

definition emptyUrl :: server_url where
  "emptyUrl = \<lparr>url_scheme = [], url_host = [], url_port = 0\<rparr>"

section \<open>The table of clients\<close>

type_synonym client_table = "(uuid, socket) qhash"

text \<open>No client and no socket occurs twice.\<close>

definition tableOk :: "client_table \<Rightarrow> bool" where
  "tableOk h = (qwf h \<and> distinct (map snd h) \<and> nullUuid \<notin> fst ` set h)"

lemma tableOk_qwf: "tableOk h \<Longrightarrow> qwf h"
  by (simp add: tableOk_def)

lemma qkey_table:
  assumes "tableOk h" "map_of h k = Some x"
  shows "qkey h x = Some k"
proof -
  have kx: "(k, x) \<in> set h"
    using assms by (simp add: qwf_map_of_eq tableOk_def)
  then obtain k' where k': "qkey h x = Some k'"
    by (cases "qkey h x") (force simp: qkey_None)+
  then have "(k', x) \<in> set h"
    using qkey_Some [OF tableOk_qwf [OF assms(1)] k'] assms(1) by (simp add: qwf_map_of_eq tableOk_def)
  with kx assms(1) have "k' = k"
    using inj_onD [of snd "set h" "(k', x)" "(k, x)"] by (auto simp: tableOk_def distinct_map)
  with k' show ?thesis by simp
qed

lemma tableOk_insert:
  assumes "tableOk h" "k \<notin> fst ` set h" "x \<notin> snd ` set h" "k \<noteq> nullUuid"
  shows "tableOk (qinsert k x h)"
proof -
  from assms(2) have "qinsert k x h = h @ [(k, x)]"
    by (induction h) auto
  with assms show ?thesis
    by (simp add: tableOk_def qwf_def)
qed

lemma tableOk_remove: "tableOk h \<Longrightarrow> tableOk (qremove k h)"
  unfolding tableOk_def AList.delete_eq qwf_def
  by (auto simp: distinct_map intro: inj_on_subset distinct_filter)

lemma qremove_keys: "fst ` set (qremove k h) = fst ` set h - {k}"
  by (auto simp: AList.delete_eq)

lemma qinsert_keys: "fst ` set (qinsert k v h) = insert k (fst ` set h)"
  by (metis dom_map_of_conv_image_fst dom_fun_upd map_of_qinsert option.distinct(1))

section \<open>The protocol of the signals\<close>

text \<open>
  \<open>signals_ok\<close> follows the clients that are connected through a list of signals, \<open>None\<close> at the
  first one that comes out of turn.
\<close>

fun signals_ok :: "uuid set \<Rightarrow> proxy_event list \<Rightarrow> uuid set option" where
  "signals_ok alive [] = Some alive"
| "signals_ok alive (ClientConnected interface k address now # es) =
     (if k \<in> alive \<or> k = nullUuid then None else signals_ok (insert k alive) es)"
| "signals_ok alive (ClientDisconnected k # es) =
     (if k \<in> alive then signals_ok (alive - {k}) es else None)"
| "signals_ok alive (DataAvailable k data # es) =
     (if k \<in> alive then signals_ok alive es else None)"
| "signals_ok alive (_ # es) = None"

lemma signals_ok_append:
  "signals_ok alive es = Some alive' \<Longrightarrow> signals_ok alive (es @ fs) = signals_ok alive' fs"
  by (induction alive es rule: signals_ok.induct) (auto split: if_splits)

section \<open>The interface\<close>

text \<open>What the sockets of a transport report; the id is the one \<open>createUuid\<close> gives.\<close>

datatype socket_event =
    SocketConnected socket uuid string quint64
  | SocketData socket bytes
  | SocketDisconnected socket

fun transport_run ::
  "(socket \<Rightarrow> uuid \<Rightarrow> string \<Rightarrow> quint64 \<Rightarrow> 'st \<Rightarrow> 'st \<times> proxy_event list) \<Rightarrow>
   (socket \<Rightarrow> bytes \<Rightarrow> 'st \<Rightarrow> proxy_event list) \<Rightarrow>
   (socket \<Rightarrow> 'st \<Rightarrow> ('st \<times> proxy_event list) option) \<Rightarrow>
   'st \<Rightarrow> socket_event list \<Rightarrow> ('st \<times> proxy_event list) option" where
  "transport_run connected received disconnected st [] = Some (st, [])"
| "transport_run connected received disconnected st (SocketConnected x k a now # es) =
     (case connected x k a now st of
        (st', out) \<Rightarrow> map_option (apsnd (\<lambda>outs. out @ outs))
                       (transport_run connected received disconnected st' es))"
| "transport_run connected received disconnected st (SocketData x d # es) =
     map_option (apsnd (\<lambda>outs. received x d st @ outs))
       (transport_run connected received disconnected st es)"
| "transport_run connected received disconnected st (SocketDisconnected x # es) =
     (case disconnected x st of
        None \<Rightarrow> None
      | Some (st', out) \<Rightarrow> map_option (apsnd (\<lambda>outs. out @ outs))
                       (transport_run connected received disconnected st' es))"

text \<open>
  What Qt promises: a socket object is new when it connects, reports nothing before and
  disconnects once, and a created uuid is not the null uuid and not one in use. The table holds
  the sockets that are connected.
\<close>

fun sockets_ok :: "client_table \<Rightarrow> socket_event list \<Rightarrow> bool" where
  "sockets_ok h [] = True"
| "sockets_ok h (SocketConnected x k a now # es) =
     (k \<notin> fst ` set h \<and> k \<noteq> nullUuid \<and> x \<notin> snd ` set h \<and> sockets_ok (qinsert k x h) es)"
| "sockets_ok h (SocketData x d # es) = (x \<in> snd ` set h \<and> sockets_ok h es)"
| "sockets_ok h (SocketDisconnected x # es) =
     (case qkey h x of None \<Rightarrow> False | Some k \<Rightarrow> sockets_ok (qremove k h) es)"

locale transport_api =
  fixes clients :: "'st \<Rightarrow> client_table"
    and sendData :: "uuid \<Rightarrow> bytes \<Rightarrow> 'st \<Rightarrow> socket_op list"
    and killClientConnection :: "uuid \<Rightarrow> string \<Rightarrow> 'st \<Rightarrow> socket_op list"
    and connected :: "socket \<Rightarrow> uuid \<Rightarrow> string \<Rightarrow> quint64 \<Rightarrow> 'st \<Rightarrow> 'st \<times> proxy_event list"
    and received :: "socket \<Rightarrow> bytes \<Rightarrow> 'st \<Rightarrow> proxy_event list"
    and disconnected :: "socket \<Rightarrow> 'st \<Rightarrow> ('st \<times> proxy_event list) option"
    and kind :: transport_kind
  assumes send_unknown: "map_of (clients st) k = None \<Longrightarrow> sendData k d st = []"
    and send_known: "map_of (clients st) k = Some x \<Longrightarrow>
      concat (map op_payload (sendData k d st)) = d \<and> op_socket ` set (sendData k d st) = {x} \<and>
      \<not> list_ex op_closes (sendData k d st)"
    and kill_unknown: "map_of (clients st) k = None \<Longrightarrow> killClientConnection k r st = []"
    and kill_known: "map_of (clients st) k = Some x \<Longrightarrow>
      op_socket ` set (killClientConnection k r st) \<subseteq> {x} \<and>
      concat (map op_payload (killClientConnection k r st)) = []"
    and connected_table: "clients (fst (connected x k a now st)) = qinsert k x (clients st)"
    and connected_signal: "snd (connected x k a now st) = [ClientConnected kind k a now]"
    and received_signal: "tableOk (clients st) \<Longrightarrow> qkey (clients st) x = Some k \<Longrightarrow>
      received x d st = [DataAvailable k d]"
    and disconnected_known: "tableOk (clients st) \<Longrightarrow> qkey (clients st) x = Some k \<Longrightarrow>
      \<exists>st'. disconnected x st = Some (st', [ClientDisconnected k]) \<and> clients st' = qremove k (clients st)"
begin

text \<open>Data goes to the socket of the client and to no other.\<close>

lemma send_isolated:
  "tableOk (clients st) \<Longrightarrow> op \<in> set (sendData k d st) \<Longrightarrow> qkey (clients st) (op_socket op) = Some k"
proof (cases "map_of (clients st) k")
  case None
  then show "op \<in> set (sendData k d st) \<Longrightarrow> ?thesis" by (simp add: send_unknown)
next
  case (Some x)
  assume "tableOk (clients st)" "op \<in> set (sendData k d st)"
  with send_known [OF Some, of d] have "op_socket op = x" by blast
  then show ?thesis using qkey_table [OF \<open>tableOk (clients st)\<close> Some] by simp
qed

text \<open>The signals follow the protocol, and the table holds the connected clients.\<close>

lemma signals_follow_protocol:
  assumes "tableOk (clients st)" "sockets_ok (clients st) es"
  shows "\<exists>st' out. transport_run connected received disconnected st es = Some (st', out) \<and>
    tableOk (clients st') \<and> signals_ok (fst ` set (clients st)) out = Some (fst ` set (clients st'))"
  using assms
proof (induction es arbitrary: st)
  case Nil
  then show ?case by simp
next
  case (Cons e es)
  show ?case
  proof (cases e)
    case (SocketConnected x k a now)
    obtain st1 where st1: "connected x k a now st = (st1, [ClientConnected kind k a now])"
        "clients st1 = qinsert k x (clients st)"
      using connected_table [of x k a now st] connected_signal [of x k a now st]
      by (cases "connected x k a now st") auto
    moreover have "tableOk (clients st1)" "sockets_ok (clients st1) es"
      using Cons.prems SocketConnected st1 by (auto intro: tableOk_insert)
    then obtain st' out where "transport_run connected received disconnected st1 es = Some (st', out)"
        "tableOk (clients st')" "signals_ok (fst ` set (clients st1)) out = Some (fst ` set (clients st'))"
      using Cons.IH by blast
    ultimately show ?thesis
      using Cons.prems SocketConnected by (auto simp: qinsert_keys)
  next
    case (SocketData x d)
    then have "sockets_ok (clients st) es" "x \<in> snd ` set (clients st)" using Cons.prems by auto
    moreover from this obtain k where k: "qkey (clients st) x = Some k"
      using qkey_None [of "clients st" x] by auto
    moreover obtain st' out where "transport_run connected received disconnected st es = Some (st', out)"
        "tableOk (clients st')" "signals_ok (fst ` set (clients st)) out = Some (fst ` set (clients st'))"
      using Cons.IH [OF Cons.prems(1)] calculation(1) by blast
    moreover have "k \<in> fst ` set (clients st)"
      using qkey_Some [OF tableOk_qwf [OF Cons.prems(1)] k] by (force dest: map_of_SomeD)
    ultimately show ?thesis
      using SocketData received_signal [OF Cons.prems(1), of x k d] by auto
  next
    case (SocketDisconnected x)
    then obtain k where k: "qkey (clients st) x = Some k" "sockets_ok (qremove k (clients st)) es"
      using Cons.prems by (auto split: option.splits)
    then obtain st1 where st1: "disconnected x st = Some (st1, [ClientDisconnected k])"
        "clients st1 = qremove k (clients st)"
      using disconnected_known [OF Cons.prems(1)] by blast
    moreover have "tableOk (clients st1)"
      by (simp add: st1 tableOk_remove [OF Cons.prems(1)])
    with k st1 obtain st' out where "transport_run connected received disconnected st1 es = Some (st', out)"
        "tableOk (clients st')" "signals_ok (fst ` set (clients st1)) out = Some (fst ` set (clients st'))"
      using Cons.IH by fastforce
    moreover have "k \<in> fst ` set (clients st)"
      using qkey_Some [OF tableOk_qwf [OF Cons.prems(1)] k(1)] by (force dest: map_of_SomeD)
    ultimately show ?thesis
      using SocketDisconnected by (auto simp: qremove_keys)
  qed
qed

end

end
