(* ===== verification/TcpSocketServer.thy ===== *)
theory TcpSocketServer
  imports Transports
begin

text \<open>
  \<open>server/tcpsocketserver.{h,cpp}\<close>: the TCP transport, with the \<open>SslServer\<close> that accepts
  its sockets. With SSL a socket reaches the proxy when its encryption is established. The
  lemmas show that nothing of an unencrypted socket gets through, and interpret the transport
  interface. Whether the code is compiled for Qt 6 is a parameter.
\<close>

section \<open>State\<close>

text \<open>An \<open>SslClient\<close>: whether it is encrypted, and the timer that closes it when it never is.\<close>

record ssl_client =
  sk_encrypted :: bool
  sk_timer :: bool

record ssl_server =
  ssl_sslEnabled :: bool
  ssl_config :: "ssl_configuration option"
  ssl_clients :: "(socket, ssl_client) qhash"
  ssl_listening :: bool

record tcp_socket_server = transport_base +
  tcp_sslEnabled :: bool
  tcp_sslConfiguration :: "ssl_configuration option"
  tcp_clientList :: client_table
  tcp_server :: "ssl_server option"

definition newTcpSocketServer :: "bool \<Rightarrow> ssl_configuration option \<Rightarrow> tcp_socket_server" where
  "newTcpSocketServer sslEnabled sslConfiguration =
     \<lparr>tr_serverName = ''TCP'', tr_serverUrl = emptyUrl, tcp_sslEnabled = sslEnabled,
      tcp_sslConfiguration = sslConfiguration, tcp_clientList = [], tcp_server = None\<rparr>"

definition newSslClient :: ssl_client where
  [simp]: "newSslClient = \<lparr>sk_encrypted = False, sk_timer = False\<rparr>"

definition startWaitingForEncrypted :: "ssl_client \<Rightarrow> ssl_client" where
  [simp]: "startWaitingForEncrypted c = c\<lparr>sk_timer := True\<rparr>"

definition newSslServer :: "bool \<Rightarrow> ssl_configuration option \<Rightarrow> ssl_server" where
  "newSslServer sslEnabled config =
     \<lparr>ssl_sslEnabled = sslEnabled, ssl_config = config, ssl_clients = [], ssl_listening = False\<rparr>"

section \<open>The SSL server\<close>

datatype ssl_signal =
    SslSocketConnected socket
  | SslSocketDisconnected socket
  | SslDataAvailable socket bytes

text \<open>\<open>ok\<close>: the socket descriptor could be set. A pending connection is announced at once
  without SSL.\<close>

definition incomingConnection ::
  "socket \<Rightarrow> bool \<Rightarrow> ssl_server \<Rightarrow> ssl_server \<times> socket_op list \<times> ssl_signal list" where
  "incomingConnection x ok server =
     (if \<not> ok then (server, [], [])
      else (server\<lparr>ssl_clients :=
              qinsert x (if ssl_sslEnabled server then startWaitingForEncrypted newSslClient else newSslClient)
                (ssl_clients server)\<rparr>,
            if ssl_sslEnabled server then [SockStartEncryption x] else [],
            if ssl_sslEnabled server then [] else [SslSocketConnected x]))"

definition isEncrypted :: "ssl_server \<Rightarrow> socket \<Rightarrow> bool" where
  "isEncrypted server x =
     (case map_of (ssl_clients server) x of None \<Rightarrow> False | Some c \<Rightarrow> sk_encrypted c)"

text \<open>The slots connected to a socket's signals.\<close>

definition ssl_onDisconnected :: "bool \<Rightarrow> socket \<Rightarrow> ssl_server \<Rightarrow> ssl_server \<times> ssl_signal list" where
  "ssl_onDisconnected qt6 x server =
     (server\<lparr>ssl_clients := qremove x (ssl_clients server)\<rparr>,
      if ssl_sslEnabled server
      then (if qt6 \<or> isEncrypted server x then [SslSocketDisconnected x] else [])
      else [SslSocketDisconnected x])"

definition ssl_onReadyRead :: "socket \<Rightarrow> bytes \<Rightarrow> ssl_server \<Rightarrow> ssl_signal list" where
  "ssl_onReadyRead x data server =
     (if ssl_sslEnabled server \<and> \<not> isEncrypted server x then [] else [SslDataAvailable x data])"

definition ssl_onEncrypted :: "socket \<Rightarrow> ssl_server \<Rightarrow> ssl_server \<times> ssl_signal list" where
  "ssl_onEncrypted x server =
     (server\<lparr>ssl_clients := qadjust x (\<lambda>c. c\<lparr>sk_encrypted := True, sk_timer := False\<rparr>) (ssl_clients server)\<rparr>,
      [SslSocketConnected x])"

definition ssl_onErrorOccurred :: "socket \<Rightarrow> socket_op list" where
  "ssl_onErrorOccurred x = [SockClose x]"

text \<open>The timer of an \<open>SslClient\<close> fires.\<close>

definition ssl_onTimeout :: "socket \<Rightarrow> ssl_server \<Rightarrow> ssl_server \<times> socket_op list" where
  "ssl_onTimeout x server =
     (case map_of (ssl_clients server) x of
        None \<Rightarrow> (server, [])
      | Some c \<Rightarrow>
          if sk_timer c
          then (server\<lparr>ssl_clients := qinsert x (c\<lparr>sk_timer := False\<rparr>) (ssl_clients server)\<rparr>, [SockClose x])
          else (server, []))"

section \<open>The transport\<close>

definition tcp_sendData :: "uuid \<Rightarrow> bytes \<Rightarrow> tcp_socket_server \<Rightarrow> socket_op list" where
  "tcp_sendData clientId data t =
     (case map_of (tcp_clientList t) clientId of None \<Rightarrow> [] | Some client \<Rightarrow> [SockWrite client data])"

definition tcp_killClientConnection :: "uuid \<Rightarrow> string \<Rightarrow> tcp_socket_server \<Rightarrow> socket_op list" where
  "tcp_killClientConnection clientId killReason t =
     (case map_of (tcp_clientList t) clientId of
        None \<Rightarrow> []
      | Some client \<Rightarrow> [SockFlush client, SockClose client])"

definition tcp_connectionsCount :: "tcp_socket_server \<Rightarrow> nat" where
  "tcp_connectionsCount t = length (tcp_clientList t)"

definition tcp_running :: "tcp_socket_server \<Rightarrow> bool" where
  "tcp_running t = (case tcp_server t of None \<Rightarrow> False | Some server \<Rightarrow> ssl_listening server)"

text \<open>\<open>listen\<close> is the result of \<open>QTcpServer::listen\<close> for the host and the port.\<close>

definition tcp_startServer ::
  "(string \<Rightarrow> quint16 \<Rightarrow> bool) \<Rightarrow> tcp_socket_server \<Rightarrow> bool \<times> tcp_socket_server" where
  "tcp_startServer listen t =
     (let server = newSslServer (tcp_sslEnabled t) (tcp_sslConfiguration t)
      in if \<not> listen (url_host (tr_serverUrl t)) (url_port (tr_serverUrl t))
         then (False, t\<lparr>tcp_server := None\<rparr>)
         else (True, t\<lparr>tcp_server := Some (server\<lparr>ssl_listening := True\<rparr>)\<rparr>))"

definition tcp_stopServer :: "tcp_socket_server \<Rightarrow> bool \<times> tcp_socket_server \<times> socket_op list" where
  "tcp_stopServer t =
     (case tcp_server t of
        None \<Rightarrow> (True, t, [])
      | Some _ \<Rightarrow>
          (True, t\<lparr>tcp_server := None\<rparr>,
           concat (map (\<lambda>clientId. tcp_killClientConnection clientId ''Stop server'' t)
             (map fst (tcp_clientList t)))))"

text \<open>\<open>QHash::key\<close> gives the null uuid for a socket that is not in the list.\<close>

definition tcp_onDataAvailable :: "socket \<Rightarrow> bytes \<Rightarrow> tcp_socket_server \<Rightarrow> proxy_event list" where
  "tcp_onDataAvailable client data t =
     (let clientId = (case qkey (tcp_clientList t) client of None \<Rightarrow> nullUuid | Some k \<Rightarrow> k)
      in if clientId = nullUuid then [] else [DataAvailable clientId data])"

definition tcp_onSocketConnected ::
  "socket \<Rightarrow> uuid \<Rightarrow> string \<Rightarrow> quint64 \<Rightarrow> tcp_socket_server \<Rightarrow> tcp_socket_server \<times> proxy_event list" where
  "tcp_onSocketConnected client clientId peerAddress now t =
     (t\<lparr>tcp_clientList := qinsert clientId client (tcp_clientList t)\<rparr>,
      [ClientConnected TransportTcp clientId peerAddress now])"

definition tcp_onSocketDisconnected ::
  "socket \<Rightarrow> tcp_socket_server \<Rightarrow> tcp_socket_server \<times> proxy_event list" where
  "tcp_onSocketDisconnected client t =
     (let clientId = (case qkey (tcp_clientList t) client of None \<Rightarrow> nullUuid | Some k \<Rightarrow> k)
      in if clientId = nullUuid then (t, [])
         else (t\<lparr>tcp_clientList := qremove clientId (tcp_clientList t)\<rparr>, [ClientDisconnected clientId]))"

section \<open>From the socket to the proxy\<close>

text \<open>What a socket does, with the id and the time for the case that the proxy hears of it.\<close>

datatype tcp_event =
    TcpIncoming socket bool
  | TcpEncrypted socket
  | TcpReadyRead socket bytes
  | TcpDisconnected socket
  | TcpTimeout socket

fun tcp_deliver ::
  "uuid \<Rightarrow> string \<Rightarrow> quint64 \<Rightarrow> ssl_signal \<Rightarrow> tcp_socket_server \<Rightarrow> tcp_socket_server \<times> proxy_event list" where
  "tcp_deliver k a now (SslSocketConnected x) t = tcp_onSocketConnected x k a now t"
| "tcp_deliver k a now (SslSocketDisconnected x) t = tcp_onSocketDisconnected x t"
| "tcp_deliver k a now (SslDataAvailable x d) t = (t, tcp_onDataAvailable x d t)"

fun tcp_deliver_all ::
  "uuid \<Rightarrow> string \<Rightarrow> quint64 \<Rightarrow> ssl_signal list \<Rightarrow> tcp_socket_server \<Rightarrow> tcp_socket_server \<times> proxy_event list" where
  "tcp_deliver_all k a now [] t = (t, [])"
| "tcp_deliver_all k a now (g # gs) t =
     (let (t', out) = tcp_deliver k a now g t; (t'', out') = tcp_deliver_all k a now gs t'
      in (t'', out @ out'))"

fun tcp_socketEvent :: "bool \<Rightarrow> tcp_event \<Rightarrow> ssl_server \<Rightarrow> ssl_server \<times> socket_op list \<times> ssl_signal list" where
  "tcp_socketEvent qt6 (TcpIncoming x ok) server = incomingConnection x ok server"
| "tcp_socketEvent qt6 (TcpEncrypted x) server =
     (case ssl_onEncrypted x server of (server', gs) \<Rightarrow> (server', [], gs))"
| "tcp_socketEvent qt6 (TcpReadyRead x d) server = (server, [], ssl_onReadyRead x d server)"
| "tcp_socketEvent qt6 (TcpDisconnected x) server =
     (case ssl_onDisconnected qt6 x server of (server', gs) \<Rightarrow> (server', [], gs))"
| "tcp_socketEvent qt6 (TcpTimeout x) server =
     (case ssl_onTimeout x server of (server', ops) \<Rightarrow> (server', ops, []))"

definition tcp_step ::
  "bool \<Rightarrow> tcp_event \<times> uuid \<times> string \<times> quint64 \<Rightarrow> tcp_socket_server \<Rightarrow>
     tcp_socket_server \<times> socket_op list \<times> proxy_event list" where
  "tcp_step qt6 = (\<lambda>(e, k, a, now) t.
     (case tcp_server t of
        None \<Rightarrow> (t, [], [])
      | Some server \<Rightarrow>
          (case tcp_socketEvent qt6 e server of
             (server', ops, gs) \<Rightarrow>
               (case tcp_deliver_all k a now gs (t\<lparr>tcp_server := Some server'\<rparr>) of
                  (t', out) \<Rightarrow> (t', ops, out)))))"

section \<open>The interface\<close>

interpretation tcp_transport: transport_api tcp_clientList tcp_sendData tcp_killClientConnection
    tcp_onSocketConnected tcp_onDataAvailable "\<lambda>x t. Some (tcp_onSocketDisconnected x t)" TransportTcp
proof unfold_locales
  fix st :: tcp_socket_server and x k d
  assume ok: "tableOk (tcp_clientList st)" and k: "qkey (tcp_clientList st) x = Some k"
  have "k \<noteq> nullUuid"
    using ok qkey_Some [OF tableOk_qwf [OF ok] k] by (force simp: tableOk_def dest: map_of_SomeD)
  with k show "tcp_onDataAvailable x d st = [DataAvailable k d]"
    and "\<exists>st'. Some (tcp_onSocketDisconnected x st) = Some (st', [ClientDisconnected k]) \<and>
           tcp_clientList st' = qremove k (tcp_clientList st)"
    by (simp_all add: tcp_onDataAvailable_def tcp_onSocketDisconnected_def)
qed (simp_all add: tcp_sendData_def tcp_killClientConnection_def tcp_onSocketConnected_def)

section \<open>Encryption\<close>

text \<open>
  What Qt and the kernel allow: a new socket is one the server does not have yet, only a socket
  it has gets encrypted, once, and the id of a new client is new.
\<close>

fun tcp_allowed :: "tcp_event \<times> uuid \<times> string \<times> quint64 \<Rightarrow> tcp_socket_server \<Rightarrow> bool" where
  "tcp_allowed (e, k, a, now) t =
     (k \<noteq> nullUuid \<and> k \<notin> fst ` set (tcp_clientList t) \<and>
      (case (tcp_server t, e) of
         (Some server, TcpIncoming x ok) \<Rightarrow>
           \<not> qcontains (ssl_clients server) x \<and> x \<notin> snd ` set (tcp_clientList t)
       | (Some server, TcpEncrypted x) \<Rightarrow>
           ssl_sslEnabled server \<and> qcontains (ssl_clients server) x \<and> \<not> isEncrypted server x
       | _ \<Rightarrow> True))"

inductive tcp_reach :: "bool \<Rightarrow> tcp_socket_server \<Rightarrow> tcp_socket_server \<Rightarrow> bool" for qt6 t0 where
  tcp_reach_start: "tcp_reach qt6 t0 t0"
| tcp_reach_step: "tcp_reach qt6 t0 t \<Longrightarrow> tcp_allowed e t \<Longrightarrow> tcp_step qt6 e t = (t', ops, out) \<Longrightarrow>
    tcp_reach qt6 t0 t'"

inductive_cases tcp_reachE: "tcp_reach qt6 t0 t"

text \<open>With SSL, every socket the proxy knows is encrypted.\<close>

definition tcp_encrypted :: "tcp_socket_server \<Rightarrow> bool" where
  "tcp_encrypted t =
     (tableOk (tcp_clientList t) \<and>
      (case tcp_server t of
         None \<Rightarrow> True
       | Some server \<Rightarrow> ssl_sslEnabled server \<longrightarrow>
           (\<forall>x \<in> snd ` set (tcp_clientList t). isEncrypted server x)))"

lemma qinsert_values: "k \<notin> fst ` set h \<Longrightarrow> snd ` set (qinsert k x h) = insert x (snd ` set h)"
  by (induction h) auto

lemma qremove_values: "snd ` set (qremove k h) \<subseteq> snd ` set h"
  by (auto simp: AList.delete_eq)

lemma qremove_key_value:
  assumes "tableOk h" "qkey h x = Some k"
  shows "x \<notin> snd ` set (qremove k h)"
proof
  assume "x \<in> snd ` set (qremove k h)"
  then obtain k' where "(k', x) \<in> set h" "k' \<noteq> k"
    by (auto simp: AList.delete_eq)
  then show False
    using qkey_table [OF assms(1), of k' x] assms by (simp add: qwf_map_of_eq tableOk_def)
qed

text \<open>What a disconnected socket does to the client list.\<close>

lemma tcp_onSocketDisconnected_list:
  assumes "tableOk (tcp_clientList t)"
  shows "tableOk (tcp_clientList (fst (tcp_onSocketDisconnected x t)))"
    "snd ` set (tcp_clientList (fst (tcp_onSocketDisconnected x t))) \<subseteq> snd ` set (tcp_clientList t) - {x}"
    "tcp_server (fst (tcp_onSocketDisconnected x t)) = tcp_server t"
proof -
  consider "qkey (tcp_clientList t) x = None" | k where "qkey (tcp_clientList t) x = Some k" "k \<noteq> nullUuid"
  proof (cases "qkey (tcp_clientList t) x")
    case (Some k)
    then have "map_of (tcp_clientList t) k = Some x"
      by (rule qkey_Some [OF tableOk_qwf [OF assms]])
    then have "k \<noteq> nullUuid" using assms by (force simp: tableOk_def dest: map_of_SomeD)
    with Some that(2) show ?thesis by blast
  qed (use that(1) in blast)
  note two = this
  show "tableOk (tcp_clientList (fst (tcp_onSocketDisconnected x t)))"
    "tcp_server (fst (tcp_onSocketDisconnected x t)) = tcp_server t"
    using assms by (simp_all add: tcp_onSocketDisconnected_def Let_def tableOk_remove)
  show "snd ` set (tcp_clientList (fst (tcp_onSocketDisconnected x t))) \<subseteq> snd ` set (tcp_clientList t) - {x}"
    using two
  proof cases
    case 1
    then have "x \<notin> snd ` set (tcp_clientList t)" by (simp add: qkey_None)
    with 1 show ?thesis by (simp add: tcp_onSocketDisconnected_def)
  next
    case 2
    then show ?thesis
      using qremove_key_value [OF assms 2(1)] qremove_values [of k "tcp_clientList t"]
      by (auto simp: tcp_onSocketDisconnected_def)
  qed
qed

lemma tcp_encrypted_step:
  assumes inv: "tcp_encrypted t" and ok: "tcp_allowed (e, k, a, now) t"
    and step: "tcp_step qt6 (e, k, a, now) t = (t', ops, out)"
  shows "tcp_encrypted t'"
proof (cases "tcp_server t")
  case None
  with step inv show ?thesis by (simp add: tcp_step_def)
next
  case (Some server)
  note table = inv [unfolded tcp_encrypted_def, THEN conjunct1]
  have enc: "ssl_sslEnabled server \<Longrightarrow> y \<in> snd ` set (tcp_clientList t) \<Longrightarrow> isEncrypted server y" for y
    using inv Some by (auto simp: tcp_encrypted_def)
  show ?thesis
  proof (cases e)
    case (TcpIncoming x c)
    show ?thesis
    proof (cases "c \<and> \<not> ssl_sslEnabled server")
      case True
      then have "t' = t\<lparr>tcp_clientList := qinsert k x (tcp_clientList t),
          tcp_server := tcp_server t'\<rparr>" "ssl_sslEnabled (the (tcp_server t')) = False"
          "tcp_server t' \<noteq> None"
        using step Some TcpIncoming
        by (auto simp: tcp_step_def incomingConnection_def tcp_onSocketConnected_def)
      moreover have "tableOk (qinsert k x (tcp_clientList t))"
        using ok Some TcpIncoming by (intro tableOk_insert [OF table]) auto
      ultimately show ?thesis
        by (metis (no_types, lifting) option.case_eq_if tcp_encrypted_def
            tcp_socket_server.select_convs(3) tcp_socket_server.surjective
            tcp_socket_server.update_convs(3,4))
    next
      case False
      then have t': "tcp_clientList t' = tcp_clientList t"
        "tcp_server t' = Some server \<or> tcp_server t' =
           Some (server\<lparr>ssl_clients := qinsert x \<lparr>sk_encrypted = False, sk_timer = True\<rparr> (ssl_clients server)\<rparr>)"
        using step Some TcpIncoming by (auto simp: tcp_step_def incomingConnection_def split: if_splits)
      have "x \<notin> snd ` set (tcp_clientList t)" using ok Some TcpIncoming by auto
      then show ?thesis
        using t' table enc by (auto simp: tcp_encrypted_def isEncrypted_def)
    qed
  next
    case (TcpEncrypted x)
    have c: "ssl_sslEnabled server" "qcontains (ssl_clients server) x" "\<not> isEncrypted server x"
      "k \<noteq> nullUuid" "k \<notin> fst ` set (tcp_clientList t)"
      using ok Some TcpEncrypted by auto
    then have x: "x \<notin> snd ` set (tcp_clientList t)" using enc by blast
    have t': "tcp_clientList t' = qinsert k x (tcp_clientList t)"
      "tcp_server t' = Some (server\<lparr>ssl_clients :=
         qadjust x (\<lambda>c. c\<lparr>sk_encrypted := True, sk_timer := False\<rparr>) (ssl_clients server)\<rparr>)"
      using step Some TcpEncrypted
      by (auto simp: tcp_step_def ssl_onEncrypted_def tcp_onSocketConnected_def)
    have "tableOk (tcp_clientList t')"
      unfolding t' by (rule tableOk_insert [OF table c(5) x c(4)])
    moreover have "isEncrypted (the (tcp_server t')) y" if y: "y \<in> snd ` set (tcp_clientList t')" for y
    proof (cases "y = x")
      case True
      with c(2) show ?thesis by (auto simp: t' isEncrypted_def qcontains_conv)
    next
      case False
      with y have "y \<in> snd ` set (tcp_clientList t)"
        unfolding t' qinsert_values [OF c(5)] by simp
      from enc [OF c(1) this] False show ?thesis by (simp add: t' isEncrypted_def)
    qed
    ultimately show ?thesis using t'(2) by (simp add: tcp_encrypted_def)
  next
    case (TcpReadyRead x d)
    then have "t' = t"
      using step Some by (auto simp: tcp_step_def ssl_onReadyRead_def split: if_splits)
    with inv show ?thesis by simp
  next
    case (TcpTimeout x)
    then obtain s' where t': "t' = t\<lparr>tcp_server := Some s'\<rparr>" "ssl_sslEnabled s' = ssl_sslEnabled server"
        "\<And>y. isEncrypted s' y = isEncrypted server y"
      using step Some
      by (auto simp: tcp_step_def ssl_onTimeout_def isEncrypted_def split: option.splits if_splits)
    then show ?thesis using inv Some by (simp add: tcp_encrypted_def)
  next
    case (TcpDisconnected x)
    define s' where "s' = server\<lparr>ssl_clients := qremove x (ssl_clients server)\<rparr>"
    let ?t = "t\<lparr>tcp_server := Some s'\<rparr>"
    have other: "y \<noteq> x \<Longrightarrow> isEncrypted s' y = isEncrypted server y" for y
      by (simp add: s'_def isEncrypted_def)
    consider "t' = fst (tcp_onSocketDisconnected x ?t)"
      | "t' = ?t" "ssl_sslEnabled server" "\<not> isEncrypted server x"
      using step Some TcpDisconnected
      by (auto simp: tcp_step_def ssl_onDisconnected_def s'_def split: if_splits prod.splits)
    then show ?thesis
    proof cases
      case 1
      have "tableOk (tcp_clientList ?t)" using table by simp
      note L = tcp_onSocketDisconnected_list [OF this, of x]
      have "isEncrypted s' y" if "ssl_sslEnabled s'" "y \<in> snd ` set (tcp_clientList t')" for y
        using that L(2) enc [of y] other [of y] by (auto simp: 1 s'_def)
      then show ?thesis using L(1,3) by (auto simp: tcp_encrypted_def 1)
    next
      case 2
      then have "x \<notin> snd ` set (tcp_clientList t)" using enc by blast
      then have "isEncrypted s' y" if "ssl_sslEnabled s'" "y \<in> snd ` set (tcp_clientList t)" for y
        using that enc [of y] other [of y] by (cases "y = x") (auto simp: s'_def)
      then show ?thesis using table 2 by (simp add: tcp_encrypted_def)
    qed
  qed
qed

lemma tcp_reach_encrypted:
  assumes "tcp_reach qt6 t0 t" "tcp_encrypted t0"
  shows "tcp_encrypted t"
  using assms
proof (induction rule: tcp_reach.induct)
  case (tcp_reach_step t e t' ops out)
  obtain ev k a now where "e = (ev, k, a, now)" by (cases e) auto
  with tcp_reach_step show ?case by (auto intro: tcp_encrypted_step)
qed

end
