(* ===== verification/WebSocketServer.thy ===== *)
theory WebSocketServer
  imports Transports
begin

text \<open>
  \<open>server/websocketserver.{h,cpp}\<close>: the WebSocket transport. A message of the proxy goes out as
  a text message, and only text messages come in; what Qt's conversion between bytes and text
  does is the parameter \<open>utf8\<close>.
\<close>

record web_socket_server = transport_base +
  ws_sslEnabled :: bool
  ws_sslConfiguration :: "ssl_configuration option"
  ws_clientList :: client_table
  ws_server :: "bool option"

text \<open>\<open>ws_server\<close> is the pointer to the \<open>QWebSocketServer\<close> with \<open>isListening\<close>.\<close>

definition newWebSocketServer :: "bool \<Rightarrow> ssl_configuration option \<Rightarrow> web_socket_server" where
  "newWebSocketServer sslEnabled sslConfiguration =
     \<lparr>tr_serverName = ''WebSocket'', tr_serverUrl = emptyUrl, ws_sslEnabled = sslEnabled,
      ws_sslConfiguration = sslConfiguration, ws_clientList = [], ws_server = None\<rparr>"

definition ws_running :: "web_socket_server \<Rightarrow> bool" where
  "ws_running t = (case ws_server t of None \<Rightarrow> False | Some listening \<Rightarrow> listening)"

definition ws_sendData :: "uuid \<Rightarrow> bytes \<Rightarrow> web_socket_server \<Rightarrow> socket_op list" where
  "ws_sendData clientId data t =
     (case map_of (ws_clientList t) clientId of
        Some client \<Rightarrow> [SockSendText client data]
      | None \<Rightarrow> [])"

definition ws_killClientConnection :: "uuid \<Rightarrow> string \<Rightarrow> web_socket_server \<Rightarrow> socket_op list" where
  "ws_killClientConnection clientId killReason t =
     (case map_of (ws_clientList t) clientId of
        None \<Rightarrow> []
      | Some client \<Rightarrow> [SockFlush client, SockCloseReason client killReason])"

definition ws_connectionsCount :: "web_socket_server \<Rightarrow> nat" where
  "ws_connectionsCount t = length (ws_clientList t)"

text \<open>\<open>version\<close>: the number of the client's version of the protocol, as text. \<open>None\<close> is a pending
  connection that disappeared.\<close>

definition ws_onClientConnected ::
  "string \<Rightarrow> socket option \<Rightarrow> uuid \<Rightarrow> string \<Rightarrow> quint64 \<Rightarrow> web_socket_server \<Rightarrow>
     web_socket_server \<times> socket_op list \<times> proxy_event list" where
  "ws_onClientConnected version pending clientId peerAddress now t =
     (case pending of
        None \<Rightarrow> (t, [], [])
      | Some client \<Rightarrow>
          if version \<noteq> ''13''
          then (t, [SockCloseReason client
                     (''invalid protocol version: '' @ version @ '' != Supported Version 13'')], [])
          else (t\<lparr>ws_clientList := qinsert clientId client (ws_clientList t)\<rparr>, [],
                [ClientConnected TransportWebSocket clientId peerAddress now]))"

text \<open>\<open>None\<close>: \<open>take\<close> finds no socket, and the null pointer it returns is dereferenced.\<close>

definition ws_onClientDisconnected ::
  "socket \<Rightarrow> web_socket_server \<Rightarrow> (web_socket_server \<times> socket_op list \<times> proxy_event list) option" where
  "ws_onClientDisconnected client t =
     (let clientId = (case qkey (ws_clientList t) client of None \<Rightarrow> nullUuid | Some k \<Rightarrow> k)
      in case map_of (ws_clientList t) clientId of
           None \<Rightarrow> None
         | Some _ \<Rightarrow>
             Some (t\<lparr>ws_clientList := qremove clientId (ws_clientList t)\<rparr>, [SockClose client],
                   [ClientDisconnected clientId]))"

definition ws_onTextMessageReceived :: "socket \<Rightarrow> bytes \<Rightarrow> web_socket_server \<Rightarrow> proxy_event list" where
  "ws_onTextMessageReceived client message t =
     [DataAvailable (case qkey (ws_clientList t) client of None \<Rightarrow> nullUuid | Some k \<Rightarrow> k) message]"

definition ws_onBinaryMessageReceived :: "socket \<Rightarrow> bytes \<Rightarrow> socket_op list" where
  "ws_onBinaryMessageReceived client data =
     [SockCloseReason client ''Binary message not expected.'']"

definition ws_onClientError :: "socket \<Rightarrow> socket_op list" where
  "ws_onClientError client = [SockClose client]"

definition ws_startServer ::
  "(string \<Rightarrow> quint16 \<Rightarrow> bool) \<Rightarrow> web_socket_server \<Rightarrow> bool \<times> web_socket_server" where
  "ws_startServer listen t =
     (if \<not> listen (url_host (tr_serverUrl t)) (url_port (tr_serverUrl t))
      then (False, t\<lparr>ws_server := None\<rparr>)
      else (True, t\<lparr>ws_server := Some True\<rparr>))"

definition ws_stopServer :: "web_socket_server \<Rightarrow> bool \<times> web_socket_server \<times> socket_op list" where
  "ws_stopServer t =
     (True, t\<lparr>ws_server := None\<rparr>,
      concat (map (\<lambda>client. [SockCloseReason client ''Stop server'', SockFlush client, SockAbort client])
        (qvalues (ws_clientList t))))"

section \<open>The interface\<close>

text \<open>A client that connects has been accepted.\<close>

definition ws_connected ::
  "socket \<Rightarrow> uuid \<Rightarrow> string \<Rightarrow> quint64 \<Rightarrow> web_socket_server \<Rightarrow> web_socket_server \<times> proxy_event list" where
  "ws_connected client clientId peerAddress now t =
     (case ws_onClientConnected ''13'' (Some client) clientId peerAddress now t of (t', _, out) \<Rightarrow> (t', out))"

definition ws_disconnected ::
  "socket \<Rightarrow> web_socket_server \<Rightarrow> (web_socket_server \<times> proxy_event list) option" where
  "ws_disconnected client t = map_option (\<lambda>(t', _, out). (t', out)) (ws_onClientDisconnected client t)"

interpretation ws_transport: transport_api ws_clientList ws_sendData ws_killClientConnection
    ws_connected ws_onTextMessageReceived ws_disconnected TransportWebSocket
proof unfold_locales
  fix st :: web_socket_server and x k
  assume ok: "tableOk (ws_clientList st)" and k: "qkey (ws_clientList st) x = Some k"
  have "map_of (ws_clientList st) k = Some x"
    by (rule qkey_Some [OF tableOk_qwf [OF ok] k])
  with k show "\<exists>st'. ws_disconnected x st = Some (st', [ClientDisconnected k]) \<and>
           ws_clientList st' = qremove k (ws_clientList st)"
    by (simp add: ws_disconnected_def ws_onClientDisconnected_def)
qed (simp_all add: ws_sendData_def ws_killClientConnection_def ws_connected_def ws_onClientConnected_def
    ws_onTextMessageReceived_def)

section \<open>Bytes in text messages\<close>

text \<open>
  \<open>utf8\<close> takes the bytes handed to \<open>sendTextMessage\<close> to the bytes of the text that leaves:
  \<open>QString\<close> holds Unicode text, so these are valid UTF-8, in which the byte 0xC0 does not occur.
\<close>

definition ws_onWire :: "(bytes \<Rightarrow> bytes) \<Rightarrow> socket_op \<Rightarrow> bytes" where
  "ws_onWire utf8 op = (case op of SockSendText _ d \<Rightarrow> utf8 d | _ \<Rightarrow> [])"

lemma ws_no_slip_packet:
  assumes "\<And>d. ProtocolByteEnd \<notin> set (utf8 d)" "map_of (ws_clientList t) k = Some x"
  shows "concat (map (ws_onWire utf8) (ws_sendData k (serializeData d) t)) \<noteq> serializeData d"
    and "fst (slip_loop [] (concat (map (ws_onWire utf8) (ws_sendData k (serializeData d) t)))) = []"
proof -
  have wire: "concat (map (ws_onWire utf8) (ws_sendData k (serializeData d) t)) = utf8 (serializeData d)"
    using assms(2) by (simp add: ws_sendData_def ws_onWire_def)
  have "ProtocolByteEnd \<in> set (serializeData d)" by (simp add: serializeData_def)
  with assms(1) show "concat (map (ws_onWire utf8) (ws_sendData k (serializeData d) t)) \<noteq> serializeData d"
    unfolding wire by metis
  show "fst (slip_loop [] (concat (map (ws_onWire utf8) (ws_sendData k (serializeData d) t)))) = []"
    unfolding wire by (simp add: slip_loop_no_End assms(1))
qed

end
