(* ===== verification/UnixSocketServer.thy ===== *)
theory UnixSocketServer
  imports Transports
begin

text \<open>
  \<open>server/unixsocketserver.{h,cpp}\<close>: the transport over a local socket.
\<close>

record unix_socket_server = transport_base +
  ux_socketFileName :: string
  ux_server :: "bool option"
  ux_clientList :: client_table

definition newUnixSocketServer :: "string \<Rightarrow> unix_socket_server" where
  "newUnixSocketServer socketFileName =
     \<lparr>tr_serverName = ''unix'', tr_serverUrl = emptyUrl, ux_socketFileName = socketFileName,
      ux_server = None, ux_clientList = []\<rparr>"

definition ux_sendData :: "uuid \<Rightarrow> bytes \<Rightarrow> unix_socket_server \<Rightarrow> socket_op list" where
  "ux_sendData clientId data t =
     (case map_of (ux_clientList t) clientId of
        None \<Rightarrow> []
      | Some client \<Rightarrow> [SockWrite client data, SockFlush client])"

text \<open>\<open>inState\<close>: the socket is in \<open>ConnectedState\<close>.\<close>

definition ux_killClientConnection ::
  "(socket \<Rightarrow> bool) \<Rightarrow> uuid \<Rightarrow> string \<Rightarrow> unix_socket_server \<Rightarrow> socket_op list" where
  "ux_killClientConnection inState clientId killReason t =
     (case map_of (ux_clientList t) clientId of
        None \<Rightarrow> []
      | Some client \<Rightarrow> if inState client then [SockClose client] else [])"

definition ux_connectionsCount :: "unix_socket_server \<Rightarrow> nat" where
  "ux_connectionsCount t = length (ux_clientList t)"

definition ux_running :: "unix_socket_server \<Rightarrow> bool" where
  "ux_running t = (case ux_server t of None \<Rightarrow> False | Some listening \<Rightarrow> listening)"

text \<open>The old socket file is removed; \<open>listen\<close> is the result of \<open>QLocalServer::listen\<close>.\<close>

definition ux_startServer :: "(string \<Rightarrow> bool) \<Rightarrow> unix_socket_server \<Rightarrow> bool \<times> unix_socket_server" where
  "ux_startServer listen t =
     (if \<not> listen (ux_socketFileName t) then (False, t\<lparr>ux_server := None\<rparr>)
      else (True, t\<lparr>ux_server := Some True\<rparr>))"

definition ux_stopServer :: "unix_socket_server \<Rightarrow> bool \<times> unix_socket_server \<times> socket_op list" where
  "ux_stopServer t =
     (case ux_server t of
        None \<Rightarrow> (True, t, [])
      | Some _ \<Rightarrow> (True, t\<lparr>ux_server := None\<rparr>, map SockClose (qvalues (ux_clientList t))))"

definition ux_onClientConnected ::
  "socket \<Rightarrow> uuid \<Rightarrow> string \<Rightarrow> quint64 \<Rightarrow> unix_socket_server \<Rightarrow> unix_socket_server \<times> proxy_event list" where
  "ux_onClientConnected client clientId localHost now t =
     (t\<lparr>ux_clientList := qinsert clientId client (ux_clientList t)\<rparr>,
      [ClientConnected TransportUnix clientId localHost now])"

text \<open>The two slots made for each client.\<close>

definition ux_onDisconnected ::
  "socket \<Rightarrow> unix_socket_server \<Rightarrow> unix_socket_server \<times> proxy_event list" where
  "ux_onDisconnected client t =
     (let clientId = (case qkey (ux_clientList t) client of None \<Rightarrow> nullUuid | Some k \<Rightarrow> k)
      in case map_of (ux_clientList t) clientId of
           None \<Rightarrow> (t, [])
         | Some _ \<Rightarrow> (t\<lparr>ux_clientList := qremove clientId (ux_clientList t)\<rparr>, [ClientDisconnected clientId]))"

definition ux_onReadyRead :: "uuid \<Rightarrow> bytes \<Rightarrow> proxy_event list" where
  "ux_onReadyRead clientId data = [DataAvailable clientId data]"

text \<open>The id in \<open>ux_onReadyRead\<close> is captured when the socket connects: the one in the table.\<close>

definition ux_received :: "socket \<Rightarrow> bytes \<Rightarrow> unix_socket_server \<Rightarrow> proxy_event list" where
  "ux_received client data t =
     (case qkey (ux_clientList t) client of None \<Rightarrow> [] | Some clientId \<Rightarrow> ux_onReadyRead clientId data)"

interpretation ux_transport: transport_api ux_clientList ux_sendData "ux_killClientConnection inState"
    ux_onClientConnected ux_received "\<lambda>x t. Some (ux_onDisconnected x t)" TransportUnix
  for inState
proof unfold_locales
  fix st :: unix_socket_server and x k
  assume ok: "tableOk (ux_clientList st)" and k: "qkey (ux_clientList st) x = Some k"
  have "map_of (ux_clientList st) k = Some x"
    by (rule qkey_Some [OF tableOk_qwf [OF ok] k])
  with k show "\<exists>st'. Some (ux_onDisconnected x st) = Some (st', [ClientDisconnected k]) \<and>
           ux_clientList st' = qremove k (ux_clientList st)"
    by (simp add: ux_onDisconnected_def)
qed (auto simp: ux_sendData_def ux_killClientConnection_def ux_onClientConnected_def
    ux_received_def ux_onReadyRead_def split: if_splits)

end
