(* ===== verification/MonitorServer.thy ===== *)
theory MonitorServer
  imports Transports
begin

text \<open>
  \<open>server/monitorserver.{h,cpp}\<close>: the local socket that hands out the statistics. \<open>build\<close> is
  \<open>Engine::buildMonitorData\<close>, which the engine gives. The protocol has one request, \<open>refresh\<close>;
  everything else closes the connection.
\<close>

record monitor_server =
  mon_serverName :: string
  mon_server :: "bool option"
  mon_clients :: "socket list"

definition newMonitorServer :: "string \<Rightarrow> monitor_server" where
  "newMonitorServer serverName = \<lparr>mon_serverName = serverName, mon_server = None, mon_clients = []\<rparr>"

definition mon_running :: "monitor_server \<Rightarrow> bool" where
  "mon_running m = (case mon_server m of None \<Rightarrow> False | Some listening \<Rightarrow> listening)"

definition sendMonitorData :: "env \<Rightarrow> socket \<Rightarrow> vmap \<Rightarrow> socket_op list" where
  "sendMonitorData E x dataMap = [SockWrite x (env_toJson E (VMap dataMap) @ [newline]), SockFlush x]"

definition onMonitorConnected :: "socket \<Rightarrow> monitor_server \<Rightarrow> monitor_server" where
  "onMonitorConnected x m = m\<lparr>mon_clients := mon_clients m @ [x]\<rparr>"

definition onMonitorDisconnected :: "socket \<Rightarrow> monitor_server \<Rightarrow> monitor_server" where
  "onMonitorDisconnected x m = m\<lparr>mon_clients := removeAll x (mon_clients m)\<rparr>"

definition mon_processRequest :: "env \<Rightarrow> (bool \<Rightarrow> vmap) \<Rightarrow> socket \<Rightarrow> vmap \<Rightarrow> socket_op list" where
  "mon_processRequest E build x request =
     (if qcontains request ''method'' \<and> vtoString E (vvalue request ''method'') = ''refresh''
      then
        (let printAll =
           (if qcontains request ''params''
            then (let params = vtoMap (vvalue request ''params'')
                  in if qcontains params ''printAll'' then vtoBool E (vvalue params ''printAll'') else False)
            else False)
         in sendMonitorData E x (build printAll))
      else [SockClose x])"

definition onMonitorReadyRead :: "env \<Rightarrow> (bool \<Rightarrow> vmap) \<Rightarrow> socket \<Rightarrow> bytes \<Rightarrow> socket_op list" where
  "onMonitorReadyRead E build x data =
     (case env_fromJson E data of
        Inl _ \<Rightarrow> [SockClose x]
      | Inr jsonDoc \<Rightarrow> mon_processRequest E build x (vtoMap jsonDoc))"

text \<open>\<open>listen\<close> is the result of \<open>QLocalServer::listen\<close>, after the old socket file is removed.\<close>

definition mon_startServer :: "(string \<Rightarrow> bool) \<Rightarrow> monitor_server \<Rightarrow> monitor_server" where
  "mon_startServer listen m =
     (if \<not> listen (mon_serverName m) then m\<lparr>mon_server := None\<rparr> else m\<lparr>mon_server := Some True\<rparr>)"

definition mon_stopServer :: "monitor_server \<Rightarrow> monitor_server \<times> socket_op list" where
  "mon_stopServer m =
     (case mon_server m of
        None \<Rightarrow> (m, [])
      | Some _ \<Rightarrow> (m\<lparr>mon_server := None\<rparr>, map SockClose (mon_clients m)))"

definition updateClients :: "env \<Rightarrow> vmap \<Rightarrow> monitor_server \<Rightarrow> socket_op list" where
  "updateClients E dataMap m = concat (map (\<lambda>x. sendMonitorData E x dataMap) (mon_clients m))"

text \<open>Every request gets exactly one answer: the data of the build, or the end of its connection.\<close>

lemma onMonitorReadyRead_answers:
  "(\<exists>printAll. onMonitorReadyRead E build x data = sendMonitorData E x (build printAll)) \<or>
   onMonitorReadyRead E build x data = [SockClose x]"
  by (auto simp: onMonitorReadyRead_def mon_processRequest_def Let_def split: sum.splits)

end
