(* ===== verification/LogEngine.thy ===== *)
theory LogEngine
  imports Prelude
begin

text \<open>
  \<open>logengine.{h,cpp}\<close>: the statistics log and its daily rotation. What reaches the file system is
  a list of \<open>log_op\<close>; \<open>canOpen\<close> tells whether a file can be opened, \<open>number\<close> is
  \<open>QString::number\<close>.
\<close>

record log_file =
  lf_fileName :: string
  lf_isOpen :: bool

record log_engine =
  le_tunnelsFile :: log_file
  le_statisticsFile :: log_file
  le_tunnelsFileName :: string
  le_statisticsFileName :: string
  le_enabled :: bool
  le_currentDay :: int

datatype log_op =
    LogWrite string string
  | LogRename string string

definition newLogEngine :: "int \<Rightarrow> log_engine" where
  "newLogEngine day =
     \<lparr>le_tunnelsFile = \<lparr>lf_fileName = [], lf_isOpen = False\<rparr>,
      le_statisticsFile = \<lparr>lf_fileName = [], lf_isOpen = False\<rparr>,
      le_tunnelsFileName = ''/var/log/nymea-remoteproxy-tunnels'',
      le_statisticsFileName = ''/var/log/nymea-remoteproxy-statistics'',
      le_enabled = False, le_currentDay = day\<rparr>"

text \<open>\<open>setFileName\<close> and \<open>open\<close>: Qt leaves a file that is open as it is.\<close>

definition lf_open :: "(string \<Rightarrow> bool) \<Rightarrow> string \<Rightarrow> log_file \<Rightarrow> log_file" where
  "lf_open canOpen name f =
     (if lf_isOpen f then f else \<lparr>lf_fileName = name, lf_isOpen = canOpen name\<rparr>)"

definition lf_close :: "log_file \<Rightarrow> log_file" where
  "lf_close f = f\<lparr>lf_isOpen := False\<rparr>"

definition log_enable :: "(string \<Rightarrow> bool) \<Rightarrow> log_engine \<Rightarrow> log_engine" where
  "log_enable canOpen le =
     le\<lparr>le_enabled := True,
        le_statisticsFile := lf_open canOpen (le_statisticsFileName le @ ''.log'') (le_statisticsFile le),
        le_tunnelsFile := lf_open canOpen (le_tunnelsFileName le @ ''.log'') (le_tunnelsFile le)\<rparr>"

definition log_disable :: "log_engine \<Rightarrow> log_engine" where
  "log_disable le =
     le\<lparr>le_enabled := False, le_tunnelsFile := lf_close (le_tunnelsFile le),
        le_statisticsFile := lf_close (le_statisticsFile le)\<rparr>"

text \<open>\<open>stamp\<close> is the time in the form \<open>yyyyMMddhhmmss\<close>.\<close>

definition rotateLogs :: "(string \<Rightarrow> bool) \<Rightarrow> string \<Rightarrow> log_engine \<Rightarrow> log_engine \<times> log_op list" where
  "rotateLogs canOpen stamp le =
     (let postfix = ''-'' @ stamp @ ''.log''
      in (le\<lparr>le_statisticsFile :=
                 lf_open canOpen (le_statisticsFileName le @ ''.log'') (lf_close (le_statisticsFile le)),
             le_tunnelsFile :=
                 lf_open canOpen (le_tunnelsFileName le @ ''.log'') (lf_close (le_tunnelsFile le))\<rparr>,
          [LogRename (lf_fileName (le_tunnelsFile le)) (le_tunnelsFileName le @ postfix),
           LogRename (lf_fileName (le_statisticsFile le)) (le_statisticsFileName le @ postfix)]))"

definition logStatistics ::
  "(string \<Rightarrow> bool) \<Rightarrow> (int \<Rightarrow> string) \<Rightarrow> int \<Rightarrow> int \<Rightarrow> string \<Rightarrow> int \<Rightarrow> int \<Rightarrow> int \<Rightarrow> log_engine \<Rightarrow>
     log_engine \<times> log_op list" where
  "logStatistics canOpen number seconds today stamp tunnelCount connectionCount troughput le =
     (if \<not> lf_isOpen (le_statisticsFile le) then (le, [])
      else
        (let line = number seconds @ '' '' @ number tunnelCount @ '' '' @ number connectionCount @ '' '' @
               number troughput @ [CHR 0x0A];
             written = LogWrite (lf_fileName (le_statisticsFile le)) line
         in if le_currentDay le \<noteq> today
            then (let (le', ops) = rotateLogs canOpen stamp (le\<lparr>le_currentDay := today\<rparr>)
                  in (le', written # ops))
            else (le, [written])))"

text \<open>Nothing is logged before the engine is enabled or after it is disabled.\<close>

lemma logStatistics_closed:
  "snd (logStatistics canOpen number s d st tc cc tp (log_disable le)) = []"
  "snd (logStatistics canOpen number s d st tc cc tp (newLogEngine day)) = []"
  by (simp_all add: logStatistics_def log_disable_def lf_close_def newLogEngine_def)

text \<open>The files rotate once a day: the second line of a day goes to the new file.\<close>

lemma logStatistics_rotates_once:
  assumes "logStatistics canOpen number s d st tc cc tp le = (le', ops)"
    and "lf_isOpen (le_statisticsFile le)"
  shows "le_currentDay le' = d"
    and "length ops = (if le_currentDay le = d then 1 else 3)"
    and "le_currentDay le \<noteq> d \<Longrightarrow>
      lf_fileName (le_statisticsFile le') = le_statisticsFileName le @ ''.log''"
  using assms
  by (auto simp: logStatistics_def rotateLogs_def lf_open_def lf_close_def Let_def split: if_splits)

end
