(* ===== verification/Engine.thy ===== *)
theory Engine
  imports TcpSocketServer WebSocketServer UnixSocketServer MonitorServer LogEngine
begin

text \<open>
  \<open>engine.{h,cpp}\<close>, and \<open>startServer\<close> and \<open>stopServer\<close> of \<open>TunnelProxyServer\<close>: the
  object that owns the proxy, its transports, the monitor and the log. The calls to operating
  system and Qt that can fail are the parameters in \<open>listeners\<close>.
\<close>

record listeners =
  li_listen :: "string \<Rightarrow> quint16 \<Rightarrow> bool"
  li_listenLocal :: "string \<Rightarrow> bool"
  li_canOpen :: "string \<Rightarrow> bool"

record engine =
  eng_running :: bool
  eng_timer :: qtimer
  eng_lastTimeStamp :: int
  eng_currentTimeCounter :: int
  eng_configuration :: "proxy_configuration option"
  eng_tunnelProxyServer :: "proxy_server option"
  eng_unixSocketServer :: "unix_socket_server option"
  eng_tcpSocketServer :: "tcp_socket_server option"
  eng_webSocketServer :: "web_socket_server option"
  eng_monitorServer :: "monitor_server option"
  eng_logEngine :: log_engine
  eng_queued :: "bool list"

text \<open>\<open>eng_queued\<close>: the calls of \<open>setRunning\<close> that wait for the next round of the event loop.\<close>

definition newEngine :: "int \<Rightarrow> int \<Rightarrow> engine" where
  "newEngine now day =
     \<lparr>eng_running = False, eng_timer = \<lparr>tm_interval = 50, tm_singleShot = False, tm_active = False\<rparr>,
      eng_lastTimeStamp = now, eng_currentTimeCounter = 0, eng_configuration = None,
      eng_tunnelProxyServer = None, eng_unixSocketServer = None, eng_tcpSocketServer = None,
      eng_webSocketServer = None, eng_monitorServer = None, eng_logEngine = newLogEngine day,
      eng_queued = []\<rparr>"

section \<open>Starting and stopping the proxy\<close>

definition startInterface :: "listeners \<Rightarrow> transport_kind \<Rightarrow> engine \<Rightarrow> engine" where
  "startInterface L interface e =
     (case interface of
        TransportTcp \<Rightarrow>
          e\<lparr>eng_tcpSocketServer := map_option (\<lambda>t. snd (tcp_startServer (li_listen L) t)) (eng_tcpSocketServer e)\<rparr>
      | TransportWebSocket \<Rightarrow>
          e\<lparr>eng_webSocketServer := map_option (\<lambda>t. snd (ws_startServer (li_listen L) t)) (eng_webSocketServer e)\<rparr>
      | TransportUnix \<Rightarrow>
          e\<lparr>eng_unixSocketServer := map_option (\<lambda>t. snd (ux_startServer (li_listenLocal L) t)) (eng_unixSocketServer e)\<rparr>)"

definition stopInterface :: "transport_kind \<Rightarrow> engine \<Rightarrow> engine \<times> socket_op list" where
  "stopInterface interface e =
     (case interface of
        TransportTcp \<Rightarrow>
          (case eng_tcpSocketServer e of
             None \<Rightarrow> (e, [])
           | Some t \<Rightarrow> (case tcp_stopServer t of (_, t', ops) \<Rightarrow> (e\<lparr>eng_tcpSocketServer := Some t'\<rparr>, ops)))
      | TransportWebSocket \<Rightarrow>
          (case eng_webSocketServer e of
             None \<Rightarrow> (e, [])
           | Some t \<Rightarrow> (case ws_stopServer t of (_, t', ops) \<Rightarrow> (e\<lparr>eng_webSocketServer := Some t'\<rparr>, ops)))
      | TransportUnix \<Rightarrow>
          (case eng_unixSocketServer e of
             None \<Rightarrow> (e, [])
           | Some t \<Rightarrow> (case ux_stopServer t of (_, t', ops) \<Rightarrow> (e\<lparr>eng_unixSocketServer := Some t'\<rparr>, ops))))"

fun stopInterfaces :: "transport_kind list \<Rightarrow> engine \<Rightarrow> engine \<times> socket_op list" where
  "stopInterfaces [] e = (e, [])"
| "stopInterfaces (i # is) e =
     (let (e', ops) = stopInterface i e; (e'', ops') = stopInterfaces is e' in (e'', ops @ ops'))"

definition proxy_startServer :: "listeners \<Rightarrow> engine \<Rightarrow> engine" where
  "proxy_startServer L e =
     (case eng_tunnelProxyServer e of
        None \<Rightarrow> e
      | Some s \<Rightarrow>
          (fold (startInterface L) (ps_transportInterfaces s) e)
            \<lparr>eng_tunnelProxyServer := Some (setRunning True s)\<rparr>)"

definition proxy_stopServer :: "engine \<Rightarrow> engine \<times> socket_op list" where
  "proxy_stopServer e =
     (case eng_tunnelProxyServer e of
        None \<Rightarrow> (e, [])
      | Some s \<Rightarrow>
          (let (e', ops) = stopInterfaces (ps_transportInterfaces s) e
           in (e'\<lparr>eng_tunnelProxyServer := Some (setRunning False s)\<rparr>, ops)))"

section \<open>The engine\<close>

definition eng_clean :: "engine \<Rightarrow> engine \<times> socket_op list" where
  "eng_clean e =
     (let (e, mops) =
            (case eng_monitorServer e of
               None \<Rightarrow> (e, [])
             | Some m \<Rightarrow> (e\<lparr>eng_monitorServer := None\<rparr>, snd (mon_stopServer m)));
          (e, ops) =
            (case eng_tunnelProxyServer e of
               None \<Rightarrow> (e, [])
             | Some s \<Rightarrow> (case proxy_stopServer e of (e', ops) \<Rightarrow> (e'\<lparr>eng_tunnelProxyServer := None\<rparr>, ops)))
      in (e\<lparr>eng_tcpSocketServer := None, eng_webSocketServer := None, eng_unixSocketServer := None,
             eng_configuration := None\<rparr>, mops @ ops))"

definition eng_setRunning :: "bool \<Rightarrow> engine \<Rightarrow> engine" where
  "eng_setRunning running e =
     (if eng_running e = running then e
      else e\<lparr>eng_tunnelProxyServer := map_option (setRunning running) (eng_tunnelProxyServer e),
             eng_timer := (if running then timer_start (eng_timer e) else timer_stop (eng_timer e)),
             eng_running := running\<rparr>)"

definition webSocketUrl :: "proxy_configuration \<Rightarrow> server_url" where
  "webSocketUrl c =
     \<lparr>url_scheme = (if cfg_sslEnabled c then ''wss'' else ''ws''),
      url_host = cfg_webSocketServerTunnelProxyHost c, url_port = cfg_webSocketServerTunnelProxyPort c\<rparr>"

definition tcpUrl :: "proxy_configuration \<Rightarrow> server_url" where
  "tcpUrl c =
     \<lparr>url_scheme = (if cfg_sslEnabled c then ''ssl'' else ''tcp''),
      url_host = cfg_tcpServerTunnelProxyHost c, url_port = cfg_tcpServerTunnelProxyPort c\<rparr>"

definition eng_start :: "listeners \<Rightarrow> proxy_configuration \<Rightarrow> engine \<Rightarrow> engine \<times> socket_op list" where
  "eng_start L c e =
     (let (e, ops) = eng_clean e;
          s = registerTransportInterface TransportUnix
                (registerTransportInterface TransportTcp
                  (registerTransportInterface TransportWebSocket (newTunnelProxyServer c)));
          e = e\<lparr>eng_configuration := Some c, eng_tunnelProxyServer := Some s,
                eng_webSocketServer :=
                  Some (setServerUrl (webSocketUrl c) (newWebSocketServer (cfg_sslEnabled c) (cfg_sslConfiguration c))),
                eng_tcpSocketServer :=
                  Some (setServerUrl (tcpUrl c) (newTcpSocketServer (cfg_sslEnabled c) (cfg_sslConfiguration c))),
                eng_unixSocketServer := Some (newUnixSocketServer (cfg_unixSocketFileName c))\<rparr>;
          e = proxy_startServer L e;
          e = e\<lparr>eng_monitorServer :=
                  Some (mon_startServer (li_listenLocal L) (newMonitorServer (cfg_monitorSocketFileName c)))\<rparr>;
          e = (if cfg_logEngineEnabled c then e\<lparr>eng_logEngine := log_enable (li_canOpen L) (eng_logEngine e)\<rparr> else e)
      in (e\<lparr>eng_queued := eng_queued e @ [True]\<rparr>, ops))"

definition eng_stop :: "engine \<Rightarrow> engine \<times> socket_op list" where
  "eng_stop e = (let (e, ops) = eng_clean e in (eng_setRunning False e, ops))"

text \<open>The event loop runs a queued call.\<close>

definition eng_runQueued :: "engine \<Rightarrow> engine" where
  "eng_runQueued e =
     (case eng_queued e of
        [] \<Rightarrow> e
      | b # bs \<Rightarrow> eng_setRunning b (e\<lparr>eng_queued := bs\<rparr>))"

text \<open>\<open>m_currentTimeCounter\<close> is an \<open>int\<close> of 32 bits.\<close>

definition wrap32 :: "int \<Rightarrow> int" where
  "wrap32 i = sint (word_of_int i :: 32 word)"

definition eng_onTimerTick :: "int \<Rightarrow> engine \<Rightarrow> engine" where
  "eng_onTimerTick timestamp e =
     (let deltaTime = timestamp - eng_lastTimeStamp e;
          counter = wrap32 (eng_currentTimeCounter e + deltaTime);
          e = e\<lparr>eng_lastTimeStamp := timestamp, eng_currentTimeCounter := counter\<rparr>
      in if 1000 \<le> counter
         then e\<lparr>eng_currentTimeCounter := 0,
                eng_tunnelProxyServer := map_option tick (eng_tunnelProxyServer e)\<rparr>
         else e)"

text \<open>What the monitor shows; the number of connections of each transport is its own.\<close>

definition eng_connections :: "engine \<Rightarrow> transport_kind \<Rightarrow> nat" where
  "eng_connections e interface =
     (case interface of
        TransportTcp \<Rightarrow> (case eng_tcpSocketServer e of None \<Rightarrow> 0 | Some t \<Rightarrow> tcp_connectionsCount t)
      | TransportWebSocket \<Rightarrow> (case eng_webSocketServer e of None \<Rightarrow> 0 | Some t \<Rightarrow> ws_connectionsCount t)
      | TransportUnix \<Rightarrow> (case eng_unixSocketServer e of None \<Rightarrow> 0 | Some t \<Rightarrow> ux_connectionsCount t))"

definition buildMonitorData :: "env \<Rightarrow> bool \<Rightarrow> engine \<Rightarrow> vmap option" where
  "buildMonitorData E printAll e =
     (case (eng_configuration e, eng_tunnelProxyServer e) of
        (Some c, Some s) \<Rightarrow>
          Some (qinsert ''tunnelProxyStatistic'' (VMap (currentStatistics E (eng_connections e) printAll s))
            (qinsert ''apiVersion'' (VString (env_API_VERSION_STRING E))
              (qinsert ''serverVersion'' (VString (env_SERVER_VERSION_STRING E))
                (qinsert ''serverName'' (VString (cfg_serverName c)) []))))
      | _ \<Rightarrow> None)"

section \<open>Start and stop\<close>

lemma startInterface_frame [simp]:
  "eng_tunnelProxyServer (startInterface L i e) = eng_tunnelProxyServer e"
  "eng_running (startInterface L i e) = eng_running e"
  "eng_timer (startInterface L i e) = eng_timer e"
  "eng_configuration (startInterface L i e) = eng_configuration e"
  "eng_queued (startInterface L i e) = eng_queued e"
  by (simp_all add: startInterface_def split: transport_kind.splits)

lemma stopInterfaces_frame [simp]:
  "eng_running (fst (stopInterfaces is e)) = eng_running e"
  "eng_timer (fst (stopInterfaces is e)) = eng_timer e"
  "eng_queued (fst (stopInterfaces is e)) = eng_queued e"
  "eng_monitorServer (fst (stopInterfaces is e)) = eng_monitorServer e"
  by (induction "is" arbitrary: e)
    (auto simp: stopInterface_def tcp_stopServer_def ws_stopServer_def ux_stopServer_def split_beta
      split: transport_kind.splits option.splits)

text \<open>Cleaning leaves no component behind.\<close>

lemma eng_clean_empty:
  assumes "eng_clean e = (e', ops)"
  shows "eng_tunnelProxyServer e' = None" "eng_monitorServer e' = None" "eng_configuration e' = None"
    "eng_tcpSocketServer e' = None" "eng_webSocketServer e' = None" "eng_unixSocketServer e' = None"
    "eng_running e' = eng_running e" "eng_timer e' = eng_timer e" "eng_queued e' = eng_queued e"
  using assms
  by (auto simp: eng_clean_def proxy_stopServer_def Let_def split_beta split: option.splits)

lemma startInterfaces_frame [simp]:
  "eng_tunnelProxyServer (fold (startInterface L) is e) = eng_tunnelProxyServer e"
  "eng_running (fold (startInterface L) is e) = eng_running e"
  "eng_timer (fold (startInterface L) is e) = eng_timer e"
  "eng_configuration (fold (startInterface L) is e) = eng_configuration e"
  "eng_queued (fold (startInterface L) is e) = eng_queued e"
  by (induction "is" arbitrary: e) simp_all

text \<open>The proxy of a started engine is a new one with all three transports, running.\<close>

definition startedProxy :: "proxy_configuration \<Rightarrow> proxy_server" where
  "startedProxy c =
     setRunning True
       (registerTransportInterface TransportUnix
         (registerTransportInterface TransportTcp
           (registerTransportInterface TransportWebSocket (newTunnelProxyServer c))))"

lemma startedProxy_simps:
  "ps_running (startedProxy c)"
  "ps_transportInterfaces (startedProxy c) = [TransportWebSocket, TransportTcp, TransportUnix]"
  "ps_configuration (startedProxy c) = c"
  "ps_proxyClients (startedProxy c) = []"
  by (simp_all add: startedProxy_def setRunning_def registerTransportInterface_def
      newTunnelProxyServer_def registerHandler_def)

lemma proxy_startServer_simps:
  assumes "eng_tunnelProxyServer e = Some s"
  shows "eng_tunnelProxyServer (proxy_startServer L e) = Some (setRunning True s)"
    "eng_running (proxy_startServer L e) = eng_running e"
    "eng_timer (proxy_startServer L e) = eng_timer e"
    "eng_configuration (proxy_startServer L e) = eng_configuration e"
    "eng_queued (proxy_startServer L e) = eng_queued e"
  using assms by (simp_all add: proxy_startServer_def)

lemma eng_start_simps:
  assumes "eng_start L c e = (e', ops)"
  shows "eng_tunnelProxyServer e' = Some (startedProxy c)" "eng_configuration e' = Some c"
    "eng_running e' = eng_running e" "eng_timer e' = eng_timer e"
    "eng_queued e' = eng_queued e @ [True]" "eng_monitorServer e' \<noteq> None"
proof -
  obtain e1 ops1 where e1: "eng_clean e = (e1, ops1)" by fastforce
  note C = eng_clean_empty [OF e1]
  show "eng_tunnelProxyServer e' = Some (startedProxy c)" "eng_configuration e' = Some c"
    "eng_running e' = eng_running e" "eng_timer e' = eng_timer e"
    "eng_queued e' = eng_queued e @ [True]" "eng_monitorServer e' \<noteq> None"
    using assms C(7-9)
    by (cases "cfg_logEngineEnabled c";
        auto simp: eng_start_def Let_def e1 proxy_startServer_simps startedProxy_def)+
qed

text \<open>A second passes in the statistics only when 1000 ms were counted.\<close>

lemma wrap32_id: "- (2 ^ 31) \<le> i \<Longrightarrow> i < 2 ^ 31 \<Longrightarrow> wrap32 i = i"
  by (simp add: wrap32_def sint_sbintrunc' signed_take_bit_int_eq_self)

lemma eng_tick_no_wrap:
  assumes "0 \<le> eng_currentTimeCounter e" "eng_currentTimeCounter e < 1000"
    and "eng_lastTimeStamp e \<le> now" "now - eng_lastTimeStamp e < 2 ^ 31 - 1000"
  shows "eng_currentTimeCounter (eng_onTimerTick now e) =
      (if 1000 \<le> eng_currentTimeCounter e + (now - eng_lastTimeStamp e) then 0
       else eng_currentTimeCounter e + (now - eng_lastTimeStamp e))"
proof -
  let ?i = "eng_currentTimeCounter e + (now - eng_lastTimeStamp e)"
  have "wrap32 ?i = ?i"
    by (rule wrap32_id) (use assms in auto)
  then show ?thesis
    by (simp add: eng_onTimerTick_def Let_def)
qed

end
