(* ===== verification/Applications.thy ===== *)
theory Applications
  imports ProxyClient Config ProxyConnection
begin

text \<open>
  What the three programs do themselves: the decisions of \<open>server/main.cpp\<close>,
  \<open>tunnelclient/main.cpp\<close> and \<open>monitor/main.cpp\<close> after Qt parsed the command line, and the
  monitor's client of the statistics socket, \<open>monitor/monitorclient.cpp\<close>.
\<close>

section \<open>The server\<close>

text \<open>
  \<open>so_logfile\<close> is the value of an option that is set. \<open>logDirectory\<close> and \<open>logOpens\<close>: the
  directory of the log file exists or can be made, and the file opens.
\<close>

record server_options =
  so_configuration :: string
  so_logfile :: "string option"

datatype server_start =
    ServerExitFailure
  | ServerRun proxy_configuration "string option"

definition server_main ::
  "env \<Rightarrow> files \<Rightarrow> (string \<Rightarrow> bool) \<Rightarrow> (string \<Rightarrow> bool) \<Rightarrow> server_options \<Rightarrow> server_start" where
  "server_main E F logDirectory logOpens opts =
     (case loadConfiguration E F (so_configuration opts) defaultConfiguration of
        (False, _) \<Rightarrow> ServerExitFailure
      | (True, c) \<Rightarrow>
          (let c = (case so_logfile opts of
                      None \<Rightarrow> c
                    | Some f \<Rightarrow> setLogFileName f (setWriteLogFile True c))
           in if cfg_writeLogFile c \<and> \<not> logDirectory (cfg_logFileName c) then ServerExitFailure
              else if cfg_writeLogFile c \<and> \<not> logOpens (cfg_logFileName c) then ServerExitFailure
              else if cfg_sslEnabled c \<and> cfg_sslConfiguration c = None then ServerExitFailure
              else ServerRun c (if cfg_writeLogFile c then Some (cfg_logFileName c) else None)))"

section \<open>The tunnel client\<close>

record tunnel_options =
  to_url :: proxy_url
  to_insecure :: bool
  to_server :: bool
  to_client :: bool
  to_name :: string
  to_random :: bool
  to_uuid :: string
  to_serverUuid :: "string option"

datatype tunnel_start =
    TunnelExitFailure
  | TunnelServer proxy_url string uuid bool bool
  | TunnelClient proxy_url string uuid uuid bool bool

text \<open>\<open>fresh\<close> is the uuid that \<open>createUuid\<close> gives.\<close>

definition tunnelclient_main :: "env \<Rightarrow> uuid \<Rightarrow> tunnel_options \<Rightarrow> tunnel_start" where
  "tunnelclient_main E fresh opts =
     (if to_server opts \<and> to_client opts then TunnelExitFailure
      else
        (let uuid = env_uuidOfString E (to_uuid opts);
             uuid = (if uuid = nullUuid then fresh else uuid)
         in if \<not> pu_valid (to_url opts) then TunnelExitFailure
            else if to_server opts \<or> (\<not> to_server opts \<and> \<not> to_client opts) then
              TunnelServer (to_url opts) (if to_name opts = [] then ''Server connection'' else to_name opts)
                uuid (to_insecure opts) (to_random opts)
            else
              (case to_serverUuid opts of
                 None \<Rightarrow> TunnelExitFailure
               | Some text \<Rightarrow>
                   (let serverUuid = env_uuidOfString E text
                    in if serverUuid = nullUuid then TunnelExitFailure
                       else TunnelClient (to_url opts)
                              (if to_name opts = [] then ''Client connection'' else to_name opts)
                              uuid serverUuid (to_insecure opts) (to_random opts)))))"

section \<open>The monitor\<close>

record monitor_options =
  mo_socketExists :: bool
  mo_socketReadable :: bool
  mo_nonInteractive :: bool
  mo_all :: bool
  mo_json :: bool

text \<open>The two programs with the arguments \<open>jsonMode\<close> and \<open>printAll\<close>.\<close>

datatype monitor_start =
    MonitorExitFailure
  | MonitorNonInteractive bool bool
  | MonitorInteractive bool

definition monitor_main :: "monitor_options \<Rightarrow> monitor_start" where
  "monitor_main opts =
     (if \<not> mo_socketExists opts then MonitorExitFailure
      else if \<not> mo_socketReadable opts then MonitorExitFailure
      else if mo_nonInteractive opts \<or> mo_json opts
      then MonitorNonInteractive (mo_json opts) (mo_all opts)
      else if mo_all opts then MonitorExitFailure
      else MonitorInteractive (mo_json opts))"

section \<open>The monitor's client\<close>

record monitor_client =
  mc_serverName :: string
  mc_printAll :: bool
  mc_jsonMode :: bool
  mc_dataBuffer :: bytes

definition newMonitorClient :: "string \<Rightarrow> bool \<Rightarrow> monitor_client" where
  "newMonitorClient serverName jsonMode =
     \<lparr>mc_serverName = serverName, mc_printAll = False, mc_jsonMode = jsonMode, mc_dataBuffer = []\<rparr>"

definition setPrintAll :: "bool \<Rightarrow> monitor_client \<Rightarrow> monitor_client" where
  "setPrintAll printAll mc = mc\<lparr>mc_printAll := printAll\<rparr>"

text \<open>What the client does; in JSON mode it prints a message and ends with a failure code. The socket is
  asked to connect, to write or to close.\<close>

datatype monitor_output =
    McDataReady vmap
  | McPrintAndExitFailure variant
  | McConnected
  | McDisconnected
  | McConnectToServer string
  | McClose

definition connectMonitor :: "monitor_client \<Rightarrow> monitor_output list" where
  "connectMonitor mc = [McConnectToServer (mc_serverName mc)]"

definition disconnectMonitor :: "monitor_client \<Rightarrow> monitor_output list" where
  "disconnectMonitor mc = [McClose]"

definition mc_onConnected :: "monitor_client \<Rightarrow> monitor_output list" where
  "mc_onConnected mc = [McConnected]"

definition mc_onDisconnected :: "monitor_client \<Rightarrow> monitor_output list" where
  "mc_onDisconnected mc = [McDisconnected]"

definition processBufferData :: "env \<Rightarrow> monitor_client \<Rightarrow> monitor_output list" where
  "processBufferData E mc =
     (case env_fromJson E (mc_dataBuffer mc) of
        Inl _ \<Rightarrow> []
      | Inr jsonDoc \<Rightarrow>
          if mc_jsonMode mc then [McPrintAndExitFailure jsonDoc] else [McDataReady (vtoMap jsonDoc)])"

definition mc_onReadyRead :: "env \<Rightarrow> bytes \<Rightarrow> monitor_client \<Rightarrow> monitor_client \<times> monitor_output list" where
  "mc_onReadyRead E data mc =
     (case indexOf [braceClose, newline] data of
        None \<Rightarrow> (mc\<lparr>mc_dataBuffer := mc_dataBuffer mc @ data\<rparr>, [])
      | Some i \<Rightarrow>
          (let mc' = mc\<lparr>mc_dataBuffer := mc_dataBuffer mc @ take (i + 1) data\<rparr>
           in (mc'\<lparr>mc_dataBuffer := drop (i + 2) data\<rparr>, processBufferData E mc')))"

text \<open>The request, sent when the socket is connected.\<close>

definition mc_refresh :: "env \<Rightarrow> bool \<Rightarrow> monitor_client \<Rightarrow> bytes list" where
  "mc_refresh E connected mc =
     (if \<not> connected then []
      else
        (let request = qinsert ''method'' (VString ''refresh'') [];
             params = (if mc_printAll mc then qinsert ''printAll'' (VBool (mc_printAll mc)) [] else []);
             request = (if params \<noteq> [] then qinsert ''params'' (VMap params) request else request)
         in [env_toJson E (VMap request) @ [newline]]))"

text \<open>\<open>getDurationString\<close>, the numbers of hours, minutes and seconds; \<open>uint\<close> has 32 bits.\<close>

definition getDuration :: "quint32 \<Rightarrow> quint32 \<Rightarrow> nat \<times> nat \<times> nat" where
  "getDuration now timestamp =
     (let duration = unat (now - timestamp)
      in (duration div 60 div 60 mod 24, duration div 60 mod 60, duration mod 60))"

text \<open>A message that comes in one chunk is read, and the reader is empty again.\<close>

lemma indexOf_marker:
  assumes "newline \<notin> set body"
  shows "indexOf [braceClose, newline] (body @ [braceClose, newline] @ rest) = Some (length body)"
  using assms
proof (induction body)
  case (Cons x xs)
  then have "take 2 (x # xs @ [braceClose, newline] @ rest) \<noteq> [braceClose, newline]"
    by (cases xs) (auto simp: braceClose_def newline_def)
  with Cons show ?case by (simp add: numeral_2_eq_2)
qed (simp add: numeral_2_eq_2)

lemma mc_whole_message:
  assumes "mc_dataBuffer mc = []" "newline \<notin> set body" "env_fromJson E (body @ [braceClose]) = Inr doc"
  shows "mc_onReadyRead E (body @ [braceClose, newline]) mc =
    (mc, [if mc_jsonMode mc then McPrintAndExitFailure doc else McDataReady (vtoMap doc)])"
  using assms indexOf_marker [OF assms(2), of "[]"]
  by (simp add: mc_onReadyRead_def processBufferData_def Let_def)

text \<open>The marker is looked for in the new chunk only: a message cut between its last two bytes is
  not handed on.\<close>

lemma indexOf_no_newline: "newline \<notin> set xs \<Longrightarrow> indexOf [braceClose, newline] xs = None"
proof (induction xs)
  case (Cons x xs)
  then have "take 2 (x # xs) \<noteq> [braceClose, newline]"
    by (cases xs) (auto simp: numeral_2_eq_2)
  with Cons show ?case by (simp add: numeral_2_eq_2)
qed simp

lemma mc_cut_message:
  assumes "newline \<notin> set body"
  shows "mc_onReadyRead E [newline] (fst (mc_onReadyRead E (body @ [braceClose]) mc)) =
    (mc\<lparr>mc_dataBuffer := mc_dataBuffer mc @ body @ [braceClose, newline]\<rparr>, [])"
proof -
  from indexOf_no_newline [of "body @ [braceClose]"] have "indexOf [braceClose, newline] (body @ [braceClose]) = None"
    using assms by (simp add: braceClose_def newline_def)
  moreover have "indexOf [braceClose, newline] [newline] = None"
    by (simp add: braceClose_def newline_def)
  ultimately show ?thesis
    by (simp add: mc_onReadyRead_def)
qed

end
