(* ===== verification/EngineProperties.thy ===== *)
theory EngineProperties
  imports Engine Applications JsonTypes Demo
begin

text \<open>
  The life of the server process: which configurations it starts with, what the engine starts and
  stops, how it counts seconds, how parameters are validated and how the monitor gets its data.
\<close>

section \<open>Starting\<close>

text \<open>C35: The server starts exactly when its settings exist, the certificate, the key and (where one
  is named) the chain can be read, and the log file, where one is written, can be opened; whether SSL
  is enabled plays no part. It then runs with the settings that were read and an SSL configuration.\<close>

theorem server_starts_iff_configured:
  "(server_main E F logDirectory logOpens opts \<noteq> ServerExitFailure) =
     (let c = readSettings E F (defaultConfiguration\<lparr>cfg_fileName := so_configuration opts\<rparr>);
          logFile = (case so_logfile opts of
             None \<Rightarrow> if cfg_writeLogFile c then Some (cfg_logFileName c) else None | Some f \<Rightarrow> Some f)
      in fs_exists F (so_configuration opts) \<and>
         fs_read F (cfg_sslCertificateFileName c) \<noteq> None \<and> fs_read F (cfg_sslCertificateKeyFileName c) \<noteq> None \<and>
         (cfg_sslCertificateChainFileName c = [] \<or> fs_read F (cfg_sslCertificateChainFileName c) \<noteq> None) \<and>
         (case logFile of None \<Rightarrow> True | Some f \<Rightarrow> logDirectory f \<and> logOpens f))"
proof -
  define c where "c = readSettings E F (defaultConfiguration\<lparr>cfg_fileName := so_configuration opts\<rparr>)"
  obtain ok d where load: "loadSslConfiguration F c = (ok, d)" by fastforce
  have d: "cfg_writeLogFile d = cfg_writeLogFile c" "cfg_logFileName d = cfg_logFileName c"
    using loadSslConfiguration_settings [of F c] load by (metis (no_types, lifting) proxy_configuration.ext_inject
      proxy_configuration.surjective proxy_configuration.update_convs(13) snd_conv)+
  have "loadConfiguration E F (so_configuration opts) defaultConfiguration =
      (if fs_exists F (so_configuration opts) then (ok, d)
       else (False, defaultConfiguration\<lparr>cfg_fileName := so_configuration opts\<rparr>))"
    by (simp add: loadConfiguration_def load flip: c_def)
  moreover have "ok \<Longrightarrow> cfg_sslConfiguration d \<noteq> None"
    using loadSslConfiguration_result [of F c] load by auto
  moreover have "ok \<longleftrightarrow> fs_read F (cfg_sslCertificateFileName c) \<noteq> None \<and>
      fs_read F (cfg_sslCertificateKeyFileName c) \<noteq> None \<and>
      (cfg_sslCertificateChainFileName c = [] \<or> fs_read F (cfg_sslCertificateChainFileName c) \<noteq> None)"
    using loadSslConfiguration_accept [of F c] load by simp
  ultimately show ?thesis
    unfolding server_main_def Let_def c_def [symmetric]
    by (auto simp: d setters Let_def split: option.split bool.split if_splits)
qed

lemma unstartedProxy_interfaces:
  "ps_transportInterfaces (registerTransportInterface TransportUnix (registerTransportInterface TransportTcp
     (registerTransportInterface TransportWebSocket (newTunnelProxyServer c)))) =
   [TransportWebSocket, TransportTcp, TransportUnix]"
  using startedProxy_simps(2) [of c] by (simp add: startedProxy_def setRunning_def split: if_splits)

lemma startedInterfaces_simps:
  "eng_webSocketServer (fold (startInterface L) [TransportWebSocket, TransportTcp, TransportUnix] e) =
     map_option (\<lambda>t. snd (ws_startServer (li_listen L) t)) (eng_webSocketServer e)"
  "eng_tcpSocketServer (fold (startInterface L) [TransportWebSocket, TransportTcp, TransportUnix] e) =
     map_option (\<lambda>t. snd (tcp_startServer (li_listen L) t)) (eng_tcpSocketServer e)"
  "eng_unixSocketServer (fold (startInterface L) [TransportWebSocket, TransportTcp, TransportUnix] e) =
     map_option (\<lambda>t. snd (ux_startServer (li_listenLocal L) t)) (eng_unixSocketServer e)"
  by (simp_all add: startInterface_def)

lemma startServer_running:
  "ws_running (snd (ws_startServer listen t)) = listen (url_host (tr_serverUrl t)) (url_port (tr_serverUrl t))"
  "tcp_running (snd (tcp_startServer listen u)) = listen (url_host (tr_serverUrl u)) (url_port (tr_serverUrl u))"
  "ux_running (snd (ux_startServer listenLocal v)) = listenLocal (ux_socketFileName v)"
  "mon_running (mon_startServer listenLocal m) = listenLocal (mon_serverName m)"
  by (simp_all add: ws_running_def ws_startServer_def tcp_running_def tcp_startServer_def ux_running_def
      ux_startServer_def mon_running_def mon_startServer_def Let_def newSslServer_def)

lemma eng_start_servers:
  assumes "eng_start L c e = (e', ops)"
  shows "map_option ws_running (eng_webSocketServer e') =
      Some (li_listen L (cfg_webSocketServerTunnelProxyHost c) (cfg_webSocketServerTunnelProxyPort c))"
    "map_option tcp_running (eng_tcpSocketServer e') =
      Some (li_listen L (cfg_tcpServerTunnelProxyHost c) (cfg_tcpServerTunnelProxyPort c))"
    "map_option ux_running (eng_unixSocketServer e') = Some (li_listenLocal L (cfg_unixSocketFileName c))"
    "map_option mon_running (eng_monitorServer e') = Some (li_listenLocal L (cfg_monitorSocketFileName c))"
proof -
  obtain e1 ops1 where e1: "eng_clean e = (e1, ops1)" by fastforce
  show "map_option ws_running (eng_webSocketServer e') =
      Some (li_listen L (cfg_webSocketServerTunnelProxyHost c) (cfg_webSocketServerTunnelProxyPort c))"
    "map_option tcp_running (eng_tcpSocketServer e') =
      Some (li_listen L (cfg_tcpServerTunnelProxyHost c) (cfg_tcpServerTunnelProxyPort c))"
    "map_option ux_running (eng_unixSocketServer e') = Some (li_listenLocal L (cfg_unixSocketFileName c))"
    "map_option mon_running (eng_monitorServer e') = Some (li_listenLocal L (cfg_monitorSocketFileName c))"
    using assms
    by (cases "cfg_logEngineEnabled c";
        auto simp: eng_start_def Let_def e1 proxy_startServer_def unstartedProxy_interfaces startedInterfaces_simps
          startServer_running webSocketUrl_def tcpUrl_def setServerUrl_def newUnixSocketServer_def newMonitorServer_def
          simp del: fold.simps)+
qed

text \<open>A file system with every file and no settings.\<close>

definition all_files :: files where
  "all_files = \<lparr>fs_exists = (\<lambda>_. True), fs_setting = (\<lambda>_ _ _. None), fs_read = (\<lambda>_. Some [1]), fs_hostAddress = id\<rparr>"

theorem server_starts_iff_configured_witness:
  "server_main demo_env all_files (\<lambda>_. True) (\<lambda>_. False)
     \<lparr>so_configuration = ''proxy.conf'', so_logfile = None\<rparr> \<noteq> ServerExitFailure \<and>
   server_main demo_env all_files (\<lambda>_. True) (\<lambda>_. False)
     \<lparr>so_configuration = ''proxy.conf'', so_logfile = Some ''proxy.log''\<rparr> = ServerExitFailure"
proof -
  have "server_main demo_env all_files (\<lambda>_. True) (\<lambda>_. False)
     \<lparr>so_configuration = ''proxy.conf'', so_logfile = None\<rparr> \<noteq> ServerExitFailure"
    by (subst server_starts_iff_configured) (simp add: all_files_def readSettings_def setters setting_def Let_def)
  moreover have "\<not> (server_main demo_env all_files (\<lambda>_. True) (\<lambda>_. False)
     \<lparr>so_configuration = ''proxy.conf'', so_logfile = Some ''proxy.log''\<rparr> \<noteq> ServerExitFailure)"
    by (subst server_starts_iff_configured) (simp add: all_files_def)
  ultimately show ?thesis by blast
qed

text \<open>C33: A start brings everything up: one round of the event loop later the engine runs with its
  timer, a new proxy that knows the three transports and is running, and each transport and the
  monitor listening exactly where it could.\<close>

theorem engine_starts:
  assumes "\<not> eng_running e" "eng_queued e = []" "eng_runQueued (fst (eng_start L c e)) = e'"
  shows "eng_running e' \<and> tm_active (eng_timer e') \<and> eng_configuration e' = Some c \<and>
    eng_tunnelProxyServer e' = Some (startedProxy c) \<and>
    map_option ws_running (eng_webSocketServer e') =
      Some (li_listen L (cfg_webSocketServerTunnelProxyHost c) (cfg_webSocketServerTunnelProxyPort c)) \<and>
    map_option tcp_running (eng_tcpSocketServer e') =
      Some (li_listen L (cfg_tcpServerTunnelProxyHost c) (cfg_tcpServerTunnelProxyPort c)) \<and>
    map_option ux_running (eng_unixSocketServer e') = Some (li_listenLocal L (cfg_unixSocketFileName c)) \<and>
    map_option mon_running (eng_monitorServer e') = Some (li_listenLocal L (cfg_monitorSocketFileName c))"
proof -
  obtain e1 ops where start: "eng_start L c e = (e1, ops)" by fastforce
  have "setRunning True (startedProxy c) = startedProxy c"
    using startedProxy_simps(1) [of c] by (simp add: setRunning_def)
  moreover have "e' = eng_setRunning True (e1\<lparr>eng_queued := []\<rparr>)"
    using assms eng_start_simps(5) [OF start] by (simp add: start eng_runQueued_def)
  ultimately show ?thesis
    using eng_start_simps [OF start] eng_start_servers [OF start] assms(1)
    by (simp add: eng_setRunning_def timer_start_def)
qed

lemma engine_starts_new: "eng_runQueued (fst (eng_start L c (newEngine now day))) =
    eng_runQueued (fst (eng_start L c (newEngine now day)))"
  by (rule refl)

theorem engine_starts_witness:
  "map_option tcp_running (eng_tcpSocketServer (eng_runQueued (fst (eng_start
     \<lparr>li_listen = (\<lambda>_ port. port = 2213), li_listenLocal = (\<lambda>_. True), li_canOpen = (\<lambda>_. True)\<rparr>
     defaultConfiguration (newEngine 0 0))))) = Some True"
  using engine_starts [OF _ _ engine_starts_new, of 0 0
      "\<lparr>li_listen = (\<lambda>_ port. port = 2213), li_listenLocal = (\<lambda>_. True), li_canOpen = (\<lambda>_. True)\<rparr>"
      defaultConfiguration]
  by (simp add: newEngine_def defaultConfiguration_def)

section \<open>Stopping\<close>

text \<open>The sockets of the transports that are up, and of the monitor.\<close>

definition connectedSockets :: "engine \<Rightarrow> socket set" where
  "connectedSockets e =
     (case eng_tcpSocketServer e of
        None \<Rightarrow> {} | Some t \<Rightarrow> if tcp_server t = None then {} else snd ` set (tcp_clientList t)) \<union>
     (case eng_webSocketServer e of None \<Rightarrow> {} | Some t \<Rightarrow> snd ` set (ws_clientList t)) \<union>
     (case eng_unixSocketServer e of
        None \<Rightarrow> {} | Some t \<Rightarrow> if ux_server t = None then {} else snd ` set (ux_clientList t)) \<union>
     (case eng_monitorServer e of
        None \<Rightarrow> {} | Some m \<Rightarrow> if mon_server m = None then {} else set (mon_clients m))"

definition closes :: "socket_op list \<Rightarrow> socket set" where
  "closes ops = {op_socket op | op. op \<in> set ops \<and> op_closes op}"

lemma closes_simps [simp]:
  "closes [] = {}"
  "closes (ops @ ops') = closes ops \<union> closes ops'"
  by (auto simp: closes_def)

lemma closes_Cons [simp]:
  "closes (op # ops) = (if op_closes op then {op_socket op} else {}) \<union> closes ops"
  by (auto simp: closes_def)

lemma closes_map [simp]: "closes (map (SockClose \<circ> f) xs) = f ` set xs"
  by (induction xs) simp_all

lemma closes_map_plain [simp]: "closes (map SockClose xs) = set xs"
  by (induction xs) simp_all

lemma closes_concat: "closes (concat (map f xs)) = (\<Union>x \<in> set xs. closes (f x))"
  by (induction xs) simp_all

lemma tcp_stop_closes:
  assumes "tableOk (tcp_clientList t)"
  shows "closes (snd (snd (tcp_stopServer t))) = (if tcp_server t = None then {} else snd ` set (tcp_clientList t))"
proof -
  have "closes (tcp_killClientConnection k r t) = {x. map_of (tcp_clientList t) k = Some x}" for k r
    by (simp add: tcp_killClientConnection_def split: option.split)
  moreover have "(\<Union>k \<in> fst ` set (tcp_clientList t). {x. map_of (tcp_clientList t) k = Some x}) =
      snd ` set (tcp_clientList t)"
    using assms by (force simp: qwf_map_of_eq tableOk_def)
  ultimately show ?thesis
    by (simp add: tcp_stopServer_def closes_concat split: option.split)
qed

lemma ws_stop_closes: "closes (snd (snd (ws_stopServer t))) = snd ` set (ws_clientList t)"
  by (force simp: ws_stopServer_def closes_concat qvalues_def)

lemma ux_stop_closes:
  "closes (snd (snd (ux_stopServer t))) = (if ux_server t = None then {} else snd ` set (ux_clientList t))"
  by (simp add: ux_stopServer_def qvalues_def split: option.split)

lemma mon_stop_closes:
  "closes (snd (mon_stopServer m)) = (if mon_server m = None then {} else set (mon_clients m))"
  by (simp add: mon_stopServer_def split: option.split)

lemma stopInterfaces_closes:
  assumes "case eng_tcpSocketServer e of None \<Rightarrow> True | Some t \<Rightarrow> tableOk (tcp_clientList t)"
  shows "closes (snd (stopInterfaces [TransportWebSocket, TransportTcp, TransportUnix] e)) \<union>
    (case eng_monitorServer e of None \<Rightarrow> {} | Some m \<Rightarrow> closes (snd (mon_stopServer m))) = connectedSockets e"
  using assms
  by (cases "eng_tcpSocketServer e"; cases "eng_webSocketServer e"; cases "eng_unixSocketServer e";
      cases "eng_monitorServer e")
    (simp_all add: stopInterface_def split_beta connectedSockets_def tcp_stop_closes ws_stop_closes ux_stop_closes
      mon_stop_closes Un_ac)

lemma eng_stop_all:
  assumes "eng_tunnelProxyServer e = Some s"
    and "ps_transportInterfaces s = [TransportWebSocket, TransportTcp, TransportUnix]"
    and "eng_tcpSocketServer e = Some t" "tableOk (tcp_clientList t)"
    and "eng_running e = tm_active (eng_timer e)" "eng_stop e = (e', ops)"
  shows "closes ops = connectedSockets e \<and> \<not> eng_running e' \<and> \<not> tm_active (eng_timer e') \<and>
    eng_tunnelProxyServer e' = None \<and> eng_monitorServer e' = None \<and> eng_configuration e' = None \<and>
    eng_tcpSocketServer e' = None \<and> eng_webSocketServer e' = None \<and> eng_unixSocketServer e' = None"
proof -
  obtain e1 ops1 where c: "eng_clean e = (e1, ops1)" by fastforce
  have e': "e' = eng_setRunning False e1" "ops = ops1"
    using assms(6) by (simp_all add: eng_stop_def c)
  have "closes ops1 = connectedSockets e"
  proof (cases "eng_monitorServer e")
    case None
    with c assms(1,2) have "ops1 = snd (stopInterfaces [TransportWebSocket, TransportTcp, TransportUnix] e)"
      by (simp add: eng_clean_def proxy_stopServer_def split_beta Let_def)
    with stopInterfaces_closes [of e] None assms(3,4) show ?thesis by simp
  next
    case (Some m)
    let ?e = "e\<lparr>eng_monitorServer := None\<rparr>"
    have "ops1 = snd (mon_stopServer m) @ snd (stopInterfaces [TransportWebSocket, TransportTcp, TransportUnix] ?e)"
      using c assms(1,2) Some by (simp add: eng_clean_def proxy_stopServer_def split_beta Let_def)
    with stopInterfaces_closes [of ?e] assms(3,4) Some show ?thesis
      by (auto simp: connectedSockets_def mon_stop_closes)
  qed
  then show ?thesis
    using eng_clean_empty [OF c] e' assms(5) by (auto simp: eng_setRunning_def timer_stop_def)
qed

text \<open>C34: A stop leaves nothing behind: every socket of a transport that is up and of the monitor is
  closed, and no other; no component of the engine is left, and neither does it run nor its timer.\<close>

theorem engine_stops:
  assumes "eng_tunnelProxyServer e = Some s"
    and "ps_transportInterfaces s = [TransportWebSocket, TransportTcp, TransportUnix]"
    and "eng_tcpSocketServer e = Some t" "tableOk (tcp_clientList t)"
    and "eng_running e = tm_active (eng_timer e)" "eng_stop e = (e', ops)"
  shows "closes ops = connectedSockets e \<and> \<not> eng_running e' \<and> \<not> tm_active (eng_timer e') \<and>
    eng_tunnelProxyServer e' = None \<and> eng_monitorServer e' = None \<and> eng_configuration e' = None \<and>
    eng_tcpSocketServer e' = None \<and> eng_webSocketServer e' = None \<and> eng_unixSocketServer e' = None"
  by (rule eng_stop_all [OF assms])

text \<open>An engine of which one socket is connected.\<close>

definition demo_engine :: engine where
  "demo_engine =
     (let e = eng_runQueued (fst (eng_start
            \<lparr>li_listen = (\<lambda>_ _. True), li_listenLocal = (\<lambda>_. True), li_canOpen = (\<lambda>_. True)\<rparr>
            defaultConfiguration (newEngine 0 0)))
      in e\<lparr>eng_tcpSocketServer :=
             map_option (\<lambda>t. fst (tcp_onSocketConnected 3 10 ''peer'' 0 t)) (eng_tcpSocketServer e)\<rparr>)"

theorem engine_stops_witness:
  "3 \<in> closes (snd (eng_stop demo_engine)) \<and> eng_tunnelProxyServer (fst (eng_stop demo_engine)) = None"
proof -
  have "map_option ps_transportInterfaces (eng_tunnelProxyServer demo_engine) =
      Some [TransportWebSocket, TransportTcp, TransportUnix]"
    "map_option tcp_clientList (eng_tcpSocketServer demo_engine) = Some [(10, 3)]"
    "map_option (\<lambda>t. tcp_server t = None) (eng_tcpSocketServer demo_engine) = Some False"
    "eng_running demo_engine = tm_active (eng_timer demo_engine)"
    by code_simp+
  moreover from this obtain s t where "eng_tunnelProxyServer demo_engine = Some s"
    "ps_transportInterfaces s = [TransportWebSocket, TransportTcp, TransportUnix]"
    "eng_tcpSocketServer demo_engine = Some t" "tcp_clientList t = [(10, 3)]" "tcp_server t \<noteq> None"
    by auto
  moreover from this have "tableOk (tcp_clientList t)" by (simp add: tableOk_def qwf_def)
  moreover have "eng_stop demo_engine = (fst (eng_stop demo_engine), snd (eng_stop demo_engine))" by simp
  ultimately have "closes (snd (eng_stop demo_engine)) = connectedSockets demo_engine \<and>
      eng_tunnelProxyServer (fst (eng_stop demo_engine)) = None"
    using engine_stops by blast
  then show ?thesis
    using \<open>eng_tcpSocketServer demo_engine = Some t\<close> \<open>tcp_clientList t = [(10, 3)]\<close> \<open>tcp_server t \<noteq> None\<close>
    by (simp add: connectedSockets_def)
qed

text \<open>A stop right after a start, before the event loop ran, does not stop the engine: the queued
  call of \<open>setRunning\<close> comes after it, and the engine is running, its timer as well, without a proxy,
  a transport or a configuration.\<close>

theorem early_stop_is_lost:
  assumes "\<not> eng_running e" "eng_queued e = []"
    and "eng_runQueued (fst (eng_stop (fst (eng_start L c e)))) = e'"
  shows "eng_running e' \<and> tm_active (eng_timer e') \<and> eng_tunnelProxyServer e' = None \<and>
    eng_tcpSocketServer e' = None \<and> eng_configuration e' = None"
proof -
  obtain e1 ops where start: "eng_start L c e = (e1, ops)" by fastforce
  obtain e2 ops2 where clean: "eng_clean e1 = (e2, ops2)" by fastforce
  note S = eng_start_simps [OF start] and C = eng_clean_empty [OF clean]
  have "fst (eng_stop e1) = e2"
    using S(3) C(7) assms(1) by (simp add: eng_stop_def clean eng_setRunning_def)
  then show ?thesis
    using assms S C by (auto simp: start eng_runQueued_def eng_setRunning_def timer_start_def)
qed

theorem early_stop_is_lost_witness:
  "eng_running (eng_runQueued (fst (eng_stop (fst (eng_start
     \<lparr>li_listen = (\<lambda>_ _. True), li_listenLocal = (\<lambda>_. True), li_canOpen = (\<lambda>_. True)\<rparr>
     defaultConfiguration (newEngine 0 0))))))"
  using early_stop_is_lost [OF _ _ refl, of "newEngine 0 0"] by (simp add: newEngine_def)

section \<open>Counting seconds\<close>

text \<open>Between two ticks that are less than 24 days apart the 32 bit counter of milliseconds does
  not wrap: it stays below a second, and the throughput counter of the proxy is taken over and reset
  exactly when a second is full.\<close>

theorem tick_counts_seconds:
  assumes "0 \<le> eng_currentTimeCounter e" "eng_currentTimeCounter e < 1000"
    and "eng_lastTimeStamp e \<le> now" "now - eng_lastTimeStamp e < 2 ^ 31 - 1000"
    and "elapsed = eng_currentTimeCounter e + (now - eng_lastTimeStamp e)"
  shows "eng_currentTimeCounter (eng_onTimerTick now e) = (if 1000 \<le> elapsed then 0 else elapsed) \<and>
    eng_tunnelProxyServer (eng_onTimerTick now e) = (if 1000 \<le> elapsed
      then map_option (\<lambda>s. s\<lparr>ps_troughput := ps_troughputCounter s, ps_troughputCounter := 0\<rparr>)
        (eng_tunnelProxyServer e)
      else eng_tunnelProxyServer e)"
proof -
  have "wrap32 elapsed = elapsed" unfolding assms(5) by (rule wrap32_id) (use assms in auto)
  then show ?thesis
    using assms(5) by (simp add: eng_onTimerTick_def Let_def tick_def [abs_def])
qed

theorem tick_counts_seconds_witness:
  "eng_currentTimeCounter (eng_onTimerTick 900 (newEngine 0 0)) = 900"
  using tick_counts_seconds [OF _ _ _ _ refl, of "newEngine 0 0" 900] by (simp add: newEngine_def)

section \<open>Parameters\<close>

text \<open>
  What a value of a template means: a type name, a reference to an enumeration, a map with mandatory
  and optional keys, or a list of which the first entry is the template of every element.
\<close>

inductive fits :: "env \<Rightarrow> variant \<Rightarrow> variant \<Rightarrow> bool" for E where
  fits_type: "\<not> startsWith s ''$ref:'' \<Longrightarrow> fst (validateProperty E (VString s) v) \<Longrightarrow> fits E (VString s) v"
| fits_basicType: "fst (validateBasicType E v) \<Longrightarrow> fits E (VString basicTypeRef) v"
| fits_error: "vtoString E v \<in> set s_tunnelProxyError \<Longrightarrow> fits E (VString tunnelProxyErrorRef) v"
| fits_map: "\<forall>k \<in> fst ` set tm. \<not> optionalKey k \<longrightarrow> k \<in> fst ` set (vtoMap v) \<Longrightarrow>
    \<forall>k t x. map_of tm k = Some t \<longrightarrow> map_of (vtoMap v) (strippedKey k) = Some x \<longrightarrow> fits E t x \<Longrightarrow>
    \<forall>k \<in> fst ` set (vtoMap v). k \<in> fst ` set tm \<or> ''o:'' @ k \<in> fst ` set tm \<Longrightarrow> fits E (VMap tm) v"
| fits_list: "\<forall>x \<in> set (vtoList v). fits E entry x \<Longrightarrow> fits E (VList (entry # rest)) v"

inductive_simps fits_map_simp: "fits E (VMap tm) v"
inductive_simps fits_list_simp: "fits E (VList ts) v"
inductive_simps fits_string_simp: "fits E (VString s) v"

inductive_cases fits_otherE: "fits E VInvalid v" "fits E (VBool b) v" "fits E (VInt i) v" "fits E (VUInt i) v"
  "fits E (VULongLong u) v" "fits E (VDouble d) v" "fits E (VUuid uu) v"

lemma validateList_fst: "fst (validateList E entry vs) \<longleftrightarrow> (\<forall>v \<in> set vs. fst (validateVariant E entry v))"
  by (induction vs) (auto split: prod.split bool.split)

lemma validateVariant_map: "fst (validateVariant E (VMap tm) v) = fst (validateMap E tm (vtoMap v))"
  by (auto simp: validateVariant.simps split: prod.splits bool.splits)

lemma validateVariant_list: "fst (validateVariant E (VList ts) v) \<longleftrightarrow>
    (\<exists>entry rest. ts = entry # rest \<and> (\<forall>x \<in> set (vtoList v). fst (validateVariant E entry x)))"
proof (cases ts)
  case Nil
  then show ?thesis by (simp add: validateVariant.simps)
next
  case (Cons entry rest)
  have "fst (validateVariant E (VList (entry # rest)) v) = fst (validateList E entry (vtoList v))"
    by (subst validateVariant.simps) (simp split: prod.split bool.split)
  with Cons show ?thesis by (simp add: validateList_fst)
qed

lemma validateVariant_string: "fst (validateVariant E (VString s) v) = fits E (VString s) v"
proof -
  have "startsWith basicTypeRef ''$ref:''" "startsWith tunnelProxyErrorRef ''$ref:''"
    "basicTypeRef \<noteq> tunnelProxyErrorRef"
    by (simp_all add: basicTypeRef_def tunnelProxyErrorRef_def startsWith_def)
  then show ?thesis
    by (auto simp: fits_string_simp validateVariant.simps validateEnum_def split: prod.splits bool.splits)
qed

lemma validateVariant_fits: "fst (validateVariant E t v) = fits E t v"
proof (induction t arbitrary: v rule: measure_induct_rule [of size])
  case (less t)
  show ?case
  proof (cases t)
    case (VString s)
    then show ?thesis by (simp add: validateVariant_string)
  next
    case (VList ts)
    then have "fst (validateVariant E entry x) = fits E entry x" if "ts = entry # rest" for entry rest x
      using less that by simp
    then show ?thesis by (auto simp: VList validateVariant_list fits_list_simp)
  next
    case (VMap tm)
    then have "fst (validateVariant E t' x) = fits E t' x" if "map_of tm k = Some t'" for k t' x
      using less size_vvalue_less [OF that] by simp
    then show ?thesis
      unfolding VMap validateVariant_map validateMap_fst mapFits_def qcontains_iff fits_map_simp
      by (auto simp: strippedKey_def)
  qed (auto simp: validateVariant.simps elim: fits_otherE)
qed

text \<open>C22: The validation of parameters accepts a map exactly when it fits the template as the relation
  \<open>fits\<close> says: no mandatory key is missing, there is no unknown key, and every value has the type
  its template names, recursively. The order in which the code visits the keys decides the error
  message only.\<close>

theorem params_accepted_iff_fit: "fst (validateMap E tm m) = fits E (VMap tm) (VMap m)"
  using validateVariant_fits [of E "VMap tm" "VMap m"] by (simp add: validateVariant_map)

section \<open>Statistics\<close>

text \<open>The request of a monitor that wants everything, or not.\<close>

definition refreshRequest :: "bool \<Rightarrow> vmap" where
  "refreshRequest printAll =
     (if printAll then [(''method'', VString ''refresh''), (''params'', VMap [(''printAll'', VBool True)])]
      else [(''method'', VString ''refresh'')])"


definition monitor_env :: env where
  "monitor_env = demo_env
     \<lparr>env_fromJson := (\<lambda>d. if d = [123, 1, 125, 10] then Inr (VMap (refreshRequest True))
        else if d = [123, 2, 125] then Inr (VMap [(''serverName'', VString ''nymea'')]) else Inl ''error''),
      env_toJson := (\<lambda>v. if v = VMap (refreshRequest True) then [123, 1, 125] else [123, 2, 125])\<rparr>"

definition demo_monitor :: monitor_client where
  "demo_monitor = setPrintAll True (newMonitorClient ''/run/monitor'' False)"


text \<open>A statistics message that the network cuts between its last brace and its newline is not
  handed on: the reader looks for the two bytes in the new chunk only, and keeps the message in its
  buffer, where it spoils the next one.\<close>

theorem monitor_misses_cut_message:
  assumes "newline \<notin> set body"
  shows "mc_onReadyRead E [newline] (fst (mc_onReadyRead E (body @ [braceClose]) mc)) =
      (mc\<lparr>mc_dataBuffer := mc_dataBuffer mc @ body @ [braceClose, newline]\<rparr>, []) \<and>
    snd (mc_onReadyRead E (body @ [braceClose]) mc) = []"
proof -
  have "indexOf [braceClose, newline] (body @ [braceClose]) = None"
    using assms by (intro indexOf_no_newline) (simp add: braceClose_def newline_def)
  with mc_cut_message [OF assms, of E mc] show ?thesis by (simp add: mc_onReadyRead_def)
qed

theorem monitor_misses_cut_message_witness:
  "snd (mc_onReadyRead demo_env [newline] (fst (mc_onReadyRead demo_env [123, 1, 125] (newMonitorClient ''/run/monitor'' False)))) = []"
  using monitor_misses_cut_message [of "[123, 1]" demo_env "newMonitorClient ''/run/monitor'' False"]
  by (simp add: newline_def braceClose_def)

end
