(* ===== verification/RemoteConnection.thy ===== *)
theory RemoteConnection
  imports ProxyConnection ClientJson
begin

text \<open>
  \<open>tunnelproxy/tunnelproxyremoteconnection.{h,cpp}\<close> of the client library: a client's way to a
  server behind the proxy. It connects, says Hello, registers, and then carries the application's
  data. What it hands out, its signals and the calls on its socket, is collected in
  \<open>rc_outputs\<close>, oldest first; a null pointer that would be dereferenced is an output of its own.
\<close>

section \<open>State\<close>

datatype remote_state =
    StateConnecting | StateHostLookup | StateConnected | StateInitializing | StateRegister
  | StateRemoteConnected | StateDiconnecting | StateDisconnected

datatype remote_output =
    RcStateChanged remote_state
  | RcRemoteConnectedChanged bool
  | RcErrorOccurred int
  | RcDataReady bytes
  | RcSocket connection_op
  | RcNullPointer

record remote_connection =
  rc_clientUuid :: uuid
  rc_clientName :: string
  rc_connectionType :: connection_type
  rc_serverUuid :: uuid
  rc_remoteProxyServer :: string
  rc_remoteProxyServerName :: string
  rc_remoteProxyServerVersion :: string
  rc_remoteProxyApiVersion :: string
  rc_serverUrl :: "proxy_url option"
  rc_error :: int
  rc_state :: remote_state
  rc_connection :: "proxy_connection option"
  rc_jsonClient :: "json_client option"
  rc_outputs :: "remote_output list"

text \<open>\<open>QAbstractSocket::UnknownSocketError\<close> is -1.\<close>

definition newRemoteConnection :: "uuid \<Rightarrow> string \<Rightarrow> connection_type \<Rightarrow> remote_connection" where
  "newRemoteConnection clientUuid clientName connectionType =
     \<lparr>rc_clientUuid = clientUuid, rc_clientName = clientName, rc_connectionType = connectionType,
      rc_serverUuid = nullUuid, rc_remoteProxyServer = [], rc_remoteProxyServerName = [],
      rc_remoteProxyServerVersion = [], rc_remoteProxyApiVersion = [], rc_serverUrl = None,
      rc_error = -1, rc_state = StateDisconnected, rc_connection = None, rc_jsonClient = None,
      rc_outputs = []\<rparr>"

definition rc_emit :: "remote_output list \<Rightarrow> remote_connection \<Rightarrow> remote_connection" where
  "rc_emit outs rc = rc\<lparr>rc_outputs := rc_outputs rc @ outs\<rparr>"

definition remoteConnected :: "remote_connection \<Rightarrow> bool" where
  "remoteConnected rc = (rc_state rc = StateRemoteConnected)"

section \<open>Operations\<close>

definition rc_setState :: "remote_state \<Rightarrow> remote_connection \<Rightarrow> remote_connection" where
  "rc_setState st rc =
     (if rc_state rc = st then rc
      else (let wasConnected = remoteConnected rc;
                rc = rc_emit [RcStateChanged st] (rc\<lparr>rc_state := st\<rparr>)
            in if wasConnected \<noteq> remoteConnected rc
               then rc_emit [RcRemoteConnectedChanged (remoteConnected rc)] rc else rc))"

definition rc_setError :: "int \<Rightarrow> remote_connection \<Rightarrow> remote_connection" where
  "rc_setError e rc =
     (if rc_error rc = e then rc else rc_emit [RcErrorOccurred e] (rc\<lparr>rc_error := e\<rparr>))"

definition rc_cleanUp :: "remote_connection \<Rightarrow> remote_connection" where
  "rc_cleanUp rc =
     rc_setState StateDisconnected
       (rc\<lparr>rc_jsonClient := None, rc_connection := None, rc_remoteProxyServer := [],
           rc_remoteProxyServerName := [], rc_remoteProxyServerVersion := [],
           rc_remoteProxyApiVersion := []\<rparr>)"

definition rc_connectServer :: "proxy_url \<Rightarrow> uuid \<Rightarrow> remote_connection \<Rightarrow> remote_connection" where
  "rc_connectServer url serverUuid rc =
     (let rc = rc_cleanUp (rc\<lparr>rc_serverUrl := Some url, rc_serverUuid := serverUuid, rc_error := -1\<rparr>);
          (connection, ops) = con_connectServer url (newConnection (rc_connectionType rc) url)
      in rc_emit (map RcSocket ops)
           (rc\<lparr>rc_connection := Some connection, rc_jsonClient := Some newJsonClient\<rparr>))"

definition rc_disconnectServer :: "remote_connection \<Rightarrow> remote_connection" where
  "rc_disconnectServer rc =
     (case rc_connection rc of
        None \<Rightarrow> rc
      | Some c \<Rightarrow> rc_emit (map RcSocket (con_disconnectServer c)) rc)"

text \<open>\<open>m_connection->sendData\<close> and \<open>m_connection->disconnectServer\<close>.\<close>

definition rc_send :: "bytes \<Rightarrow> remote_connection \<Rightarrow> remote_connection" where
  "rc_send data rc =
     (case rc_connection rc of
        None \<Rightarrow> rc_emit [RcNullPointer] rc
      | Some c \<Rightarrow> rc_emit (map RcSocket (con_sendData data c)) rc)"

definition rc_dropConnection :: "remote_connection \<Rightarrow> remote_connection" where
  "rc_dropConnection rc =
     (case rc_connection rc of
        None \<Rightarrow> rc_emit [RcNullPointer] rc
      | Some c \<Rightarrow> rc_emit (map RcSocket (con_disconnectServer c)) rc)"

definition rc_ignoreSslErrors :: "remote_connection \<Rightarrow> remote_connection" where
  "rc_ignoreSslErrors rc =
     (case rc_connection rc of
        None \<Rightarrow> rc_emit [RcNullPointer] rc
      | Some c \<Rightarrow> rc_emit (map RcSocket (con_ignoreSslErrors c)) rc)"

definition rc_sendData :: "bytes \<Rightarrow> remote_connection \<Rightarrow> bool \<times> remote_connection" where
  "rc_sendData data rc =
     (if \<not> remoteConnected rc then (False, rc) else (True, rc_send data rc))"

text \<open>A call of the JSON client: the request goes out, the reply waits.\<close>

definition rc_call ::
  "(json_client \<Rightarrow> bytes \<times> json_client) \<Rightarrow> remote_connection \<Rightarrow> remote_connection" where
  "rc_call call rc =
     (case rc_jsonClient rc of
        None \<Rightarrow> rc_emit [RcNullPointer] rc
      | Some jc \<Rightarrow> (let (data, jc') = call jc in rc_send data (rc\<lparr>rc_jsonClient := Some jc'\<rparr>)))"

section \<open>Slots\<close>

definition rc_onConnectionChanged :: "env \<Rightarrow> bool \<Rightarrow> remote_connection \<Rightarrow> remote_connection" where
  "rc_onConnectionChanged E connected rc =
     (if connected
      then rc_call (callHello E) (rc_setState StateInitializing (rc_setState StateConnected rc))
      else rc_cleanUp (rc_setState StateDisconnected rc))"

fun rc_onConnectionStateChanged :: "socket_state \<Rightarrow> remote_connection \<Rightarrow> remote_connection" where
  "rc_onConnectionStateChanged UnconnectedState rc = rc_setState StateDisconnected rc"
| "rc_onConnectionStateChanged HostLookupState rc = rc_setState StateHostLookup rc"
| "rc_onConnectionStateChanged ConnectingState rc = rc_setState StateConnecting rc"
| "rc_onConnectionStateChanged ConnectedState rc = rc_setState StateConnected rc"
| "rc_onConnectionStateChanged ClosingState rc = rc_setState StateDiconnecting rc"
| "rc_onConnectionStateChanged BoundState rc = rc"
| "rc_onConnectionStateChanged ListeningState rc = rc"

definition rc_onHelloFinished :: "env \<Rightarrow> client_reply \<Rightarrow> remote_connection \<Rightarrow> remote_connection" where
  "rc_onHelloFinished E reply rc =
     (let response = jr_response reply
      in if vtoString E (vvalue response ''status'') \<noteq> ''success'' then rc_dropConnection rc
         else
           (let params = vtoMap (vvalue response ''params'');
                rc = rc\<lparr>rc_remoteProxyServer := vtoString E (vvalue params ''server''),
                        rc_remoteProxyServerName := vtoString E (vvalue params ''name''),
                        rc_remoteProxyServerVersion := vtoString E (vvalue params ''version''),
                        rc_remoteProxyApiVersion := vtoString E (vvalue params ''apiVersion'')\<rparr>
            in rc_call (callRegisterClient E (rc_clientUuid rc) (rc_clientName rc) (rc_serverUuid rc))
                 (rc_setState StateRegister rc)))"

definition rc_onClientRegistrationFinished ::
  "env \<Rightarrow> client_reply \<Rightarrow> remote_connection \<Rightarrow> remote_connection" where
  "rc_onClientRegistrationFinished E reply rc =
     (let response = jr_response reply
      in if vtoString E (vvalue response ''status'') \<noteq> ''success'' then rc_dropConnection rc
         else if vtoString E (vvalue (vtoMap (vvalue response ''params'')) ''tunnelProxyError'')
                   \<noteq> ''TunnelProxyErrorNoError''
         then rc_dropConnection rc
         else rc_setState StateRemoteConnected rc)"

text \<open>Only replies are connected to a slot.\<close>

definition rc_onJsonSignal :: "env \<Rightarrow> json_signal \<Rightarrow> remote_connection \<Rightarrow> remote_connection" where
  "rc_onJsonSignal E sig rc =
     (case sig of
        ReplyFinished reply \<Rightarrow>
          (case jr_slot reply of
             Some OnHelloFinished \<Rightarrow> rc_onHelloFinished E reply rc
           | Some OnRegistrationFinished \<Rightarrow> rc_onClientRegistrationFinished E reply rc
           | _ \<Rightarrow> rc)
      | _ \<Rightarrow> rc)"

fun rc_processPackets :: "env \<Rightarrow> bytes list \<Rightarrow> remote_connection \<Rightarrow> remote_connection" where
  "rc_processPackets E [] rc = rc"
| "rc_processPackets E (p # ps) rc =
     (case rc_jsonClient rc of
        None \<Rightarrow> rc_emit [RcNullPointer] rc
      | Some jc \<Rightarrow>
          (let (jc', sigs) = jc_processDataPacket E p jc
           in rc_processPackets E ps (fold (rc_onJsonSignal E) sigs (rc\<lparr>rc_jsonClient := Some jc'\<rparr>))))"

definition rc_onConnectionDataAvailable :: "env \<Rightarrow> bytes \<Rightarrow> remote_connection \<Rightarrow> remote_connection" where
  "rc_onConnectionDataAvailable E data rc =
     (if rc_state rc \<noteq> StateRemoteConnected
      then (case rc_jsonClient rc of
              None \<Rightarrow> rc_emit [RcNullPointer] rc
            | Some jc \<Rightarrow>
                (let (packets, jc') = jc_packets data jc
                 in rc_processPackets E packets (rc\<lparr>rc_jsonClient := Some jc'\<rparr>)))
      else rc_emit [RcDataReady data] rc)"

definition rc_onConnectionSocketError :: "int \<Rightarrow> remote_connection \<Rightarrow> remote_connection" where
  [simp]: "rc_onConnectionSocketError e rc = rc_setError e rc"

fun rc_onSignal :: "env \<Rightarrow> connection_signal \<Rightarrow> remote_connection \<Rightarrow> remote_connection" where
  "rc_onSignal E (ConnectedChanged b) rc = rc_onConnectionChanged E b rc"
| "rc_onSignal E (StateChanged st) rc = rc_onConnectionStateChanged st rc"
| "rc_onSignal E (DataReceived d) rc = rc_onConnectionDataAvailable E d rc"
| "rc_onSignal E (ErrorOccurred e) rc = rc_onConnectionSocketError e rc"

section \<open>The state machine\<close>

text \<open>
  The application's calls and the signals of the socket. A connection object that was given up is
  deleted in the next round of the event loop; until then its socket can still report that it is
  closing or closed.
\<close>

datatype remote_event =
    RcConnect proxy_url uuid
  | RcDisconnect
  | RcSend bytes
  | RcSignal socket_signal
  | RcGivenUpClosing
  | RcGivenUpClosed

fun rc_step :: "env \<Rightarrow> remote_connection \<Rightarrow> remote_event \<Rightarrow> remote_connection" where
  "rc_step E rc (RcConnect url serverUuid) = rc_connectServer url serverUuid rc"
| "rc_step E rc RcDisconnect = rc_disconnectServer rc"
| "rc_step E rc (RcSend data) = snd (rc_sendData data rc)"
| "rc_step E rc (RcSignal sig) =
     (case rc_connection rc of
        None \<Rightarrow> rc
      | Some c \<Rightarrow>
          (let (c', sigs) = con_slot sig c
           in fold (rc_onSignal E) sigs (rc\<lparr>rc_connection := Some c'\<rparr>)))"
| "rc_step E rc RcGivenUpClosing = rc_onConnectionStateChanged ClosingState rc"
| "rc_step E rc RcGivenUpClosed = rc_onConnectionStateChanged UnconnectedState rc"

section \<open>The invariant\<close>

text \<open>What the application was last told.\<close>

definition rc_shown :: "remote_output list \<Rightarrow> remote_state" where
  "rc_shown outs = fold (\<lambda>out st. case out of RcStateChanged st' \<Rightarrow> st' | _ \<Rightarrow> st) outs StateDisconnected"

definition rc_shownConnected :: "remote_output list \<Rightarrow> bool" where
  "rc_shownConnected outs =
     fold (\<lambda>out b. case out of RcRemoteConnectedChanged b' \<Rightarrow> b' | _ \<Rightarrow> b) outs False"

text \<open>The connection and its JSON client come and go together, and the application is told the truth.\<close>

definition rc_base :: "remote_connection \<Rightarrow> bool" where
  "rc_base rc =
     (RcNullPointer \<notin> set (rc_outputs rc) \<and>
      (rc_connection rc = None) = (rc_jsonClient rc = None) \<and>
      rc_shown (rc_outputs rc) = rc_state rc \<and>
      rc_shownConnected (rc_outputs rc) = remoteConnected rc)"

text \<open>A reply is awaited, or the tunnel is open, only while the socket is connected.\<close>

definition rc_up :: "remote_connection \<Rightarrow> bool" where
  "rc_up rc =
     (case (rc_connection rc, rc_jsonClient rc) of
        (Some c, Some jc) \<Rightarrow> jc_replies jc \<noteq> [] \<or> remoteConnected rc \<longrightarrow> con_connected c
      | _ \<Rightarrow> \<not> remoteConnected rc)"

definition rc_inv :: "remote_connection \<Rightarrow> bool" where
  "rc_inv rc = (rc_base rc \<and> rc_up rc)"

lemma rc_shown_append [simp]:
  "rc_shown (outs @ map RcSocket ops) = rc_shown outs"
  "rc_shownConnected (outs @ map RcSocket ops) = rc_shownConnected outs"
  by (induction ops rule: rev_induct; simp add: rc_shown_def rc_shownConnected_def)+

lemma remoteConnected_frame [simp]:
  "remoteConnected (rc\<lparr>rc_outputs := outs\<rparr>) = remoteConnected rc"
  "remoteConnected (rc\<lparr>rc_connection := x\<rparr>) = remoteConnected rc"
  "remoteConnected (rc\<lparr>rc_jsonClient := y\<rparr>) = remoteConnected rc"
  by (simp_all add: remoteConnected_def)

lemma rc_setState_frame [simp]:
  "rc_connection (rc_setState st rc) = rc_connection rc"
  "rc_jsonClient (rc_setState st rc) = rc_jsonClient rc"
  "rc_state (rc_setState st rc) = st"
  "rc_clientUuid (rc_setState st rc) = rc_clientUuid rc"
  "rc_clientName (rc_setState st rc) = rc_clientName rc"
  "rc_serverUuid (rc_setState st rc) = rc_serverUuid rc"
  by (simp_all add: rc_setState_def rc_emit_def Let_def)

lemma rc_base_setState: "rc_base rc \<Longrightarrow> rc_base (rc_setState st rc)"
  by (auto simp: rc_base_def rc_setState_def rc_emit_def Let_def remoteConnected_def
      rc_shown_def rc_shownConnected_def)

lemma rc_base_ops: "rc_base rc \<Longrightarrow> rc_base (rc_emit (map RcSocket ops) rc)"
  by (auto simp: rc_base_def rc_emit_def remoteConnected_def)

lemma rc_emit_frame [simp]:
  "rc_connection (rc_emit outs rc) = rc_connection rc"
  "rc_jsonClient (rc_emit outs rc) = rc_jsonClient rc"
  "rc_state (rc_emit outs rc) = rc_state rc"
  by (simp_all add: rc_emit_def)

lemma rc_send_frame [simp]:
  "rc_connection (rc_send d rc) = rc_connection rc"
  "rc_jsonClient (rc_send d rc) = rc_jsonClient rc"
  "rc_state (rc_send d rc) = rc_state rc"
  by (simp_all add: rc_send_def split: option.splits)

lemma rc_dropConnection_frame [simp]:
  "rc_connection (rc_dropConnection rc) = rc_connection rc"
  "rc_jsonClient (rc_dropConnection rc) = rc_jsonClient rc"
  "rc_state (rc_dropConnection rc) = rc_state rc"
  by (simp_all add: rc_dropConnection_def split: option.splits)

lemma rc_base_send: "rc_base rc \<Longrightarrow> rc_connection rc \<noteq> None \<Longrightarrow> rc_base (rc_send d rc)"
  by (auto simp: rc_send_def rc_base_ops)

lemma rc_base_drop: "rc_base rc \<Longrightarrow> rc_connection rc \<noteq> None \<Longrightarrow> rc_base (rc_dropConnection rc)"
  by (auto simp: rc_dropConnection_def rc_base_ops)

lemma rc_base_json:
  "rc_base rc \<Longrightarrow> rc_connection rc \<noteq> None \<Longrightarrow> rc_base (rc\<lparr>rc_jsonClient := Some jc\<rparr>)"
  by (simp add: rc_base_def remoteConnected_def)

lemma rc_call_live:
  assumes "rc_base rc" "rc_connection rc = Some c"
  shows "rc_base (rc_call f rc)" "rc_connection (rc_call f rc) = Some c"
    "rc_state (rc_call f rc) = rc_state rc"
proof -
  obtain jc where jc: "rc_jsonClient rc = Some jc" using assms by (auto simp: rc_base_def)
  have "rc_call f rc = rc_send (fst (f jc)) (rc\<lparr>rc_jsonClient := Some (snd (f jc))\<rparr>)"
    by (simp add: rc_call_def jc split_beta)
  then show "rc_base (rc_call f rc)" "rc_connection (rc_call f rc) = Some c"
    "rc_state (rc_call f rc) = rc_state rc"
    using assms by (simp_all add: rc_base_send rc_base_json)
qed

lemma rc_cleanUp_frame [simp]:
  "rc_connection (rc_cleanUp rc) = None" "rc_jsonClient (rc_cleanUp rc) = None"
  "rc_state (rc_cleanUp rc) = StateDisconnected"
  by (simp_all add: rc_cleanUp_def)

lemma rc_base_cleanUp: "rc_base rc \<Longrightarrow> rc_base (rc_cleanUp rc)"
  unfolding rc_cleanUp_def by (rule rc_base_setState) (simp add: rc_base_def remoteConnected_def)

text \<open>While the socket is connected, \<open>rc_up\<close> says nothing more.\<close>

definition rc_live :: "proxy_connection \<Rightarrow> remote_connection \<Rightarrow> bool" where
  "rc_live c rc = (rc_base rc \<and> rc_connection rc = Some c \<and> rc_up rc)"

lemma rc_up_connected:
  "rc_base rc \<Longrightarrow> rc_connection rc = Some c \<Longrightarrow> con_connected c \<Longrightarrow> rc_up rc"
  by (auto simp: rc_up_def rc_base_def split: option.splits)

lemma rc_live_connected:
  "rc_base rc \<Longrightarrow> rc_connection rc = Some c \<Longrightarrow> con_connected c \<Longrightarrow> rc_live c rc"
  by (simp add: rc_live_def rc_up_connected)

lemma rc_live_reply:
  assumes live: "rc_live c rc" and c: "con_connected c"
  shows "rc_live c (rc_onJsonSignal E sig rc)"
proof -
  have base: "rc_base rc" "rc_connection rc = Some c" using live by (simp_all add: rc_live_def)
  have drop: "rc_live c (rc_dropConnection rc)"
    by (rule rc_live_connected) (simp_all add: base c rc_base_drop)
  have hello: "rc_live c (rc_onHelloFinished E r rc)" for r
  proof -
    define rc1 where "rc1 = rc\<lparr>rc_remoteProxyServer := vtoString E (vvalue (vtoMap (vvalue (jr_response r) ''params'')) ''server''),
       rc_remoteProxyServerName := vtoString E (vvalue (vtoMap (vvalue (jr_response r) ''params'')) ''name''),
       rc_remoteProxyServerVersion := vtoString E (vvalue (vtoMap (vvalue (jr_response r) ''params'')) ''version''),
       rc_remoteProxyApiVersion := vtoString E (vvalue (vtoMap (vvalue (jr_response r) ''params'')) ''apiVersion'')\<rparr>"
    have "rc_base rc1" "rc_connection rc1 = Some c"
      using base by (simp_all add: rc1_def rc_base_def remoteConnected_def)
    then have "rc_base (rc_setState StateRegister rc1)" "rc_connection (rc_setState StateRegister rc1) = Some c"
      by (simp_all add: rc_base_setState)
    from rc_call_live [OF this] have "rc_live c (rc_call f (rc_setState StateRegister rc1))" for f
      by (intro rc_live_connected) (simp_all add: c)
    with drop show ?thesis
      by (simp add: rc_onHelloFinished_def Let_def rc1_def)
  qed
  have registered: "rc_live c (rc_onClientRegistrationFinished E r rc)" for r
    using drop rc_live_connected [OF rc_base_setState [OF base(1)], of StateRemoteConnected c] base c
    by (simp add: rc_onClientRegistrationFinished_def Let_def)
  show ?thesis
    using live hello registered
    by (auto simp: rc_onJsonSignal_def split: json_signal.splits option.splits reply_slot.splits)
qed

lemma jc_processDataPacket_signals:
  assumes "jc_processDataPacket E p jc = (jc', sigs)"
  shows "(\<exists>r. sigs = [ReplyFinished r] \<and> jc_replies jc \<noteq> []) \<or>
    jc' = jc \<and> (\<forall>sig \<in> set sigs. \<forall>r. sig \<noteq> ReplyFinished r)"
  using assms
  by (auto simp: jc_processDataPacket_def jc_processMessage_def notificationSignals_def Let_def
      split: sum.splits option.splits if_splits)

lemma rc_other_signals:
  "\<forall>sig \<in> set sigs. \<forall>r. sig \<noteq> ReplyFinished r \<Longrightarrow> fold (rc_onJsonSignal E) sigs rc = rc"
proof (induction sigs)
  case (Cons sig sigs)
  then show ?case by (cases sig) (auto simp: rc_onJsonSignal_def)
qed simp

lemma rc_live_packets: "rc_live c rc \<Longrightarrow> rc_live c (rc_processPackets E ps rc)"
proof (induction ps arbitrary: rc)
  case Nil
  then show ?case by simp
next
  case (Cons p ps)
  then have base: "rc_base rc" "rc_connection rc = Some c" by (simp_all add: rc_live_def)
  then obtain jc where jc: "rc_jsonClient rc = Some jc" by (auto simp: rc_base_def)
  obtain jc' sigs where step: "jc_processDataPacket E p jc = (jc', sigs)" by fastforce
  have "rc_live c (fold (rc_onJsonSignal E) sigs (rc\<lparr>rc_jsonClient := Some jc'\<rparr>))"
    using jc_processDataPacket_signals [OF step]
  proof
    assume "\<exists>r. sigs = [ReplyFinished r] \<and> jc_replies jc \<noteq> []"
    then obtain r where r: "sigs = [ReplyFinished r]" "jc_replies jc \<noteq> []" by blast
    then have c: "con_connected c"
      using Cons.prems jc by (auto simp: rc_live_def rc_up_def)
    have "rc_live c (rc\<lparr>rc_jsonClient := Some jc'\<rparr>)"
      by (rule rc_live_connected) (simp_all add: base c rc_base_json)
    from rc_live_reply [OF this c] show ?thesis by (simp add: r)
  next
    assume same: "jc' = jc \<and> (\<forall>sig \<in> set sigs. \<forall>r. sig \<noteq> ReplyFinished r)"
    moreover have "rc\<lparr>rc_jsonClient := Some jc\<rparr> = rc" using jc by simp
    ultimately show ?thesis
      using Cons.prems rc_other_signals [of sigs E rc] by simp
  qed
  from Cons.IH [OF this] show ?case by (simp add: jc step)
qed

text \<open>Outputs that do not speak of the state.\<close>

fun rc_silent :: "remote_output \<Rightarrow> bool" where
  "rc_silent (RcStateChanged _) = False"
| "rc_silent (RcRemoteConnectedChanged _) = False"
| "rc_silent RcNullPointer = False"
| "rc_silent _ = True"

lemma rc_shown_silent:
  "list_all rc_silent xs \<Longrightarrow> rc_shown (outs @ xs) = rc_shown outs"
  "list_all rc_silent xs \<Longrightarrow> rc_shownConnected (outs @ xs) = rc_shownConnected outs"
proof (induction xs rule: rev_induct)
  case (snoc x xs)
  {
    case 1
    with snoc show ?case by (cases x) (simp_all add: rc_shown_def)
  next
    case 2
    with snoc show ?case by (cases x) (simp_all add: rc_shownConnected_def)
  }
qed simp_all

lemma rc_inv_silent:
  assumes inv: "rc_inv rc" and same: "rc_connection rc' = rc_connection rc"
    "rc_jsonClient rc' = rc_jsonClient rc" "rc_state rc' = rc_state rc"
    and outs: "rc_outputs rc' = rc_outputs rc @ xs" "list_all rc_silent xs"
  shows "rc_inv rc'"
proof -
  have "RcNullPointer \<notin> set xs" using outs(2) by (auto simp: list_all_iff)
  moreover have c: "remoteConnected rc' = remoteConnected rc" by (simp add: remoteConnected_def same)
  moreover have "rc_up rc' = rc_up rc" by (simp only: rc_up_def same c)
  ultimately show ?thesis
    using inv by (simp add: rc_inv_def rc_base_def same outs(1) rc_shown_silent [OF outs(2)])
qed

lemma rc_inv_data:
  assumes inv: "rc_inv rc" and c: "rc_connection rc = Some c"
  shows "rc_inv (rc_onConnectionDataAvailable E d rc)"
proof -
  obtain jc where jc: "rc_jsonClient rc = Some jc" using inv c by (auto simp: rc_inv_def rc_base_def)
  obtain ps jc' where ps: "jc_packets d jc = (ps, jc')" by fastforce
  then have same: "jc_replies jc' = jc_replies jc" by (auto simp: jc_packets_def split_beta)
  have "rc_live c (rc\<lparr>rc_jsonClient := Some jc'\<rparr>)"
    using inv c jc same by (simp add: rc_live_def rc_inv_def rc_base_def rc_up_def remoteConnected_def)
  from rc_live_packets [OF this, of E ps]
  have "rc_inv (rc_processPackets E ps (rc\<lparr>rc_jsonClient := Some jc'\<rparr>))"
    by (simp add: rc_live_def rc_inv_def)
  moreover have "rc_inv (rc_emit [RcDataReady d] rc)"
    by (rule rc_inv_silent [OF inv, of _ "[RcDataReady d]"]) (simp_all add: rc_emit_def)
  ultimately show ?thesis
    using jc ps by (simp add: rc_onConnectionDataAvailable_def)
qed

lemma rc_inv_state:
  assumes "rc_inv rc"
  shows "rc_inv (rc_onConnectionStateChanged st rc)"
proof -
  have "rc_inv (rc_setState s' rc)" if "s' \<noteq> StateRemoteConnected" for s'
    using assms that rc_base_setState [of rc s']
    by (auto simp: rc_inv_def rc_up_def remoteConnected_def split: option.splits)
  then show ?thesis using assms by (cases st) auto
qed

lemma rc_inv_start: "rc_inv (newRemoteConnection u n t)"
  by (simp add: rc_inv_def rc_base_def rc_up_def newRemoteConnection_def remoteConnected_def
      rc_shown_def rc_shownConnected_def)

lemma rc_inv_cleanUp: "rc_base rc \<Longrightarrow> rc_inv (rc_cleanUp rc)"
  by (simp add: rc_inv_def rc_base_cleanUp rc_up_def remoteConnected_def)

lemma rc_inv_connected:
  "rc_base rc \<Longrightarrow> rc_connection rc = Some c \<Longrightarrow> con_connected c \<Longrightarrow> rc_inv rc"
  by (simp add: rc_inv_def rc_up_connected)

text \<open>The socket becomes connected, or is no longer.\<close>

lemma rc_inv_changed:
  assumes base: "rc_base rc" and c: "rc_connection rc = Some c" "b = con_connected c"
  shows "rc_inv (rc_onConnectionChanged E b rc)"
proof (cases b)
  case False
  then show ?thesis
    by (simp add: rc_onConnectionChanged_def rc_inv_cleanUp rc_base_setState base)
next
  case True
  let ?rc = "rc_setState StateInitializing (rc_setState StateConnected rc)"
  have "rc_base ?rc" "rc_connection ?rc = Some c"
    using c(1) by (simp_all add: rc_base_setState base)
  from rc_call_live [OF this, of "callHello E"] show ?thesis
    using True c(2) by (simp add: rc_onConnectionChanged_def rc_inv_connected)
qed

lemma rc_inv_setConnection:
  assumes "rc_inv rc" "rc_connection rc = Some c" "con_connected c \<longrightarrow> con_connected c'"
  shows "rc_inv (rc\<lparr>rc_connection := Some c'\<rparr>)"
  using assms by (auto simp: rc_inv_def rc_base_def rc_up_def split: option.splits)

lemma rc_base_setConnection:
  "rc_base rc \<Longrightarrow> rc_connection rc = Some c \<Longrightarrow> rc_base (rc\<lparr>rc_connection := Some c'\<rparr>)"
  by (auto simp: rc_base_def)

text \<open>A change of the connection is always reported first.\<close>

lemma con_slot_cases:
  assumes "con_slot sig c = (c', out)"
  shows "(c' = c \<and> (\<forall>x \<in> set out. \<forall>b. x \<noteq> ConnectedChanged b) \<and> length out \<le> 1) \<or>
    (\<exists>rest. out = ConnectedChanged (con_connected c') # rest \<and> set rest \<subseteq> range StateChanged)"
  using assms
  by (cases sig) (auto simp: setConnected_def con_onStateChanged_def con_slot_defs Let_def
      split: if_splits connection_type.splits)

lemma rc_inv_states: "rc_inv rc \<Longrightarrow> set rest \<subseteq> range StateChanged \<Longrightarrow> rc_inv (fold (rc_onSignal E) rest rc)"
  by (induction rest arbitrary: rc) (auto simp: rc_inv_state)

lemma rc_inv_signal:
  assumes inv: "rc_inv rc" and c: "rc_connection rc = Some c" and slot: "con_slot sig c = (c', out)"
  shows "rc_inv (fold (rc_onSignal E) out (rc\<lparr>rc_connection := Some c'\<rparr>))"
  using con_slot_cases [OF slot]
proof
  assume *: "c' = c \<and> (\<forall>x \<in> set out. \<forall>b. x \<noteq> ConnectedChanged b) \<and> length out \<le> 1"
  have same: "rc\<lparr>rc_connection := Some c\<rparr> = rc" using c by simp
  have "rc_inv (rc_emit [RcErrorOccurred e] (rc\<lparr>rc_error := e\<rparr>))" for e
    by (rule rc_inv_silent [OF inv, of _ "[RcErrorOccurred e]"]) (simp_all add: rc_emit_def)
  then have err: "rc_inv (rc_setError e rc)" for e
    using inv by (simp add: rc_setError_def)
  consider "out = []" | st where "out = [StateChanged st]" | d where "out = [DataReceived d]"
    | e where "out = [ErrorOccurred e]"
  proof (cases out)
    case (Cons x xs)
    with * have "xs = []" "\<forall>b. x \<noteq> ConnectedChanged b" by auto
    with Cons that show ?thesis by (cases x) auto
  qed (use that in blast)
  then show ?thesis
    using * inv same err rc_inv_state [OF inv] rc_inv_data [OF inv c] by cases simp_all
next
  assume "\<exists>rest. out = ConnectedChanged (con_connected c') # rest \<and> set rest \<subseteq> range StateChanged"
  then obtain rest where rest: "out = ConnectedChanged (con_connected c') # rest"
      "set rest \<subseteq> range StateChanged" by blast
  have "rc_base (rc\<lparr>rc_connection := Some c'\<rparr>)"
    using inv c by (simp add: rc_inv_def rc_base_setConnection)
  from rc_inv_changed [OF this, of c' "con_connected c'" E] show ?thesis
    using rest by (simp add: rc_inv_states)
qed

theorem rc_inv_step: "rc_inv rc \<Longrightarrow> rc_inv (rc_step E rc e)"
proof (cases e)
  case (RcConnect url v)
  assume inv: "rc_inv rc"
  define rc1 where "rc1 = rc_cleanUp (rc\<lparr>rc_serverUrl := Some url, rc_serverUuid := v, rc_error := -1\<rparr>)"
  have base: "rc_base rc1"
    unfolding rc1_def by (rule rc_base_cleanUp) (use inv in \<open>simp add: rc_inv_def rc_base_def remoteConnected_def\<close>)
  obtain c ops where c: "con_connectServer url (newConnection (rc_connectionType rc1) url) = (c, ops)"
    by fastforce
  have "rc_step E rc e = rc_emit (map RcSocket ops)
      (rc1\<lparr>rc_connection := Some c, rc_jsonClient := Some newJsonClient\<rparr>)"
    by (simp add: RcConnect rc_connectServer_def Let_def c flip: rc1_def)
  moreover have "rc_base (rc1\<lparr>rc_connection := Some c, rc_jsonClient := Some newJsonClient\<rparr>)"
    using base by (simp add: rc_base_def)
  moreover have "\<not> remoteConnected rc1" by (simp add: rc1_def remoteConnected_def)
  ultimately have "rc_inv (rc1\<lparr>rc_connection := Some c, rc_jsonClient := Some newJsonClient\<rparr>)"
    by (simp add: rc_inv_def rc_up_def newJsonClient_def)
  from rc_inv_silent [OF this, of _ "map RcSocket ops"] show ?thesis
    by (simp add: \<open>rc_step E rc e = _\<close> rc_emit_def list_all_iff)
next
  case RcDisconnect
  assume inv: "rc_inv rc"
  show ?thesis
  proof (cases "rc_connection rc")
    case None
    with inv RcDisconnect show ?thesis by (simp add: rc_disconnectServer_def)
  next
    case (Some c)
    with RcDisconnect rc_inv_silent [OF inv, of _ "map RcSocket (con_disconnectServer c)"] show ?thesis
      by (simp add: rc_disconnectServer_def rc_emit_def list_all_iff)
  qed
next
  case (RcSend d)
  assume inv: "rc_inv rc"
  show ?thesis
  proof (cases "rc_connection rc")
    case None
    with inv have "\<not> remoteConnected rc" by (simp add: rc_inv_def rc_up_def)
    with inv RcSend show ?thesis by (simp add: rc_sendData_def)
  next
    case (Some c)
    with inv RcSend rc_inv_silent [OF inv, of _ "map RcSocket (con_sendData d c)"] show ?thesis
      by (simp add: rc_sendData_def rc_send_def rc_emit_def list_all_iff)
  qed
next
  case (RcSignal sig)
  assume "rc_inv rc"
  with RcSignal show ?thesis
    by (auto simp: split_beta split: option.splits intro: rc_inv_signal)
qed (use rc_inv_state [of rc ClosingState] rc_inv_state [of rc UnconnectedState] in simp_all)

interpretation rc_machine: event_machine "rc_step E" "newRemoteConnection u n t" rc_inv
  for E u n t
  by unfold_locales (rule rc_inv_start, rule rc_inv_step)

end
