(* ===== verification/SocketServerInvariant.thy ===== *)
theory SocketServerInvariant
  imports SocketServer
begin

text \<open>
  What holds of a \<open>TunnelProxySocketServer\<close> after every event: no null pointer is dereferenced,
  the application is told the state, the timers run when they have to, and the server runs only
  while its socket is connected.
\<close>

section \<open>The invariant\<close>

text \<open>What the application was last told.\<close>

definition ss_shown :: "server_output list \<Rightarrow> server_state" where
  "ss_shown outs = fold (\<lambda>out st. case out of SsStateChanged st' \<Rightarrow> st' | _ \<Rightarrow> st) outs StateDisconnected"

definition ss_shownRunning :: "server_output list \<Rightarrow> bool" where
  "ss_shownRunning outs = fold (\<lambda>out b. case out of SsRunningChanged b' \<Rightarrow> b' | _ \<Rightarrow> b) outs False"

definition ss_base :: "socket_server \<Rightarrow> bool" where
  "ss_base ss =
     (SsNullPointer \<notin> set (ss_outputs ss) \<and>
      (ss_connection ss = None) = (ss_jsonClient ss = None) \<and>
      ss_shown (ss_outputs ss) = ss_state ss \<and>
      ss_shownRunning (ss_outputs ss) = ss_running ss \<and>
      ss_running ss = (ss_state ss = StateRunning) \<and>
      (ss_running ss \<longrightarrow> tm_active (ss_keepAliveTimer ss)) \<and>
      (ss_connection ss = None \<longrightarrow> ss_tunnelProxySockets ss = []))"

definition ss_up :: "socket_server \<Rightarrow> bool" where
  "ss_up ss =
     ((ss_connection ss = None \<longrightarrow> ss_state ss \<noteq> StateRunning) \<and>
      (\<forall>c jc. ss_connection ss = Some c \<longrightarrow> ss_jsonClient ss = Some jc \<longrightarrow>
         jc_replies jc \<noteq> [] \<or> ss_state ss = StateRunning \<or> ss_tunnelProxySockets ss \<noteq> [] \<longrightarrow>
         con_connected c))"

text \<open>An enabled server that lost its connection has the reconnect timer running.\<close>

definition ss_timed :: "socket_server \<Rightarrow> bool" where
  "ss_timed ss =
     (ss_enabled ss \<longrightarrow>
        (ss_connection ss = None \<longrightarrow> tm_active (ss_reconnectTimer ss)) \<and>
        (\<forall>c. ss_connection ss = Some c \<longrightarrow> con_connected c \<longrightarrow> ss_state ss = StateDisconnected \<longrightarrow>
           tm_active (ss_reconnectTimer ss)))"

definition ss_inv :: "socket_server \<Rightarrow> bool" where
  "ss_inv ss = (ss_base ss \<and> ss_up ss \<and> ss_timed ss)"

lemmas ss_inv_defs = ss_inv_def ss_base_def ss_up_def ss_timed_def

section \<open>Silent changes\<close>

fun ss_silent :: "server_output \<Rightarrow> bool" where
  "ss_silent (SsStateChanged _) = False"
| "ss_silent (SsRunningChanged _) = False"
| "ss_silent SsNullPointer = False"
| "ss_silent _ = True"

lemma ss_shown_silent:
  "list_all ss_silent xs \<Longrightarrow> ss_shown (outs @ xs) = ss_shown outs"
  "list_all ss_silent xs \<Longrightarrow> ss_shownRunning (outs @ xs) = ss_shownRunning outs"
proof (induction xs rule: rev_induct)
  case (snoc x xs)
  {
    case 1
    with snoc show ?case by (cases x) (simp_all add: ss_shown_def)
  next
    case 2
    with snoc show ?case by (cases x) (simp_all add: ss_shownRunning_def)
  }
qed simp_all

text \<open>The fields the invariant reads besides the outputs.\<close>

definition ss_view where
  "ss_view ss = (ss_connection ss, ss_jsonClient ss, ss_state ss, ss_running ss, ss_enabled ss,
     ss_reconnectTimer ss, ss_keepAliveTimer ss, ss_tunnelProxySockets ss = [])"

lemma ss_silent_change:
  assumes "ss_view ss' = ss_view ss" "ss_outputs ss' = ss_outputs ss @ xs" "list_all ss_silent xs"
  shows "ss_base ss \<Longrightarrow> ss_base ss'" "ss_up ss' = ss_up ss" "ss_timed ss' = ss_timed ss"
proof -
  have "SsNullPointer \<notin> set xs" using assms(3) by (auto simp: list_all_iff)
  then show "ss_base ss \<Longrightarrow> ss_base ss'"
    using assms(1,2) ss_shown_silent [OF assms(3)] by (simp add: ss_base_def ss_view_def)
  show "ss_up ss' = ss_up ss" "ss_timed ss' = ss_timed ss"
    using assms(1) by (simp_all add: ss_up_def ss_timed_def ss_view_def)
qed

lemma ss_inv_silent:
  assumes "ss_inv ss" "ss_view ss' = ss_view ss" "ss_outputs ss' = ss_outputs ss @ xs" "list_all ss_silent xs"
  shows "ss_inv ss'"
  using assms(1) ss_silent_change [OF assms(2-4)] by (simp add: ss_inv_def)

lemma ss_emit_view [simp]: "ss_view (ss_emit outs ss) = ss_view ss"
  by (simp add: ss_emit_def ss_view_def)

lemma ss_emit_outputs [simp]: "ss_outputs (ss_emit outs ss) = ss_outputs ss @ outs"
  by (simp add: ss_emit_def)

lemma list_all_ss_socket [simp]: "list_all ss_silent (map SsSocket ops)"
  by (simp add: list_all_iff)

lemma ss_view_D:
  "ss_view ss' = ss_view ss \<Longrightarrow> ss_connection ss' = ss_connection ss \<and> ss_jsonClient ss' = ss_jsonClient ss \<and>
     ss_state ss' = ss_state ss \<and> ss_enabled ss' = ss_enabled ss"
  by (simp add: ss_view_def)

section \<open>States\<close>

lemma ss_setState_frame [simp]:
  "ss_connection (ss_setState st ss) = ss_connection ss"
  "ss_jsonClient (ss_setState st ss) = ss_jsonClient ss"
  "ss_state (ss_setState st ss) = st"
  "ss_enabled (ss_setState st ss) = ss_enabled ss"
  "ss_tunnelProxySockets (ss_setState st ss) = ss_tunnelProxySockets ss"
  by (simp_all add: ss_setState_def ss_setRunning_def ss_emit_def Let_def)

lemma ss_setState_reconnect:
  "tm_active (ss_reconnectTimer ss) \<Longrightarrow> tm_active (ss_reconnectTimer (ss_setState st ss))"
  "ss_enabled ss \<Longrightarrow> ss_state ss \<noteq> StateDisconnected \<Longrightarrow>
     tm_active (ss_reconnectTimer (ss_setState StateDisconnected ss))"
  by (simp_all add: ss_setState_def ss_setRunning_def ss_emit_def Let_def timer_start_def)

lemma ss_base_setState: "ss_base ss \<Longrightarrow> ss_base (ss_setState st ss)"
  by (cases "ss_state ss = st"; cases "st = StateRunning"; cases "ss_running ss")
    (auto simp: ss_base_def ss_setState_def ss_setRunning_def ss_emit_def Let_def
      ss_shown_def ss_shownRunning_def timer_start_def)

lemma ss_inv_setState:
  assumes "ss_inv ss" "st \<noteq> StateRunning"
  shows "ss_inv (ss_setState st ss)"
proof -
  have "ss_timed (ss_setState st ss)"
    using assms ss_setState_reconnect [of ss] unfolding ss_inv_def ss_timed_def
    by (cases "ss_state ss = StateDisconnected") auto
  moreover have "ss_up (ss_setState st ss)"
    using assms by (auto simp: ss_inv_def ss_up_def)
  ultimately show ?thesis
    using assms by (simp add: ss_inv_def ss_base_setState)
qed

lemma ss_inv_connected:
  "ss_base ss \<Longrightarrow> ss_connection ss = Some c \<Longrightarrow> con_connected c \<Longrightarrow> ss_state ss \<noteq> StateDisconnected \<Longrightarrow> ss_inv ss"
  by (auto simp: ss_inv_def ss_up_def ss_timed_def)

section \<open>Clean up\<close>

lemma ss_dropSocket_view [simp]:
  "ss_connection (ss_onTunnelProxyClientDisconnected a ss) = ss_connection ss"
  "ss_jsonClient (ss_onTunnelProxyClientDisconnected a ss) = ss_jsonClient ss"
  "ss_state (ss_onTunnelProxyClientDisconnected a ss) = ss_state ss"
  "ss_running (ss_onTunnelProxyClientDisconnected a ss) = ss_running ss"
  "ss_enabled (ss_onTunnelProxyClientDisconnected a ss) = ss_enabled ss"
  "ss_reconnectTimer (ss_onTunnelProxyClientDisconnected a ss) = ss_reconnectTimer ss"
  "ss_keepAliveTimer (ss_onTunnelProxyClientDisconnected a ss) = ss_keepAliveTimer ss"
  "ss_tunnelProxySockets (ss_onTunnelProxyClientDisconnected a ss) = qremove a (ss_tunnelProxySockets ss)"
  by (auto simp: ss_onTunnelProxyClientDisconnected_def Let_def ss_emit_def map_of_eq_None_iff
      split: option.splits)

lemma ss_dropSocket_outputs:
  "\<exists>xs. ss_outputs (ss_onTunnelProxyClientDisconnected a ss) = ss_outputs ss @ xs \<and> list_all ss_silent xs"
  by (cases "map_of (ss_tunnelProxySockets ss) a") (simp_all add: ss_onTunnelProxyClientDisconnected_def Let_def)

lemma ss_dropSockets:
  "\<exists>xs. ss_outputs (fold ss_onTunnelProxyClientDisconnected as ss) = ss_outputs ss @ xs \<and> list_all ss_silent xs"
  "ss_connection (fold ss_onTunnelProxyClientDisconnected as ss) = ss_connection ss"
  "ss_jsonClient (fold ss_onTunnelProxyClientDisconnected as ss) = ss_jsonClient ss"
  "ss_state (fold ss_onTunnelProxyClientDisconnected as ss) = ss_state ss"
  "ss_running (fold ss_onTunnelProxyClientDisconnected as ss) = ss_running ss"
  "ss_enabled (fold ss_onTunnelProxyClientDisconnected as ss) = ss_enabled ss"
  "ss_reconnectTimer (fold ss_onTunnelProxyClientDisconnected as ss) = ss_reconnectTimer ss"
  "ss_keepAliveTimer (fold ss_onTunnelProxyClientDisconnected as ss) = ss_keepAliveTimer ss"
  "ss_tunnelProxySockets (fold ss_onTunnelProxyClientDisconnected as ss) =
     fold qremove as (ss_tunnelProxySockets ss)"
proof (induction as arbitrary: ss)
  case (Cons a as)
  {
    case 1
    obtain xs where "ss_outputs (ss_onTunnelProxyClientDisconnected a ss) = ss_outputs ss @ xs" "list_all ss_silent xs"
      using ss_dropSocket_outputs by blast
    moreover obtain ys where "ss_outputs (fold ss_onTunnelProxyClientDisconnected (a # as) ss) =
        ss_outputs (ss_onTunnelProxyClientDisconnected a ss) @ ys" "list_all ss_silent ys"
      using Cons.IH(1) [of "ss_onTunnelProxyClientDisconnected a ss"] by auto
    ultimately show ?case by (intro exI [of _ "xs @ ys"]) simp
  }
qed simp_all

lemma fold_qremove_all: "set as \<supseteq> fst ` set h \<Longrightarrow> fold qremove as h = []"
proof (induction as arbitrary: h)
  case (Cons a as)
  then have "fst ` set (qremove a h) \<subseteq> set as"
    by (auto simp: AList.delete_eq)
  then show ?case by (simp add: Cons.IH)
qed simp

lemma ss_cleanUp_frame [simp]:
  "ss_connection (ss_cleanUp ss) = None" "ss_jsonClient (ss_cleanUp ss) = None"
  "ss_state (ss_cleanUp ss) = StateDisconnected" "ss_enabled (ss_cleanUp ss) = ss_enabled ss"
  "ss_tunnelProxySockets (ss_cleanUp ss) = []"
  by (simp_all add: ss_cleanUp_def Let_def ss_dropSockets fold_qremove_all)

lemma ss_base_cleanUp:
  assumes "ss_base ss"
  shows "ss_base (ss_cleanUp ss)"
proof -
  let ?ss = "fold ss_onTunnelProxyClientDisconnected (map fst (ss_tunnelProxySockets ss)) ss"
  obtain xs where xs: "ss_outputs ?ss = ss_outputs ss @ xs" "list_all ss_silent xs"
    using ss_dropSockets(1) by blast
  moreover have "SsNullPointer \<notin> set xs" using xs(2) by (auto simp: list_all_iff)
  ultimately show ?thesis
    using assms unfolding ss_cleanUp_def Let_def
    by (intro ss_base_setState)
      (simp add: ss_base_def ss_dropSockets(2-) fold_qremove_all ss_shown_silent)
qed

lemma ss_cleanUp_reconnect:
  "tm_active (ss_reconnectTimer ss) \<Longrightarrow> tm_active (ss_reconnectTimer (ss_cleanUp ss))"
  unfolding ss_cleanUp_def Let_def by (rule ss_setState_reconnect(1)) (simp add: ss_dropSockets)

lemma ss_inv_cleanUp:
  "ss_base ss \<Longrightarrow> ss_enabled ss \<longrightarrow> tm_active (ss_reconnectTimer ss) \<Longrightarrow> ss_inv (ss_cleanUp ss)"
  by (simp add: ss_inv_def ss_base_cleanUp ss_up_def ss_timed_def ss_cleanUp_reconnect)

section \<open>Sending and replies\<close>

text \<open>A server with its connection, while replies come in.\<close>

definition ss_live :: "proxy_connection \<Rightarrow> socket_server \<Rightarrow> bool" where
  "ss_live c ss = (ss_inv ss \<and> ss_connection ss = Some c)"

lemma ss_live_silent:
  assumes "ss_live c ss" "ss_view ss' = ss_view ss" "ss_outputs ss' = ss_outputs ss @ xs" "list_all ss_silent xs"
  shows "ss_live c ss'"
  using ss_inv_silent [OF _ assms(2-4)] ss_view_D [OF assms(2)] assms(1) by (simp add: ss_live_def)

lemma ss_live_json:
  assumes "ss_live c ss" "con_connected c"
  shows "ss_live c (ss\<lparr>ss_jsonClient := Some jc\<rparr>)"
  using assms by (auto simp: ss_live_def ss_inv_defs)

lemma ss_live_send: "ss_live c ss \<Longrightarrow> ss_live c (ss_send d ss)"
  by (rule ss_live_silent [where xs = "map SsSocket (con_sendData d c)"])
    (simp_all add: ss_send_def ss_live_def)

lemma ss_live_drop: "ss_live c ss \<Longrightarrow> ss_live c (ss_dropConnection ss)"
  by (rule ss_live_silent [where xs = "map SsSocket (con_disconnectServer c)"])
    (simp_all add: ss_dropConnection_def ss_live_def)

lemma ss_live_jsonClient: "ss_live c ss \<Longrightarrow> \<exists>jc. ss_jsonClient ss = Some jc"
  by (auto simp: ss_live_def ss_inv_defs)

lemma ss_live_call:
  assumes "ss_live c ss" "con_connected c"
  shows "ss_live c (ss_call f ss)"
proof -
  obtain jc where jc: "ss_jsonClient ss = Some jc" using ss_live_jsonClient [OF assms(1)] by blast
  have "ss_call f ss = ss_send (fst (f jc)) (ss\<lparr>ss_jsonClient := Some (snd (f jc))\<rparr>)"
    by (simp add: ss_call_def jc split_beta)
  then show ?thesis
    by (simp add: ss_live_send ss_live_json [OF assms])
qed

lemma ss_live_serverError: "ss_live c ss \<Longrightarrow> ss_live c (ss_setServerError e ss)"
  by (rule ss_live_silent [where xs = "if ss_serverError ss = e then [] else [SsServerErrorOccurred e]"])
    (simp_all add: ss_setServerError_def ss_emit_def ss_view_def)

lemma ss_live_setState:
  "ss_live c ss \<Longrightarrow> st \<noteq> StateRunning \<Longrightarrow> ss_live c (ss_setState st ss)"
  by (simp add: ss_live_def ss_inv_setState)

lemma ss_live_running:
  assumes "ss_live c ss" "con_connected c"
  shows "ss_live c (ss_setState StateRunning ss)"
proof -
  have "ss_inv (ss_setState StateRunning ss)"
    by (rule ss_inv_connected [of _ c]) (use assms in \<open>simp_all add: ss_live_def ss_inv_def ss_base_setState\<close>)
  with assms show ?thesis by (simp add: ss_live_def)
qed

lemma ss_live_names:
  assumes "ss_live c ss"
  shows "ss_live c (ss\<lparr>ss_remoteProxyServer := a, ss_remoteProxyServerName := b,
     ss_remoteProxyServerVersion := v, ss_remoteProxyApiVersion := w\<rparr>)"
  by (rule ss_live_silent [OF assms, where xs = "[]"]) (simp_all add: ss_view_def)

lemma ss_live_reply:
  assumes live: "ss_live c ss" and c: "con_connected c"
  shows "ss_live c (ss_onHelloFinished E r ss)" "ss_live c (ss_onServerRegistrationFinished E r ss)"
proof -
  have drop: "ss_live c (ss_setServerError ErrorConnectionError (ss_dropConnection ss))"
    by (rule ss_live_serverError [OF ss_live_drop [OF live]])
  have "ss_live c (ss_call f (ss_setState StateRegister (ss\<lparr>ss_remoteProxyServer := a,
      ss_remoteProxyServerName := b, ss_remoteProxyServerVersion := v, ss_remoteProxyApiVersion := w\<rparr>)))"
    for f a b v w
    by (intro ss_live_call ss_live_setState ss_live_names live c) simp
  with drop show "ss_live c (ss_onHelloFinished E r ss)"
    by (simp add: ss_onHelloFinished_def Let_def)
  have "ss_live c ((ss_setState StateRunning ss)\<lparr>ss_serverError := ErrorNoError\<rparr>)"
    by (rule ss_live_silent [OF ss_live_running [OF live c], where xs = "[]"]) (simp_all add: ss_view_def)
  with drop show "ss_live c (ss_onServerRegistrationFinished E r ss)"
    by (simp add: ss_onServerRegistrationFinished_def Let_def)
qed

lemma ss_live_clientConnected:
  "ss_live c ss \<Longrightarrow> con_connected c \<Longrightarrow> ss_live c (ss_onTunnelProxyClientConnected n u p a ss)"
  unfolding ss_live_def ss_inv_defs ss_onTunnelProxyClientConnected_def Let_def
  by (auto simp: ss_emit_def ss_shown_def ss_shownRunning_def)

lemma ss_live_clientDisconnected:
  assumes "ss_live c ss"
  shows "ss_live c (ss_onTunnelProxyClientDisconnected a ss)"
proof -
  obtain xs where xs: "ss_outputs (ss_onTunnelProxyClientDisconnected a ss) = ss_outputs ss @ xs"
      "list_all ss_silent xs"
    using ss_dropSocket_outputs by blast
  moreover have "SsNullPointer \<notin> set xs" using xs(2) by (auto simp: list_all_iff)
  ultimately show ?thesis
    using assms by (auto simp: ss_live_def ss_inv_defs ss_shown_silent)
qed

lemma ss_live_jsonSignal:
  assumes live: "ss_live c ss" and c: "con_connected c"
  shows "ss_live c (ss_onJsonSignal E sig ss)"
  using live c ss_live_reply [OF live c]
  by (auto simp: ss_onJsonSignal_def ss_live_clientConnected ss_live_clientDisconnected
      split: json_signal.splits option.splits reply_slot.splits)

lemma ss_live_jsonSignals:
  "ss_live c ss \<Longrightarrow> con_connected c \<Longrightarrow> ss_live c (fold (ss_onJsonSignal E) sigs ss)"
  by (induction sigs arbitrary: ss) (auto simp: ss_live_jsonSignal)

lemma ss_live_packets:
  "ss_live c ss \<Longrightarrow> con_connected c \<Longrightarrow> ss_live c (ss_processPackets E ps ss)"
proof (induction ps arbitrary: ss)
  case (Cons p ps)
  obtain jc where jc: "ss_jsonClient ss = Some jc" using ss_live_jsonClient [OF Cons.prems(1)] by blast
  then show ?case
    using Cons.prems by (simp add: split_beta Cons.IH ss_live_jsonSignals ss_live_json)
qed simp

lemma ss_live_processJson:
  assumes "ss_live c ss" "con_connected c"
  shows "ss_live c (ss_processJson E d ss)"
proof -
  obtain jc where jc: "ss_jsonClient ss = Some jc" using ss_live_jsonClient [OF assms(1)] by blast
  with assms show ?thesis
    by (simp add: ss_processJson_def split_beta ss_live_packets ss_live_json)
qed

lemma ss_live_frame: "ss_live c ss \<Longrightarrow> con_connected c \<Longrightarrow> ss_live c (ss_onFrame E f ss)"
  by (auto simp: ss_onFrame_def Let_def ss_live_processJson split: option.splits
      intro: ss_live_silent [where xs = "[SsDataReceived a d]" for a d])

lemma ss_live_frames: "ss_live c ss \<Longrightarrow> con_connected c \<Longrightarrow> ss_live c (fold (ss_onFrame E) fs ss)"
  by (induction fs arbitrary: ss) (auto simp: ss_live_frame)

lemma ss_live_buffer: "ss_live c ss \<Longrightarrow> ss_live c (ss\<lparr>ss_dataBuffer := b\<rparr>)"
  by (rule ss_live_silent [where xs = "[]"]) (simp_all add: ss_view_def)

lemma ss_live_keepAlive:
  "ss_live c ss \<Longrightarrow> ss_live c (ss\<lparr>ss_keepAliveTimer := timer_start (ss_keepAliveTimer ss)\<rparr>)"
  by (auto simp: ss_live_def ss_inv_defs timer_start_def)

lemma ss_live_data: "ss_live c ss \<Longrightarrow> con_connected c \<Longrightarrow> ss_live c (ss_onConnectionDataAvailable E d ss)"
  using ss_live_keepAlive [of c ss]
  by (auto simp: ss_onConnectionDataAvailable_def Let_def split_beta
      intro!: ss_live_buffer ss_live_processJson ss_live_frames)

section \<open>Signals of the connection\<close>

lemma ss_inv_start: "ss_inv (newSocketServer u n t)"
  by (simp add: ss_inv_defs newSocketServer_def ss_shown_def ss_shownRunning_def)

text \<open>The socket is connected now.\<close>

lemma ss_live_up:
  assumes "ss_base ss" "ss_connection ss = Some c" "con_connected c"
  shows "ss_live c (ss_onConnectionChanged E True ss)"
proof -
  let ?s1 = "(ss_setState StateConnected ss)\<lparr>ss_serverError := ErrorNoError\<rparr>"
  have "ss_base ?s1" using ss_base_setState [OF assms(1), of StateConnected] by (simp add: ss_base_def)
  then have "ss_inv (ss_setState StateInitializing ?s1)"
    by (intro ss_inv_connected [of _ c] ss_base_setState) (simp_all add: assms)
  then have "ss_live c (ss_setState StateInitializing ?s1)" by (simp add: ss_live_def assms(2))
  from ss_live_call [OF this assms(3)] show ?thesis
    by (simp add: ss_onConnectionChanged_def Let_def)
qed

text \<open>The socket is no longer connected.\<close>

lemma ss_inv_down:
  assumes "ss_base ss" "ss_enabled ss \<Longrightarrow> ss_state ss = StateDisconnected \<Longrightarrow> tm_active (ss_reconnectTimer ss)"
  shows "ss_inv (ss_onConnectionChanged E False ss)"
proof -
  let ?s1 = "ss_setState StateDisconnected ss"
  let ?s2 = "ss_setServerError ErrorNotConnected ?s1"
  have view: "ss_view ?s2 = ss_view ?s1"
    by (simp add: ss_setServerError_def ss_emit_def ss_view_def)
  have "ss_base ?s2"
    by (rule ss_silent_change(1) [OF view,
          where xs = "if ss_serverError ?s1 = ErrorNotConnected then [] else [SsServerErrorOccurred ErrorNotConnected]"])
      (use ss_base_setState [OF assms(1)] in \<open>simp_all add: ss_setServerError_def ss_emit_def\<close>)
  moreover have "ss_enabled ss \<Longrightarrow> tm_active (ss_reconnectTimer ?s1)"
    using assms(2) ss_setState_reconnect [of ss] by (cases "ss_state ss = StateDisconnected") auto
  then have "ss_enabled ?s2 \<longrightarrow> tm_active (ss_reconnectTimer ?s2)"
    using view by (simp add: ss_view_def)
  ultimately show ?thesis
    by (simp add: ss_onConnectionChanged_def ss_inv_cleanUp)
qed

lemma ss_inv_socketState:
  assumes "ss_inv ss" "st = ConnectedState \<Longrightarrow> ss_connection ss \<noteq> None"
  shows "ss_inv (ss_onConnectionStateChanged st ss)"
proof (cases "st = ConnectedState")
  case True
  let ?ss = "ss_setState StateConnected ss"
  have "ss_inv ?ss" by (rule ss_inv_setState [OF assms(1)]) simp
  then have "ss_inv (?ss\<lparr>ss_reconnectTimer := timer_stop (ss_reconnectTimer ?ss)\<rparr>)"
    using assms(2) True by (auto simp: ss_inv_defs)
  with True show ?thesis by (simp add: Let_def)
next
  case False
  then show ?thesis
    using assms(1) by (cases st) (simp_all add: ss_inv_setState)
qed

lemma ss_inv_setConnection:
  assumes "ss_inv ss" "ss_connection ss = Some c" "con_connected c' = con_connected c"
  shows "ss_inv (ss\<lparr>ss_connection := Some c'\<rparr>)"
  using assms by (auto simp: ss_inv_defs)

lemma ss_base_setConnection:
  "ss_base ss \<Longrightarrow> ss_connection ss = Some c \<Longrightarrow> ss_base (ss\<lparr>ss_connection := Some c'\<rparr>)"
  by (auto simp: ss_base_def)

text \<open>What a connection reports: nothing about being connected, that it is now, or that it is not.\<close>

lemma con_slot_reports:
  assumes "con_slot sig c = (c', out)"
  obtains (same) "c' = c" "out = [] \<or> (\<exists>x. out = [x] \<and> (\<forall>b. x \<noteq> ConnectedChanged b))"
      "\<And>d. out = [DataReceived d] \<Longrightarrow> sig = SigData d"
    | (up) rest where "con_connected c'" "out = ConnectedChanged True # rest" "set rest \<subseteq> range StateChanged"
    | (down) rest where "con_connected c" "\<not> con_connected c'" "out = ConnectedChanged False # rest"
        "set rest \<subseteq> StateChanged ` (UNIV - {ConnectedState})"
  using assms that
  by (cases sig) (auto simp: setConnected_def con_onStateChanged_def con_slot_defs Let_def
      split: if_splits connection_type.splits)

lemma ss_inv_states_up:
  "ss_live c ss \<Longrightarrow> con_connected c \<Longrightarrow> set rest \<subseteq> range StateChanged \<Longrightarrow>
     ss_inv (fold (ss_onSignal E) rest ss)"
proof (induction rest arbitrary: ss)
  case (Cons x rest)
  then obtain st where st: "x = StateChanged st" by auto
  have "ss_inv (ss_onConnectionStateChanged st ss)"
    using Cons.prems(1) by (intro ss_inv_socketState) (simp_all add: ss_live_def)
  moreover have "ss_connection (ss_onConnectionStateChanged st ss) = ss_connection ss"
    by (cases st) (simp_all add: Let_def)
  ultimately show ?case
    using Cons st by (simp add: ss_live_def)
qed (simp add: ss_live_def)

lemma ss_inv_states_down:
  "ss_inv ss \<Longrightarrow> set rest \<subseteq> StateChanged ` (UNIV - {ConnectedState}) \<Longrightarrow>
     ss_inv (fold (ss_onSignal E) rest ss)"
proof (induction rest arbitrary: ss)
  case (Cons x rest)
  then obtain st where "x = StateChanged st" "st \<noteq> ConnectedState" by auto
  moreover from this Cons.prems(1) have "ss_inv (ss_onConnectionStateChanged st ss)"
    by (intro ss_inv_socketState) simp_all
  ultimately show ?case using Cons by simp
qed simp

lemma ss_inv_signal:
  assumes inv: "ss_inv ss" and c: "ss_connection ss = Some c" and slot: "con_slot sig c = (c', out)"
    and possible: "signal_possible sig c"
  shows "ss_inv (fold (ss_onSignal E) out (ss\<lparr>ss_connection := Some c'\<rparr>))"
  using slot
proof (cases rule: con_slot_reports)
  case same
  have id: "ss\<lparr>ss_connection := Some c\<rparr> = ss" using c by simp
  have live: "ss_live c ss" using inv c by (simp add: ss_live_def)
  have err: "ss_inv (ss_setError e ss)" for e
    by (rule ss_inv_silent [OF inv, where xs = "if ss_error ss = e then [] else [SsErrorOccurred e]"])
      (simp_all add: ss_setError_def ss_emit_def ss_view_def)
  have data: "ss_inv (ss_onConnectionDataAvailable E d ss)" if "out = [DataReceived d]" for d
    using same(3) [OF that] possible ss_live_data [OF live, of E d] by (simp add: ss_live_def)
  have "ss_inv (ss_onSignal E x ss)" if "out = [x]" "\<forall>b. x \<noteq> ConnectedChanged b" for x
  proof (cases x)
    case (ConnectedChanged b)
    with that(2) show ?thesis by blast
  next
    case (DataReceived d)
    with data [of d] that(1) show ?thesis by simp
  qed (simp_all add: err inv c ss_inv_socketState)
  then have "ss_inv (fold (ss_onSignal E) out ss)" if "out \<noteq> []"
    using same(2) that by (metis comp_apply fold_simps(1) fold_Cons id_apply)
  with inv show ?thesis by (cases "out = []") (simp_all add: same(1) id)
next
  case (up rest)
  have "ss_base (ss\<lparr>ss_connection := Some c'\<rparr>)"
    using inv c by (simp add: ss_inv_def ss_base_setConnection)
  from ss_live_up [OF this _ up(1)] show ?thesis
    using ss_inv_states_up [OF _ up(1,3)] by (simp add: up(2))
next
  case (down rest)
  have "ss_base (ss\<lparr>ss_connection := Some c'\<rparr>)"
    using inv c by (simp add: ss_inv_def ss_base_setConnection)
  then have "ss_inv (ss_onConnectionChanged E False (ss\<lparr>ss_connection := Some c'\<rparr>))"
    by (rule ss_inv_down) (use inv c down(1) in \<open>auto simp: ss_inv_def ss_timed_def\<close>)
  then show ?thesis
    using ss_inv_states_down [OF _ down(4)] by (simp add: down(3))
qed

section \<open>Every event\<close>

lemma ss_inv_startServer:
  assumes "ss_inv ss"
  shows "ss_inv (snd (ss_startServer url ss))"
proof (cases "pu_valid url")
  case True
  let ?s0 = "ss\<lparr>ss_serverUrl := url, ss_error := -1\<rparr>"
  define s1 where "s1 = ss_cleanUp ?s0"
  obtain c ops where c: "con_connectServer url (newConnection (ss_connectionType s1) url) = (c, ops)"
    by fastforce
  then have off: "\<not> con_connected c"
    by (auto simp: con_connectServer_def con_slot_defs newConnection_def Let_def split: connection_type.splits if_splits)
  have "ss_base ?s0" using assms by (simp add: ss_inv_def ss_base_def)
  then have "ss_base s1" "ss_state s1 = StateDisconnected" "ss_tunnelProxySockets s1 = []"
    unfolding s1_def by (simp_all add: ss_base_cleanUp)
  then have inv: "ss_inv (s1\<lparr>ss_connection := Some c, ss_jsonClient := Some newJsonClient, ss_enabled := True\<rparr>)"
    using off by (simp add: ss_inv_defs newJsonClient_def)
  have "snd (ss_startServer url ss) = (ss_emit (map SsSocket ops)
      (s1\<lparr>ss_connection := Some c, ss_jsonClient := Some newJsonClient\<rparr>))\<lparr>ss_enabled := True\<rparr>"
    using True by (simp add: ss_startServer_def Let_def c flip: s1_def)
  then show ?thesis
    by (intro ss_inv_silent [OF inv, where xs = "map SsSocket ops"])
      (simp_all add: ss_view_def ss_emit_def)
qed (simp add: assms ss_startServer_def)

lemma ss_inv_stopServer:
  assumes "ss_inv ss"
  shows "ss_inv (ss_stopServer ss)"
proof -
  let ?ss = "ss\<lparr>ss_enabled := False, ss_reconnectTimer := timer_stop (ss_reconnectTimer ss)\<rparr>"
  have inv: "ss_inv ?ss" using assms by (simp add: ss_inv_defs)
  show ?thesis
  proof (cases "ss_connection ss")
    case None
    with inv show ?thesis by (simp add: ss_stopServer_def)
  next
    case (Some c)
    then show ?thesis
      by (intro ss_inv_silent [OF inv, where xs = "map SsSocket (con_disconnectServer c)"])
        (simp_all add: ss_stopServer_def)
  qed
qed

text \<open>A request of the running server; its clients and its timers wait only while it is connected.\<close>

lemma ss_inv_request:
  assumes inv: "ss_inv ss" and run: "ss_state ss = StateRunning"
  shows "ss_inv (ss_call f ss)"
proof -
  obtain c where c: "ss_connection ss = Some c" using inv run by (auto simp: ss_inv_defs)
  moreover from inv c obtain jc where "ss_jsonClient ss = Some jc" by (auto simp: ss_inv_defs)
  with inv c run have "con_connected c" by (auto simp: ss_inv_defs)
  ultimately have "ss_live c (ss_call f ss)"
    using inv by (intro ss_live_call) (simp_all add: ss_live_def)
  then show ?thesis by (simp add: ss_live_def)
qed

lemma ss_inv_socketRequest:
  assumes inv: "ss_inv ss" and t: "map_of (ss_tunnelProxySockets ss) a = Some t"
  shows "ss_inv (ss_call f ss)" "ss_inv (ss_send d ss)"
proof -
  have ne: "ss_tunnelProxySockets ss \<noteq> []" using t by auto
  then obtain c where c: "ss_connection ss = Some c" using inv by (auto simp: ss_inv_defs)
  then have live: "ss_live c ss" using inv by (simp add: ss_live_def)
  from ss_live_jsonClient [OF live] ne inv c have "con_connected c" by (auto simp: ss_inv_defs)
  with live have "ss_live c (ss_call f ss)" "ss_live c (ss_send d ss)"
    by (simp_all add: ss_live_call ss_live_send)
  then show "ss_inv (ss_call f ss)" "ss_inv (ss_send d ss)" by (simp_all add: ss_live_def)
qed

theorem ss_inv_step:
  assumes inv: "ss_inv ss"
  shows "ss_inv (ss_step E ss e)"
proof (cases e)
  case (SsWriteData a d)
  with inv ss_inv_socketRequest(2) [OF inv] show ?thesis
    by (simp add: ts_writeData_def split: option.splits)
next
  case (SsDisconnectSocket a)
  with inv ss_inv_socketRequest(1) [OF inv] show ?thesis
    by (simp add: ts_disconnectSocket_def ss_requestSocketDisconnect_def split: option.splits)
next
  case (SsSignal sig)
  with inv show ?thesis
    by (auto simp: split_beta split: option.splits intro: ss_inv_signal)
next
  case SsReconnectTimeout
  have "ss_inv (ss\<lparr>ss_reconnectTimer := timer_stop (ss_reconnectTimer ss)\<rparr>)" if "\<not> ss_enabled ss"
    using inv that by (simp add: ss_inv_defs)
  with SsReconnectTimeout inv show ?thesis
    by (simp add: ss_onReconnectTimeout_def ss_inv_startServer)
next
  case (SsKeepAliveTimeout ts)
  have "ss_inv (ss\<lparr>ss_keepAliveTimer := timer_stop (ss_keepAliveTimer ss)\<rparr>)" if "ss_state ss \<noteq> StateRunning"
    using inv that by (simp add: ss_inv_defs)
  with SsKeepAliveTimeout inv show ?thesis
    by (simp add: ss_onKeepAliveTimeout_def ss_inv_request)
qed (simp_all add: inv ss_inv_startServer ss_inv_stopServer ss_inv_setState)

interpretation ss_machine: event_machine "ss_step E" "newSocketServer u n t" ss_inv
  for E u n t
  by unfold_locales (rule ss_inv_start, rule ss_inv_step)

end
