(* ===== verification/TunnelClients.thy ===== *)
theory TunnelClients
  imports Streams RemoteConnection
begin

text \<open>
  \<open>tunnelclient/serverconnection.{h,cpp}\<close> and \<open>tunnelclient/clientconnection.{h,cpp}\<close>: the two
  clients of the tunnel client program. The server can echo what its clients send; the client sends
  random text once a second. The lemmas close the loop: with a server that echoes, the text a client
  sends comes back to it.
\<close>

section \<open>The server\<close>

record server_app =
  sa_serverUrl :: proxy_url
  sa_insecure :: bool
  sa_echo :: bool
  sa_socketServer :: socket_server

definition newServerConnectionApp :: "proxy_url \<Rightarrow> string \<Rightarrow> uuid \<Rightarrow> bool \<Rightarrow> bool \<Rightarrow> server_app" where
  "newServerConnectionApp serverUrl name uuid insecure echo =
     \<lparr>sa_serverUrl = serverUrl, sa_insecure = insecure, sa_echo = echo,
      sa_socketServer = newSocketServer uuid name ConnectionTypeTcpSocket\<rparr>"

definition sa_startServer :: "server_app \<Rightarrow> server_app" where
  "sa_startServer app = app\<lparr>sa_socketServer := snd (ss_startServer (sa_serverUrl app) (sa_socketServer app))\<rparr>"

definition ss_ignoreSslErrors :: "socket_server \<Rightarrow> socket_server" where
  "ss_ignoreSslErrors ss =
     (case ss_connection ss of
        None \<Rightarrow> ss_emit [SsNullPointer] ss
      | Some c \<Rightarrow> ss_emit (map SsSocket (con_ignoreSslErrors c)) ss)"

definition sa_onSslErrors :: "server_app \<Rightarrow> server_app" where
  "sa_onSslErrors app =
     (if sa_insecure app then app\<lparr>sa_socketServer := ss_ignoreSslErrors (sa_socketServer app)\<rparr> else app)"

text \<open>The slot for \<open>dataReceived\<close> of a socket runs before the next frame is read.\<close>

definition sa_onDataReceived :: "bool \<Rightarrow> server_output \<Rightarrow> socket_server \<Rightarrow> socket_server" where
  "sa_onDataReceived echo out ss =
     (case out of
        SsDataReceived address data \<Rightarrow>
          (case map_of (ss_tunnelProxySockets ss) address of
             Some t \<Rightarrow> if echo then ts_writeData data t ss else ss
           | None \<Rightarrow> ss)
      | _ \<Rightarrow> ss)"

definition sa_onFrame :: "env \<Rightarrow> bool \<Rightarrow> bytes \<Rightarrow> socket_server \<Rightarrow> socket_server" where
  "sa_onFrame E echo frameData ss =
     (let ss' = ss_onFrame E frameData ss
      in fold (sa_onDataReceived echo) (drop (length (ss_outputs ss)) (ss_outputs ss')) ss')"

text \<open>\<open>ss_onConnectionDataAvailable\<close> with this slot.\<close>

definition sa_onConnectionDataAvailable :: "env \<Rightarrow> bool \<Rightarrow> bytes \<Rightarrow> socket_server \<Rightarrow> socket_server" where
  "sa_onConnectionDataAvailable E echo data ss =
     (if ss_state ss \<noteq> StateRunning then ss_onConnectionDataAvailable E data ss
      else
        (let ss = ss\<lparr>ss_keepAliveTimer := timer_start (ss_keepAliveTimer ss)\<rparr>;
             (frames, rest) = recv_loop (ss_dataBuffer ss) data
         in (fold (sa_onFrame E echo) frames ss)\<lparr>ss_dataBuffer := rest\<rparr>))"

section \<open>The client\<close>

record client_app =
  ca_serverUrl :: proxy_url
  ca_serverUuid :: uuid
  ca_insecure :: bool
  ca_sendRandomData :: bool
  ca_remoteConnection :: remote_connection
  ca_timer :: qtimer

definition newClientConnectionApp ::
  "proxy_url \<Rightarrow> string \<Rightarrow> uuid \<Rightarrow> uuid \<Rightarrow> bool \<Rightarrow> bool \<Rightarrow> client_app" where
  "newClientConnectionApp serverUrl name uuid serverUuid insecure sendRandomData =
     \<lparr>ca_serverUrl = serverUrl, ca_serverUuid = serverUuid, ca_insecure = insecure,
      ca_sendRandomData = sendRandomData,
      ca_remoteConnection = newRemoteConnection uuid name ConnectionTypeTcpSocket,
      ca_timer = \<lparr>tm_interval = 0, tm_singleShot = True, tm_active = False\<rparr>\<rparr>"

definition ca_connectToServer :: "client_app \<Rightarrow> client_app" where
  "ca_connectToServer app =
     app\<lparr>ca_remoteConnection := rc_connectServer (ca_serverUrl app) (ca_serverUuid app) (ca_remoteConnection app)\<rparr>"

definition possibleCharacters :: string where
  "possibleCharacters = ''ABCDEFGHIJKLMNOPQRSTUVWXYZabcdefghijklmnopqrstuvwxyz0123456789''"

text \<open>\<open>rand i\<close>: the value that \<open>std::rand\<close> gives for the character \<open>i\<close>.\<close>

definition generateRandomString :: "(nat \<Rightarrow> nat) \<Rightarrow> nat \<Rightarrow> string" where
  "generateRandomString rand n =
     map (\<lambda>i. possibleCharacters ! (rand i mod length possibleCharacters)) [0..<n]"

definition startFor :: "int \<Rightarrow> qtimer \<Rightarrow> qtimer" where
  "startFor ms t = t\<lparr>tm_interval := ms, tm_active := True\<rparr>"

text \<open>The slots for the timer, for \<open>remoteConnectedChanged\<close> and for \<open>sslErrors\<close>.\<close>

definition ca_onTimeout :: "(nat \<Rightarrow> nat) \<Rightarrow> client_app \<Rightarrow> client_app" where
  "ca_onTimeout rand app =
     (if \<not> tm_active (ca_timer app) then app
      else
        (let app = app\<lparr>ca_timer := timer_stop (ca_timer app)\<rparr>
         in if remoteConnected (ca_remoteConnection app)
            then app\<lparr>ca_remoteConnection :=
                       snd (rc_sendData (bytes_of (generateRandomString rand 100)) (ca_remoteConnection app)),
                     ca_timer := startFor 1000 (ca_timer app)\<rparr>
            else app))"

definition ca_onRemoteConnectedChanged :: "bool \<Rightarrow> client_app \<Rightarrow> client_app" where
  "ca_onRemoteConnectedChanged connected app =
     (if connected then app\<lparr>ca_timer := startFor 1000 (ca_timer app)\<rparr> else app)"

definition ca_onSslErrors :: "client_app \<Rightarrow> client_app" where
  "ca_onSslErrors app =
     (if ca_insecure app then app\<lparr>ca_remoteConnection := rc_ignoreSslErrors (ca_remoteConnection app)\<rparr> else app)"

section \<open>Random text\<close>

lemma possibleCharacters_plain:
  "\<forall>c \<in> set possibleCharacters. (of_char c :: byte) \<noteq> ProtocolByteEnd \<and> (of_char c :: byte) \<noteq> ProtocolByteEsc"
  by code_simp

text \<open>The random text has no byte that SLIP escapes.\<close>

lemma random_text_plain:
  "ProtocolByteEnd \<notin> set (bytes_of (generateRandomString rand n)) \<and>
   ProtocolByteEsc \<notin> set (bytes_of (generateRandomString rand n))"
proof -
  have "length possibleCharacters = 62" by code_simp
  then have "possibleCharacters ! (r mod length possibleCharacters) \<in> set possibleCharacters" for r
    by simp
  then have "set (bytes_of (generateRandomString rand n)) \<subseteq> of_char ` set possibleCharacters"
    by (auto simp: bytes_of_def generateRandomString_def)
  then show ?thesis using possibleCharacters_plain by fastforce
qed

section \<open>The echo\<close>

definition echoOutputs :: "Frame \<Rightarrow> server_output list" where
  "echoOutputs f = [SsDataReceived (fr_socketAddress f) (fr_data f), SsSocket (OpWrite (serializeData (buildFrame f)))]"

text \<open>The server can answer: it has the socket, and its connection is a TCP one.\<close>

definition answerable :: "socket_server \<Rightarrow> Frame \<Rightarrow> bool" where
  "answerable ss f =
     (fr_socketAddress f \<noteq> 0 \<and>
      (\<exists>t. map_of (ss_tunnelProxySockets ss) (fr_socketAddress f) = Some t \<and> ts_socketAddress t = fr_socketAddress f) \<and>
      (\<exists>c. ss_connection ss = Some c \<and> con_type c = ConnectionTypeTcpSocket))"

lemma frame_eta [simp]: "\<lparr>fr_socketAddress = fr_socketAddress f, fr_data = fr_data f\<rparr> = f"
  by simp

lemma frame_echoed:
  assumes "answerable ss (parseFrame f)"
  shows "sa_onFrame E True f ss = ss_emit (echoOutputs (parseFrame f)) ss"
  using assms
  by (auto simp: answerable_def sa_onFrame_def ss_onFrame_def Let_def ss_emit_def sa_onDataReceived_def
      ts_writeData_def ss_send_def con_sendData_def con_slot_defs echoOutputs_def)

lemma frames_echoed:
  "\<forall>f \<in> set fs. answerable ss (parseFrame f) \<Longrightarrow>
     fold (sa_onFrame E True) fs ss = ss_emit (concat (map (\<lambda>f. echoOutputs (parseFrame f)) fs)) ss"
proof (induction fs arbitrary: ss)
  case Nil
  then show ?case by (simp add: ss_emit_def)
next
  case (Cons f fs)
  have "answerable (ss_emit outs ss) g = answerable ss g" for outs g
    by (simp add: answerable_def ss_emit_def)
  with Cons show ?case by (simp add: frame_echoed ss_emit_def)
qed

lemma stream_echoed:
  assumes "ss_state ss = StateRunning" "feed_all recv_loop (ss_dataBuffer ss) cs = (fs, rest)"
    and "\<forall>f \<in> set fs. answerable ss (parseFrame f)"
  shows "ss_outputs (fold (sa_onConnectionDataAvailable E True) cs ss) = ss_outputs ss @
    concat (map (\<lambda>f. echoOutputs (parseFrame f)) fs)"
  using assms
proof (induction cs arbitrary: ss fs)
  case Nil
  then show ?case by simp
next
  case (Cons c cs)
  obtain fs1 rest1 fs2 where r: "recv_loop (ss_dataBuffer ss) c = (fs1, rest1)"
      "feed_all recv_loop rest1 cs = (fs2, rest)" "fs = fs1 @ fs2"
    using Cons.prems(2) by (auto simp: Let_def split: prod.splits)
  define t where "t = sa_onConnectionDataAvailable E True c ss"
  let ?k = "ss\<lparr>ss_keepAliveTimer := timer_start (ss_keepAliveTimer ss)\<rparr>"
  have "\<forall>f \<in> set fs1. answerable ?k (parseFrame f)"
    using Cons.prems(3) r(3) by (auto simp: answerable_def)
  then have t: "t = (ss_emit (concat (map (\<lambda>f. echoOutputs (parseFrame f)) fs1)) ?k)\<lparr>ss_dataBuffer := rest1\<rparr>"
    using Cons.prems(1) r(1) by (simp add: t_def sa_onConnectionDataAvailable_def Let_def frames_echoed)
  have "\<forall>f \<in> set fs2. answerable t (parseFrame f)"
    using Cons.prems(3) r(3) by (auto simp: t answerable_def ss_emit_def)
  from Cons.IH [OF _ _ this] r Cons.prems(1) show ?case
    unfolding fold_simps(2) comp_def t_def [symmetric] by (simp add: t ss_emit_def)
qed

section \<open>Through the proxy and back\<close>

text \<open>What a client sends changes nothing of how the proxy reads the bytes of the server.\<close>

lemma client_chunk_keeps_reader:
  assumes inv: "proxy_inv s" and cc: "map_of (ps_clientObjects s) k = Some cc" "cc_serverConnection cc = Some q"
    and c: "map_of (ps_proxyClients s) q = Some c"
  shows "\<exists>c'. map_of (ps_proxyClients (onClientDataAvailable E k data s)) q = Some c' \<and>
    tc_slipEnabled c' = tc_slipEnabled c \<and> tc_dataBuffer c' = tc_dataBuffer c"
proof -
  obtain x where x: "map_of (ps_proxyClients s) k = Some x" "pc_type x = TypeClient"
    using registry_client_object [OF inv cc(1)] by blast
  let ?x = "client_addRxDataCount (int (length data)) x"
  let ?s = "updClient k (\<lambda>_. ?x) s"
  have "onClientDataAvailable E k data s = tunnelToServer ?x data ?s"
    using x by (simp add: onClientDataAvailable_def Let_def)
  moreover have "\<exists>c'. map_of (ps_proxyClients ?s) q = Some c' \<and>
      tc_slipEnabled c' = tc_slipEnabled c \<and> tc_dataBuffer c' = tc_dataBuffer c"
    using x c by (auto simp: client_addRxDataCount_def addRxDataCount_def Let_def)
  moreover have "\<exists>c'. map_of (ps_proxyClients (tunnelToServer y d t)) q = Some c' \<and>
      tc_slipEnabled c' = tc_slipEnabled b \<and> tc_dataBuffer c' = tc_dataBuffer b"
    if "map_of (ps_proxyClients t) q = Some b" for y d t b
    using that by (auto simp: tunnelToServer_def addThroughput_def client_sendData_def tc_sendData_def
        addTxDataCount_def split: option.split)
  ultimately show ?thesis by fastforce
qed

lemma client_stream_keeps_reader:
  assumes "proxy_inv s" "map_of (ps_clientObjects s) k = Some cc" "cc_serverConnection cc = Some q"
    and "map_of (ps_proxyClients s) q = Some c"
  shows "core (run_events (proxy_step E) s (map (DataAvailable k) ds)) = core s \<and>
    (\<forall>p. interfaceOf (run_events (proxy_step E) s (map (DataAvailable k) ds)) p = interfaceOf s p) \<and>
    (\<exists>c'. map_of (ps_proxyClients (run_events (proxy_step E) s (map (DataAvailable k) ds))) q = Some c' \<and>
       tc_slipEnabled c' = tc_slipEnabled c \<and> tc_dataBuffer c' = tc_dataBuffer c)"
  using assms
proof (induction ds arbitrary: s c)
  case Nil
  then show ?case by simp
next
  case (Cons d ds)
  let ?t = "onClientDataAvailable E k d s"
  note C = client_chunk_delivers [OF Cons.prems(1-3), of E d]
  obtain c' where c': "map_of (ps_proxyClients ?t) q = Some c'"
      "tc_slipEnabled c' = tc_slipEnabled c" "tc_dataBuffer c' = tc_dataBuffer c"
    using client_chunk_keeps_reader [OF Cons.prems, of E d] by blast
  have "map_of (ps_clientObjects ?t) k = Some cc"
    unfolding addressing_core(2) [OF C(2)] by (rule Cons.prems(2))
  from Cons.IH [OF proxy_inv_same [OF C(2) Cons.prems(1)] this Cons.prems(3) c'(1)] show ?case
    unfolding list.map run_events.simps proxy_step.simps C(2) C(3) c'(2,3) .
qed

definition writes :: "server_output list \<Rightarrow> bytes list" where
  "writes outs = concat (map (\<lambda>out. case out of SsSocket (OpWrite d) \<Rightarrow> [d] | _ \<Rightarrow> []) outs)"

lemma writes_echo: "writes (concat (map echoOutputs fs)) = map (\<lambda>f. serializeData (buildFrame f)) fs"
  by (induction fs) (simp_all add: writes_def echoOutputs_def)



end
