(* ===== verification/MonitorUi.thy ===== *)
theory MonitorUi
  imports Applications
begin

text \<open>
  What the monitor shows: \<open>monitor/utils.h\<close>, \<open>monitor/noninteractivemonitor.{h,cpp}\<close>,
  \<open>monitor/monitor.{h,cpp}\<close> and \<open>monitor/terminalwindow.{h,cpp}\<close>. The printed lines and the calls
  of ncurses are lists of values; what Qt makes of dates and numbers is the parameter \<open>texts\<close>. (The
  values shown are taken to have no place markers of \<open>QString::arg\<close> in them.) The
  lemmas show that the tree of servers and clients has one row for each of them.
\<close>

section \<open>Texts\<close>

text \<open>
  \<^item> \<open>tx_dateTime\<close>: \<open>QDateTime::fromMSecsSinceEpoch(ms).toString(''dd.MM.yyyy hh:mm:ss'')\<close>;
  \<^item> \<open>tx_number\<close>: \<open>QString::number\<close>;
  \<^item> \<open>tx_fixed2\<close>: the quotient of two integers with two digits, \<open>setNum(x, 'f', 2)\<close>;
  \<^item> \<open>tx_toLongLong\<close>, \<open>tx_toULongLong\<close>: the conversions of \<open>QVariant\<close>.
\<close>

record texts =
  tx_dateTime :: "int \<Rightarrow> string"
  tx_number :: "int \<Rightarrow> string"
  tx_fixed2 :: "int \<Rightarrow> int \<Rightarrow> string"
  tx_toLongLong :: "variant \<Rightarrow> int"
  tx_toULongLong :: "variant \<Rightarrow> quint64"

definition twoDigits :: "nat \<Rightarrow> string" where
  "twoDigits n = [char_of (48 + n div 10 mod 10), char_of (48 + n mod 10)]"

definition getDurationString :: "quint32 \<Rightarrow> quint32 \<Rightarrow> string" where
  "getDurationString now timestamp =
     (case getDuration now timestamp of
        (hours, minutes, seconds) \<Rightarrow>
          twoDigits hours @ '':'' @ twoDigits minutes @ '':'' @ twoDigits seconds)"

text \<open>The loop over the units; a double divided by 1024 stays exact, so it is a quotient.\<close>

fun trafficUnit :: "int \<Rightarrow> int \<Rightarrow> string \<Rightarrow> string list \<Rightarrow> int \<times> string" where
  "trafficUnit bytes divisor unit [] = (divisor, unit)"
| "trafficUnit bytes divisor unit (u # us) =
     (if 1024 * divisor \<le> bytes then trafficUnit bytes (1024 * divisor) u us else (divisor, unit))"

definition humanReadableTraffic :: "texts \<Rightarrow> int \<Rightarrow> string" where
  "humanReadableTraffic T bytes =
     (case trafficUnit bytes 1 ''B'' [''KB'', ''MB'', ''GB'', ''TB''] of
        (divisor, unit) \<Rightarrow> tx_fixed2 T bytes divisor @ '' '' @ unit)"

text \<open>\<open>arg(text, -n)\<close>: at least \<open>n\<close> characters, on the left.\<close>

definition padRight :: "nat \<Rightarrow> string \<Rightarrow> string" where
  "padRight n s = s @ replicate (n - length s) (CHR '' '')"

fun dropSpaces :: "string \<Rightarrow> string" where
  "dropSpaces [] = []"
| "dropSpaces (c # cs) = (if c \<in> set [CHR '' '', CHR 0x09, CHR 0x0A, CHR 0x0B, CHR 0x0C, CHR 0x0D] then dropSpaces cs else c # cs)"

definition trimmed :: "string \<Rightarrow> string" where
  "trimmed s = rev (dropSpaces (rev (dropSpaces s)))"

text \<open>\<open>value(key, default)\<close>.\<close>

definition vvalueOr :: "vmap \<Rightarrow> string \<Rightarrow> variant \<Rightarrow> variant" where
  "vvalueOr m k dflt = (case map_of m k of None \<Rightarrow> dflt | Some v \<Rightarrow> v)"

section \<open>The non interactive monitor\<close>

text \<open>The branches drawn before a line: a server without or with clients, a client that is not or is
  the last one.\<close>

datatype branch = BranchServer | BranchServerWithClients | BranchClient | BranchLastClient

datatype monitor_line =
    PlainLine string
  | TreeLine branch string

definition separator :: monitor_line where
  "separator = PlainLine (replicate 69 (CHR ''-''))"

definition serverLine :: "env \<Rightarrow> texts \<Rightarrow> vmap \<Rightarrow> monitor_line" where
  "serverLine E T server =
     TreeLine (if vtoList (vvalue server ''clientConnections'') = [] then BranchServer else BranchServerWithClients)
       (tx_dateTime T (tx_toLongLong T (vvalue server ''timestamp'') * 1000) @ '' | '' @
        vtoString E (vvalue server ''serverUuid'') @ '' | '' @
        padRight 15 (vtoString E (vvalue server ''address'')) @ '' RX: '' @
        padRight 9 (humanReadableTraffic T (vtoInt0 E (vvalue server ''rxDataCount''))) @ '' TX: '' @
        padRight 9 (humanReadableTraffic T (vtoInt0 E (vvalue server ''txDataCount''))) @ '' | '' @
        vtoString E (vvalue server ''name''))"

text \<open>The counters of the line of a client are read from the map of its server.\<close>

definition clientLine :: "env \<Rightarrow> texts \<Rightarrow> vmap \<Rightarrow> bool \<Rightarrow> vmap \<Rightarrow> monitor_line" where
  "clientLine E T server isLast client =
     TreeLine (if isLast then BranchLastClient else BranchClient)
       (tx_dateTime T (tx_toLongLong T (vvalue client ''timestamp'') * 1000) @ '' | '' @
        vtoString E (vvalue client ''clientUuid'') @ '' | '' @
        padRight 15 (vtoString E (vvalue client ''address'')) @ '' RX: '' @
        padRight 9 (humanReadableTraffic T (vtoInt0 E (vvalue server ''rxDataCount''))) @ '' TX: '' @
        padRight 9 (humanReadableTraffic T (vtoInt0 E (vvalue server ''txDataCount''))) @ '' | '' @
        padRight 30 (vtoString E (vvalue client ''name'')))"

fun clientLines :: "env \<Rightarrow> texts \<Rightarrow> vmap \<Rightarrow> variant list \<Rightarrow> monitor_line list" where
  "clientLines E T server [] = []"
| "clientLines E T server (c # cs) = clientLine E T server (cs = []) (vtoMap c) # clientLines E T server cs"

definition serverLines :: "env \<Rightarrow> texts \<Rightarrow> variant \<Rightarrow> monitor_line list" where
  "serverLines E T v =
     (let server = vtoMap v
      in serverLine E T server # clientLines E T server (vtoList (vvalue server ''clientConnections'')))"

text \<open>The slot for \<open>dataReady\<close>; after it the program ends with code 0.\<close>

definition printData :: "env \<Rightarrow> texts \<Rightarrow> vmap \<Rightarrow> monitor_line list" where
  "printData E T dataMap =
     (let proxy = vtoMap (vvalue dataMap ''tunnelProxyStatistic'');
          transports = vtoMap (vvalue proxy ''transports'')
      in [separator,
          PlainLine (''Server name:'' @ vtoString E (vvalueOr dataMap ''serverName'' (VString ''-''))),
          PlainLine (''Server version:'' @ vtoString E (vvalueOr dataMap ''serverVersion'' (VString ''-''))),
          PlainLine (''API version:'' @ vtoString E (vvalueOr dataMap ''apiVersion'' (VString ''-''))),
          PlainLine (''Total client count:'' @ tx_number T (vtoInt0 E (vvalue proxy ''totalClientCount''))),
          PlainLine (''Server connections:'' @ tx_number T (vtoInt0 E (vvalue proxy ''serverConnectionsCount''))),
          PlainLine (''Client connections:'' @ tx_number T (vtoInt0 E (vvalue proxy ''clientConnectionsCount''))),
          PlainLine (''Data troughput:'' @ humanReadableTraffic T (vtoInt0 E (vvalue proxy ''troughput'')) @ '' / s''),
          separator] @
         map (\<lambda>t. PlainLine (''Connections on '' @ t @ '': '' @ tx_number T (vtoInt0 E (vvalue transports t))))
           (qkeys transports) @
         [separator] @
         concat (map (serverLines E T) (vtoList (vvalue proxy ''tunnelConnections''))))"

definition newNonInteractiveMonitor :: "string \<Rightarrow> bool \<Rightarrow> bool \<Rightarrow> monitor_client \<times> monitor_output list" where
  "newNonInteractiveMonitor serverName jsonMode printAll =
     (let mc = setPrintAll printAll (newMonitorClient serverName jsonMode) in (mc, connectMonitor mc))"

section \<open>The terminal window\<close>

datatype window = MainWindow | HeaderWindow | ContentWindow

datatype line_char = AcsLTee | AcsHLine | AcsTTee | AcsVLine | AcsLLCorner

text \<open>The calls of ncurses; rows and columns as they are passed.\<close>

datatype draw_op =
    DrawText window int int string
  | DrawChar int int line_char
  | Erase window
  | Resize window int int
  | WRefresh window
  | Scroll int
  | EndWindow

datatype view = ViewTunnelProxy

datatype key = KeyLeft | KeyRight | KeyUp | KeyDown | KeyEsc | KeyOther

record terminal_window =
  tw_headerHeight :: int
  tw_terminalSizeX :: int
  tw_terminalSizeY :: int
  tw_view :: view
  tw_tabs :: "view list"
  tw_dataMap :: vmap
  tw_clientHash :: "(string, vmap) qhash"

definition resizeWindow :: "int \<Rightarrow> int \<Rightarrow> terminal_window \<Rightarrow> terminal_window \<times> draw_op list" where
  "resizeWindow sizeY sizeX tw =
     (if tw_terminalSizeX tw \<noteq> sizeX \<or> tw_terminalSizeY tw \<noteq> sizeY
      then (tw\<lparr>tw_terminalSizeX := sizeX, tw_terminalSizeY := sizeY\<rparr>,
            [Resize HeaderWindow (tw_headerHeight tw) sizeX,
             Resize ContentWindow (sizeY - tw_headerHeight tw) sizeX])
      else (tw, []))"

text \<open>\<open>y\<close> and \<open>x\<close> are the size of the window.\<close>

definition drawWindowBorder :: "window \<Rightarrow> int \<Rightarrow> int \<Rightarrow> draw_op list" where
  "drawWindowBorder w y x =
     [DrawText w 0 0 ''+'', DrawText w (y - 1) 0 ''+'', DrawText w 0 (x - 1) ''+'', DrawText w (y - 1) (x - 1) ''+''] @
     concat (map (\<lambda>i. [DrawText w i 0 ''|'', DrawText w i (x - 1) ''|'']) [1..y - 2]) @
     concat (map (\<lambda>i. [DrawText w 0 i ''-'', DrawText w (y - 1) i ''-'']) [1..x - 2])"

fun indexIn :: "'a list \<Rightarrow> 'a \<Rightarrow> int" where
  "indexIn [] v = -1"
| "indexIn (x # xs) v = (if x = v then 0 else (let i = indexIn xs v in if i < 0 then -1 else i + 1))"

definition moveTabRight :: "terminal_window \<Rightarrow> terminal_window" where
  "moveTabRight tw =
     (let currentIndex = indexIn (tw_tabs tw) (tw_view tw)
      in if int (length (tw_tabs tw)) \<le> currentIndex + 1
         then tw\<lparr>tw_view := tw_tabs tw ! 0\<rparr>
         else tw\<lparr>tw_view := tw_tabs tw ! nat (currentIndex + 1)\<rparr>)"

definition moveTabLeft :: "terminal_window \<Rightarrow> terminal_window" where
  "moveTabLeft tw =
     (let currentIndex = indexIn (tw_tabs tw) (tw_view tw)
      in if currentIndex - 1 < 0
         then tw\<lparr>tw_view := tw_tabs tw ! (length (tw_tabs tw) - 1)\<rparr>
         else tw\<lparr>tw_view := tw_tabs tw ! nat (currentIndex - 1)\<rparr>)"

definition paintHeader :: "env \<Rightarrow> texts \<Rightarrow> terminal_window \<Rightarrow> draw_op list" where
  "paintHeader E T tw =
     (let proxy = vtoMap (vvalue (tw_dataMap tw) ''tunnelProxyStatistic'');
          header =
            (case tw_view tw of
               ViewTunnelProxy \<Rightarrow>
                 '' Server: '' @ vtoString E (vvalueOr (tw_dataMap tw) ''serverName'' (VString ''-'')) @
                 '' ('' @ vtoString E (vvalueOr (tw_dataMap tw) ''serverVersion'' (VString ''-'')) @
                 '') | API: '' @ vtoString E (vvalueOr (tw_dataMap tw) ''apiVersion'' (VString ''-'')) @
                 '' | Total: '' @ tx_number T (vtoInt0 E (vvalue proxy ''totalClientCount'')) @
                 '' | Servers: '' @ tx_number T (vtoInt0 E (vvalue proxy ''serverConnectionsCount'')) @
                 '' | Clients: '' @ tx_number T (vtoInt0 E (vvalue proxy ''clientConnectionsCount'')) @
                 '' | '' @ padRight 13 (humanReadableTraffic T (vtoInt0 E (vvalue proxy ''troughput'')) @ '' / s'') @
                 '' | '' @ ''-- TunnelProxy --'')
      in [DrawText HeaderWindow 1 2 (padRight (nat (tw_terminalSizeX tw)) header)])"

text \<open>A \<open>uint\<close> times 1000 is a \<open>uint\<close>: the product wraps at 32 bits.\<close>

definition wrappedDateTime :: "texts \<Rightarrow> quint32 \<Rightarrow> string" where
  "wrappedDateTime T timeStamp = tx_dateTime T (uint (timeStamp * 1000))"

definition traffic :: "env \<Rightarrow> texts \<Rightarrow> vmap \<Rightarrow> string \<Rightarrow> string" where
  "traffic E T m k = padRight 10 (humanReadableTraffic T (vtoInt0 E (vvalue m k)))"

definition paintServer :: "env \<Rightarrow> texts \<Rightarrow> int \<Rightarrow> vmap \<Rightarrow> draw_op list" where
  "paintServer E T i server =
     [DrawChar i 2 AcsLTee, DrawChar i 3 AcsHLine,
      DrawChar i 4 (if vtoList (vvalue server ''clientConnections'') = [] then AcsHLine else AcsTTee),
      DrawChar i 5 AcsHLine,
      DrawText ContentWindow i 6 (trimmed
        (wrappedDateTime T (vtoUInt E (vvalue server ''timestamp'')) @ '' | '' @
         padRight 16 (vtoString E (vvalue server ''address'')) @ '' | RX: '' @ traffic E T server ''rxDataCount'' @
         '' | TX: '' @ traffic E T server ''txDataCount'' @ '' | '' @
         padRight 30 (vtoString E (vvalue server ''name''))))]"

definition paintClient :: "env \<Rightarrow> texts \<Rightarrow> int \<Rightarrow> bool \<Rightarrow> vmap \<Rightarrow> draw_op list" where
  "paintClient E T i isLast client =
     [DrawChar i 2 AcsVLine, DrawChar i 4 (if isLast then AcsLLCorner else AcsLTee), DrawChar i 5 AcsHLine,
      DrawText ContentWindow i 6 (trimmed
        (tx_dateTime T (sint (tx_toULongLong T (vvalue client ''timestamp'') * 1000)) @ '' | '' @
         padRight 16 (vtoString E (vvalue client ''address'')) @ '' | RX: '' @ traffic E T client ''rxDataCount'' @
         '' | TX: '' @ traffic E T client ''txDataCount'' @ '' | '' @
         padRight 30 (vtoString E (vvalue client ''name''))))]"

fun paintClients :: "env \<Rightarrow> texts \<Rightarrow> int \<Rightarrow> variant list \<Rightarrow> draw_op list" where
  "paintClients E T i [] = []"
| "paintClients E T i (c # cs) = paintClient E T i (cs = []) (vtoMap c) @ paintClients E T (i + 1) cs"

fun paintServers :: "env \<Rightarrow> texts \<Rightarrow> int \<Rightarrow> variant list \<Rightarrow> draw_op list" where
  "paintServers E T i [] = []"
| "paintServers E T i (v # vs) =
     (let server = vtoMap v;
          clients = vtoList (vvalue server ''clientConnections'')
      in paintServer E T i server @ paintClients E T (i + 1) clients @
         paintServers E T (i + 1 + int (length clients)) vs)"

definition paintContentTunnelProxy :: "env \<Rightarrow> texts \<Rightarrow> terminal_window \<Rightarrow> draw_op list" where
  "paintContentTunnelProxy E T tw =
     paintServers E T 1 (vtoList (vvalue (vtoMap (vvalue (tw_dataMap tw) ''tunnelProxyStatistic'')) ''tunnelConnections''))"

text \<open>Two painters that nothing calls.\<close>

definition paintContentClient :: "env \<Rightarrow> texts \<Rightarrow> int \<Rightarrow> vmap \<Rightarrow> draw_op" where
  "paintContentClient E T i client = DrawText ContentWindow i 2 (trimmed
     (wrappedDateTime T (vtoUInt E (vvalue client ''timestamp'')) @ '' | '' @
      vtoString E (vvalue client ''duration'') @ '' | '' @ padRight 16 (vtoString E (vvalue client ''address'')) @
      '' | RX: '' @ traffic E T client ''rxDataCount'' @ '' | TX: '' @ traffic E T client ''txDataCount'' @
      '' | '' @ (if vtoBool E (vvalue client ''authenticated'') then ''A'' else ''-'') @
      '' | '' @ (if vtoBool E (vvalue client ''tunnelConnected'') then ''T'' else ''-'') @
      '' | '' @ padRight 30 (vtoString E (vvalue client ''name''))))"

definition paintContentClients :: "env \<Rightarrow> texts \<Rightarrow> terminal_window \<Rightarrow> draw_op list" where
  "paintContentClients E T tw =
     map (\<lambda>(i, client). paintContentClient E T i client)
       (zip [1..int (length (tw_clientHash tw))] (qvalues (tw_clientHash tw)))"

definition clientOf :: "env \<Rightarrow> terminal_window \<Rightarrow> vmap \<Rightarrow> string \<Rightarrow> vmap" where
  "clientOf E tw tunnel k =
     (case map_of (tw_clientHash tw) (vtoString E (vvalue tunnel k)) of None \<Rightarrow> [] | Some m \<Rightarrow> m)"

definition paintContentTunnel :: "env \<Rightarrow> texts \<Rightarrow> quint32 \<Rightarrow> terminal_window \<Rightarrow> int \<Rightarrow> vmap \<Rightarrow> draw_op" where
  "paintContentTunnel E T now tw i tunnel =
     (let clientOne = clientOf E tw tunnel ''clientOne''; clientTwo = clientOf E tw tunnel ''clientTwo'';
          timeStamp = vtoUInt E (vvalue tunnel ''timestamp'')
      in DrawText ContentWindow i 2
           (wrappedDateTime T timeStamp @ '' | '' @ getDurationString now timeStamp @ '' | '' @
            padRight 10 (humanReadableTraffic T (sint (word_of_int (vtoInt0 E (vvalue clientOne ''rxDataCount'') +
              vtoInt0 E (vvalue clientOne ''txDataCount'')) :: 32 word))) @ '' | '' @
            vtoString E (vvalue clientOne ''userName'') @ '' | '' @
            vtoString E (vvalue clientOne ''name'') @ '' ('' @ vtoString E (vvalue clientOne ''address'') @
            '') <---> '' @ vtoString E (vvalue clientTwo ''name'') @ '' ('' @
            vtoString E (vvalue clientTwo ''address'') @ '')''))"

definition paintContentTunnels :: "env \<Rightarrow> texts \<Rightarrow> quint32 \<Rightarrow> terminal_window \<Rightarrow> draw_op list" where
  "paintContentTunnels E T now tw =
     (let tunnels = vtoList (vvalue (vtoMap (vvalue (tw_dataMap tw) ''proxyStatistic'')) ''tunnels'')
      in map (\<lambda>(i, v). paintContentTunnel E T now tw i (vtoMap v)) (zip [1..int (length tunnels)] tunnels))"

text \<open>The slot for the data; the statistics have no entry \<open>proxyStatistic\<close>, so the hash stays empty.\<close>

definition refreshWindow :: "env \<Rightarrow> quint32 \<Rightarrow> vmap \<Rightarrow> terminal_window \<Rightarrow> terminal_window" where
  "refreshWindow E now dataMap tw =
     tw\<lparr>tw_dataMap := dataMap,
        tw_clientHash := fold (\<lambda>v h.
          (let client = qinsert ''duration''
                 (VString (getDurationString now (vtoUInt E (vvalue (vtoMap v) ''timestamp'')))) (vtoMap v)
           in qinsert (vtoString E (vvalue client ''id'')) client h))
          (vtoList (vvalue (vtoMap (vvalue dataMap ''proxyStatistic'')) ''clients'')) []\<rparr>"

definition tw_cleanup :: "draw_op list" where
  "tw_cleanup = [Erase MainWindow, EndWindow]"

text \<open>One round of the event loop with the size of the terminal and the key that was pressed; the flag
  tells that the program ends. Otherwise a timer starts the next round after 100 ms.\<close>

definition tw_eventLoop ::
  "env \<Rightarrow> texts \<Rightarrow> int \<Rightarrow> int \<Rightarrow> key \<Rightarrow> terminal_window \<Rightarrow> terminal_window \<times> draw_op list \<times> bool" where
  "tw_eventLoop E T sizeY sizeX pressed tw =
     (let (tw, ops) = resizeWindow sizeY sizeX tw;
          ops = [Erase HeaderWindow, Erase ContentWindow] @ ops
      in if pressed = KeyEsc then (tw, ops @ tw_cleanup, True)
         else
           (let tw = (case pressed of KeyLeft \<Rightarrow> moveTabLeft tw | KeyRight \<Rightarrow> moveTabRight tw | _ \<Rightarrow> tw);
                content = (case tw_view tw of ViewTunnelProxy \<Rightarrow> paintContentTunnelProxy E T tw);
                scrolled = (case pressed of KeyDown \<Rightarrow> [Scroll 1, Scroll 1] | KeyUp \<Rightarrow> [Scroll 1, Scroll (-1)] | _ \<Rightarrow> [])
            in (tw, ops @ paintHeader E T tw @ content @ scrolled @
                  drawWindowBorder HeaderWindow (tw_headerHeight tw) (tw_terminalSizeX tw) @
                  [WRefresh HeaderWindow, WRefresh ContentWindow, WRefresh MainWindow], False)))"

text \<open>The constructor, which ends with the first round of the event loop.\<close>

definition newTerminalWindow ::
  "env \<Rightarrow> texts \<Rightarrow> int \<Rightarrow> int \<Rightarrow> key \<Rightarrow> terminal_window \<times> draw_op list \<times> bool" where
  "newTerminalWindow E T sizeY sizeX pressed =
     (let tw = \<lparr>tw_headerHeight = 3, tw_terminalSizeX = sizeX, tw_terminalSizeY = sizeY,
                tw_view = ViewTunnelProxy, tw_tabs = [ViewTunnelProxy], tw_dataMap = [], tw_clientHash = []\<rparr>;
          ops = [Erase MainWindow, WRefresh MainWindow, Erase HeaderWindow, Erase ContentWindow] @
            drawWindowBorder HeaderWindow (tw_headerHeight tw) sizeX @
            [WRefresh HeaderWindow, WRefresh ContentWindow, WRefresh MainWindow];
          (tw, ops', ends) = tw_eventLoop E T sizeY sizeX pressed tw
      in (tw, ops @ ops', ends))"

section \<open>The interactive monitor\<close>

record monitor =
  mo_client :: monitor_client
  mo_terminal :: "terminal_window option"
  mo_timer :: qtimer

definition newMonitor :: "string \<Rightarrow> bool \<Rightarrow> monitor \<times> monitor_output list" where
  "newMonitor serverName jsonMode =
     (\<lparr>mo_client = newMonitorClient serverName jsonMode, mo_terminal = None,
       mo_timer = \<lparr>tm_interval = 1000, tm_singleShot = False, tm_active = False\<rparr>\<rparr>,
      connectMonitor (newMonitorClient serverName jsonMode))"

text \<open>\<open>refresh()\<close> is the function of ncurses: no request is sent before the timer fires.\<close>

definition mo_onConnected ::
  "env \<Rightarrow> texts \<Rightarrow> int \<Rightarrow> int \<Rightarrow> key \<Rightarrow> monitor \<Rightarrow> monitor \<times> draw_op list \<times> bool" where
  "mo_onConnected E T sizeY sizeX pressed m =
     (let (terminal, ops, ends) =
        (if mc_jsonMode (mo_client m) then (mo_terminal m, [], False)
         else (case newTerminalWindow E T sizeY sizeX pressed of (tw, ops, ends) \<Rightarrow> (Some tw, ops, ends)))
      in if ends then (m\<lparr>mo_terminal := terminal\<rparr>, ops, True)
         else (m\<lparr>mo_terminal := terminal, mo_timer := timer_start (mo_timer m)\<rparr>, ops @ [WRefresh MainWindow], False))"

text \<open>The flag tells that the program ends with code 0.\<close>

definition mo_onDisconnected :: "monitor \<Rightarrow> monitor \<times> draw_op list \<times> bool" where
  "mo_onDisconnected m =
     (let m = m\<lparr>mo_timer := timer_stop (mo_timer m)\<rparr>
      in case mo_terminal m of
           None \<Rightarrow> (m, [], False)
         | Some tw \<Rightarrow> (m\<lparr>mo_terminal := None\<rparr>, tw_cleanup, True))"

definition mo_onTimeout :: "env \<Rightarrow> bool \<Rightarrow> monitor \<Rightarrow> bytes list" where
  "mo_onTimeout E connected m = (if tm_active (mo_timer m) then mc_refresh E connected (mo_client m) else [])"

definition mo_onDataReady :: "env \<Rightarrow> quint32 \<Rightarrow> vmap \<Rightarrow> monitor \<Rightarrow> monitor" where
  "mo_onDataReady E now dataMap m = m\<lparr>mo_terminal := map_option (refreshWindow E now dataMap) (mo_terminal m)\<rparr>"

section \<open>Rows\<close>

text \<open>The rows in which a text begins.\<close>

fun textRow :: "draw_op \<Rightarrow> int list" where
  "textRow (DrawText w y x t) = [y]"
| "textRow _ = []"

lemma paintServer_rows: "concat (map textRow (paintServer E T i server)) = [i]"
  by (simp add: paintServer_def)

lemma paintClients_rows:
  "concat (map textRow (paintClients E T i cs)) = [i..i + int (length cs) - 1]"
proof (induction cs arbitrary: i)
  case (Cons c cs)
  have "[i..i + int (length (c # cs)) - 1] = i # [i + 1..i + 1 + int (length cs) - 1]"
    by (subst upto.simps) simp
  with Cons [of "i + 1"] show ?case by (simp add: paintClient_def)
qed simp

definition treeSize :: "variant list \<Rightarrow> int" where
  "treeSize vs = (\<Sum>v\<leftarrow>vs. 1 + int (length (vtoList (vvalue (vtoMap v) ''clientConnections''))))"

text \<open>Servers and clients are painted in successive rows: no two texts share one.\<close>

lemma paintServers_rows:
  "concat (map textRow (paintServers E T i vs)) = [i..i + treeSize vs - 1]"
proof (induction vs arbitrary: i)
  case (Cons v vs)
  let ?n = "int (length (vtoList (vvalue (vtoMap v) ''clientConnections'')))"
  have "0 \<le> treeSize vs" by (induction vs) (simp_all add: treeSize_def)
  then have "[i..i + treeSize (v # vs) - 1] = [i..i + ?n] @ [i + 1 + ?n..i + 1 + ?n + treeSize vs - 1]"
    by (subst upto_split2 [of i "i + ?n"]) (auto simp: treeSize_def algebra_simps)
  moreover have "[i..i + ?n] = i # [i + 1..i + ?n]" by (subst upto.simps) simp
  ultimately show ?case
    using Cons [of "i + 1 + ?n"] paintClients_rows [of E T "i + 1"] paintServer_rows [of E T i]
    by (simp add: Let_def add.assoc)
qed (simp add: treeSize_def)

section \<open>Times\<close>

text \<open>The time shown for a server is less than 50 days after the epoch, whenever it connected.\<close>

lemma wrapped_time_bound: "uint ((timeStamp :: quint32) * 1000) < 50 * 24 * 60 * 60 * 1000"
proof -
  have "uint (timeStamp * 1000) < 2 ^ 32" using uint_lt2p [of "timeStamp * 1000"] by simp
  then show ?thesis by simp
qed

text \<open>It is the right one only for times before the 19th of February 1970.\<close>

lemma wrapped_time_iff: "uint ((timeStamp :: quint32) * 1000) = uint timeStamp * 1000 \<longleftrightarrow> uint timeStamp < 4294968"
proof -
  have "uint (timeStamp * 1000) = uint timeStamp * 1000 mod 2 ^ 32"
    by (simp add: uint_word_ariths)
  then show ?thesis
    using uint_ge_0 [of timeStamp] by (auto simp: mod_pos_pos_trivial dest: mod_eq_self_iff_div_eq_0 [THEN iffD1])
qed

end
