(* ===== verification/Process.thy ===== *)
theory Process
  imports EngineProperties
begin

text \<open>
  The programs around the components: the log lines of the server and of the tunnel client
  (\<open>server/main.cpp\<close>, \<open>tunnelclient/main.cpp\<close>), the logging categories and their filter, the
  single engine object (\<open>Engine::instance\<close>, \<open>destroy\<close>, \<open>exists\<close>) and the signals that end the
  server (\<open>server/remoteproxyserverapplication.cpp\<close>). The lemmas say that a quit signal closes every
  socket of the server and leaves no engine, and which messages the tunnel client prints.
\<close>

section \<open>Log lines\<close>

datatype QtMsgType = QtDebugMsg | QtWarningMsg | QtCriticalMsg | QtFatalMsg | QtInfoMsg

definition normalColor :: string where "normalColor = CHR 0x1B # ''[0m''"
definition warningColor :: string where "warningColor = CHR 0x1B # ''[33m''"
definition errorColor :: string where "errorColor = CHR 0x1B # ''[31m''"

text \<open>The line on the console, and the line in the log file.\<close>

fun consoleLine :: "QtMsgType \<Rightarrow> string \<Rightarrow> string \<Rightarrow> string" where
  "consoleLine QtInfoMsg category message = '' I | '' @ category @ '': '' @ message @ [CHR 0x0A]"
| "consoleLine QtDebugMsg category message = '' I | '' @ category @ '': '' @ message @ [CHR 0x0A]"
| "consoleLine QtWarningMsg category message =
     warningColor @ '' W | '' @ category @ '': '' @ message @ normalColor @ [CHR 0x0A]"
| "consoleLine QtCriticalMsg category message =
     errorColor @ '' C | '' @ category @ '': '' @ message @ normalColor @ [CHR 0x0A]"
| "consoleLine QtFatalMsg category message =
     errorColor @ '' F | '' @ category @ '': '' @ message @ normalColor @ [CHR 0x0A]"

fun severity :: "QtMsgType \<Rightarrow> char" where
  "severity QtInfoMsg = CHR ''I''"
| "severity QtDebugMsg = CHR ''I''"
| "severity QtWarningMsg = CHR ''W''"
| "severity QtCriticalMsg = CHR ''C''"
| "severity QtFatalMsg = CHR ''F''"

definition messageString :: "string \<Rightarrow> QtMsgType \<Rightarrow> string \<Rightarrow> string \<Rightarrow> string" where
  "messageString timeString type category message =
     '' '' @ [severity type] @ '' '' @ timeString @ '' | '' @ category @ '': '' @ message"

definition consoleLogHandler ::
  "bool \<Rightarrow> string \<Rightarrow> QtMsgType \<Rightarrow> string \<Rightarrow> string \<Rightarrow> string \<times> string option" where
  "consoleLogHandler logFileOpen timeString type category message =
     (consoleLine type category message,
      if logFileOpen then Some (messageString timeString type category message @ [CHR 0x0A]) else None)"

section \<open>What the tunnel client prints\<close>

fun tunnelLogHandler :: "QtMsgType \<Rightarrow> string \<Rightarrow> string \<Rightarrow> string" where
  "tunnelLogHandler QtInfoMsg category message =
     (if category = ''default'' then message @ [CHR 0x0A] else category @ '': '' @ message @ [CHR 0x0A])"
| "tunnelLogHandler QtDebugMsg category message =
     (if category = ''default'' then message @ [CHR 0x0A] else category @ '': '' @ message @ [CHR 0x0A])"
| "tunnelLogHandler QtWarningMsg category message =
     warningColor @ category @ '': '' @ message @ normalColor @ [CHR 0x0A]"
| "tunnelLogHandler QtCriticalMsg category message =
     errorColor @ category @ '': '' @ message @ normalColor @ [CHR 0x0A]"
| "tunnelLogHandler QtFatalMsg category message =
     errorColor @ category @ '': '' @ message @ normalColor @ [CHR 0x0A]"

type_synonym filters = "(string, bool) qhash"

record category_levels =
  cl_debug :: bool
  cl_warning :: bool

definition filterValue :: "filters \<Rightarrow> string \<Rightarrow> bool" where
  "filterValue filters name = (case qvalue filters name of None \<Rightarrow> False | Some b \<Rightarrow> b)"

definition loggingCategoryFilter :: "filters \<Rightarrow> string \<Rightarrow> category_levels" where
  "loggingCategoryFilter filters category =
     (if qcontains filters category then
        (let debugEnabled = filterValue filters category
         in \<lparr>cl_debug = debugEnabled, cl_warning = debugEnabled \<or> filterValue filters ''Warnings''\<rparr>)
      else \<lparr>cl_debug = True, cl_warning = filterValue filters ''qml'' \<or> filterValue filters ''Warnings''\<rparr>)"

definition defaultFilters :: filters where
  "defaultFilters = fold (\<lambda>name. qinsert name False)
     [''RemoteProxyClientJsonRpc'', ''RemoteProxyClientJsonRpcTraffic'', ''RemoteProxyClientWebSocket'',
      ''RemoteProxyClientTcpSocket'', ''RemoteProxyClientConnection'', ''RemoteProxyClientConnectionTraffic'',
      ''TunnelProxySocketServer'', ''TunnelProxySocketServerTraffic'', ''TunnelProxyRemoteConnection''] []"

definition verboseFilters :: "bool \<Rightarrow> bool \<Rightarrow> filters \<Rightarrow> filters" where
  "verboseFilters verbose veryVerbose filters =
     (let filters =
        (if verbose \<or> veryVerbose
         then fold (\<lambda>name. qinsert name True)
                [''default'', ''TunnelProxySocketServer'', ''TunnelProxyRemoteConnection''] filters
         else filters)
      in if veryVerbose
         then fold (\<lambda>name. qinsert name True)
                [''RemoteProxyClientJsonRpc'', ''RemoteProxyClientJsonRpcTraffic'', ''RemoteProxyClientWebSocket'',
                 ''RemoteProxyClientTcpSocket'', ''RemoteProxyClientConnection'',
                 ''RemoteProxyClientConnectionTraffic'', ''TunnelProxySocketServerTraffic''] filters
         else filters)"

text \<open>The categories of the client library, \<open>Q_LOGGING_CATEGORY\<close> in its files.\<close>

definition clientCategories :: "string list" where
  "clientCategories =
     [''RemoteProxyClientJsonRpc'', ''RemoteProxyClientJsonRpcTraffic'', ''RemoteProxyClientWebSocket'',
      ''RemoteProxyClientTcpSocket'', ''TunnelProxySocketServer'', ''TunnelProxySocketServerTraffic'',
      ''TunnelProxyRemoteConnection'']"

text \<open>Without an option the library prints neither debug messages nor warnings; when very verbose, both;
  and its warnings never come without its debug messages.\<close>

lemma quiet_library:
  "category \<in> set clientCategories \<Longrightarrow>
     loggingCategoryFilter (verboseFilters False False defaultFilters) category =
     \<lparr>cl_debug = False, cl_warning = False\<rparr>"
proof -
  have "list_all (\<lambda>c. loggingCategoryFilter (verboseFilters False False defaultFilters) c =
      \<lparr>cl_debug = False, cl_warning = False\<rparr>) clientCategories" by code_simp
  then show "category \<in> set clientCategories \<Longrightarrow> ?thesis" by (simp add: list_all_iff)
qed

lemma very_verbose_library:
  "category \<in> set clientCategories \<Longrightarrow>
     loggingCategoryFilter (verboseFilters v True defaultFilters) category = \<lparr>cl_debug = True, cl_warning = True\<rparr>"
proof -
  have "list_all (\<lambda>c. loggingCategoryFilter (verboseFilters False True defaultFilters) c =
      \<lparr>cl_debug = True, cl_warning = True\<rparr>) clientCategories" by code_simp
  moreover have "verboseFilters v True = verboseFilters False True" by (simp add: verboseFilters_def fun_eq_iff)
  ultimately show "category \<in> set clientCategories \<Longrightarrow> ?thesis" by (simp add: list_all_iff)
qed

text \<open>A category that is not in the table, that of the program itself among them, prints its debug
  messages, but its warnings only when the table says so.\<close>

lemma quiet_program:
  "loggingCategoryFilter (verboseFilters False False defaultFilters) ''default'' =
     \<lparr>cl_debug = True, cl_warning = False\<rparr>"
  by code_simp

section \<open>The engine object\<close>

text \<open>\<open>pr_engine\<close> is \<open>Engine::s_instance\<close>, \<open>pr_quit\<close> says that the event loop was told to quit.\<close>

record process =
  pr_engine :: "engine option"
  pr_quit :: bool

definition newProcess :: process where
  "newProcess = \<lparr>pr_engine = None, pr_quit = False\<rparr>"

definition engine_instance :: "int \<Rightarrow> int \<Rightarrow> process \<Rightarrow> engine \<times> process" where
  "engine_instance now day p =
     (case pr_engine p of
        Some e \<Rightarrow> (e, p)
      | None \<Rightarrow> (let e = newEngine now day in (e, p\<lparr>pr_engine := Some e\<rparr>)))"

definition engine_exists :: "process \<Rightarrow> bool" where
  "engine_exists p = (pr_engine p \<noteq> None)"

text \<open>The destructor of the engine stops it.\<close>

definition engine_destroy :: "process \<Rightarrow> process \<times> socket_op list" where
  "engine_destroy p =
     (case pr_engine p of
        None \<Rightarrow> (p, [])
      | Some e \<Rightarrow> (p\<lparr>pr_engine := None\<rparr>, snd (eng_stop e)))"

definition process_start :: "listeners \<Rightarrow> int \<Rightarrow> int \<Rightarrow> proxy_configuration \<Rightarrow> process \<Rightarrow> process \<times> socket_op list" where
  "process_start L now day c p =
     (let (e, p) = engine_instance now day p;
          (e, ops) = eng_start L c e
      in (p\<lparr>pr_engine := Some e\<rparr>, ops))"

datatype unix_signal = SIGQUIT | SIGINT | SIGTERM | SIGHUP | OtherSignal

definition quitSignals :: "unix_signal list" where
  "quitSignals = [SIGQUIT, SIGINT, SIGTERM, SIGHUP]"

text \<open>The handler that \<open>catchUnixSignals\<close> installs for these signals.\<close>

definition onUnixSignal :: "int \<Rightarrow> int \<Rightarrow> unix_signal \<Rightarrow> process \<Rightarrow> process \<times> socket_op list" where
  "onUnixSignal now day sig p =
     (if sig \<in> set quitSignals then
        (let (_, p) = engine_instance now day p;
             (p, ops) = engine_destroy p
         in (p\<lparr>pr_quit := True\<rparr>, ops))
      else (p, []))"

text \<open>A signal that quits closes every socket of the running server, and no other, and leaves no engine.\<close>

lemma quit_signal_closes_all:
  assumes "sig \<in> set quitSignals" "pr_engine p = Some e" "eng_tunnelProxyServer e = Some s"
    and "ps_transportInterfaces s = [TransportWebSocket, TransportTcp, TransportUnix]"
    and "eng_tcpSocketServer e = Some t" "tableOk (tcp_clientList t)" "eng_running e = tm_active (eng_timer e)"
  shows "closes (snd (onUnixSignal now day sig p)) = connectedSockets e \<and>
    \<not> engine_exists (fst (onUnixSignal now day sig p)) \<and> pr_quit (fst (onUnixSignal now day sig p))"
proof -
  obtain e' ops where stop: "eng_stop e = (e', ops)" by fastforce
  from eng_stop_all [OF assms(3-7) stop] assms(1,2) stop show ?thesis
    by (simp add: onUnixSignal_def engine_instance_def engine_destroy_def engine_exists_def)
qed

text \<open>Before the engine was started, or after it was destroyed, a signal closes nothing: the engine
  that the handler makes is empty.\<close>

lemma quit_signal_without_engine:
  assumes "\<not> engine_exists p"
  shows "snd (onUnixSignal now day sig p) = [] \<and> \<not> engine_exists (fst (onUnixSignal now day sig p))"
  using assms
  by (auto simp: onUnixSignal_def engine_instance_def engine_destroy_def engine_exists_def newEngine_def
      eng_stop_def eng_clean_def eng_setRunning_def Let_def)

end
