(* ===== verification/Closing.thy ===== *)
theory Closing
  imports TunnelProxy
begin

text \<open>
  A socket that the proxy closes reports it later, when data is still to be written, or at once,
  within the call of \<open>close()\<close>; then \<open>onClientDisconnected\<close> runs before the handler that closed
  it goes on. \<open>proxy_step\<close> is the first case. Here is the second: \<open>closes\<close> tells of each
  connection whether its socket reports at once. Within a handler the disconnection follows the
  packet that caused it; all calls of \<open>killConnection\<close> are the last thing that the code does for a
  packet, but in two places: in the loop over the clients of a server the order of these
  disconnections makes no difference (\<open>dropClients_at_once\<close>), and \<open>DisconnectClient\<close> is answered after the
  notification instead of before it. The lemmas show that the tables stay consistent, and
  that only then a refused request is the last one of a chunk.
\<close>

section \<open>Disconnections within a handler\<close>

text \<open>The connections closed since \<open>ps_effects\<close> had \<open>n\<close> elements, and those that report at once.\<close>

definition killed :: "nat \<Rightarrow> proxy_server \<Rightarrow> uuid list" where
  "killed n s = map effect_target (filter is_kill (drop n (ps_effects s)))"

definition reporting :: "(uuid \<Rightarrow> bool) \<Rightarrow> nat \<Rightarrow> proxy_server \<Rightarrow> uuid list" where
  "reporting closes n s = filter (\<lambda>k. closes k \<and> qcontains (ps_proxyClients s) k) (killed n s)"

lemma length_clients_sendData [simp]:
  "length (ps_proxyClients (client_sendData k d s)) = length (ps_proxyClients s)"
  by (auto simp: client_sendData_def updClient_def qadjust_def length_qinsert split: option.split prod.split)

lemma length_clients_notification [simp]:
  "length (ps_proxyClients (sendNotification E n m ps k s)) = length (ps_proxyClients s)"
  by (simp add: sendNotification_def sendJson_def Let_def split: option.split)

lemma length_clients_disconnected:
  assumes "qcontains (ps_proxyClients s) k"
  shows "length (ps_proxyClients (onClientDisconnected E k s)) < length (ps_proxyClients s)"
proof -
  obtain c where c: "map_of (ps_proxyClients s) k = Some c"
    using assms by (auto simp: qcontains_conv)
  have server: "length (ps_proxyClients (disconnectServerConnection x t)) = length (ps_proxyClients t)" for x t
    by (simp add: disconnectServerConnection_def Let_def split: option.split)
  have client: "length (ps_proxyClients (disconnectClientConnection E x t)) = length (ps_proxyClients t)" for x t
    by (simp add: disconnectClientConnection_def Let_def split_beta split: option.split)
  have "length (qremove k (ps_proxyClients s)) < length (ps_proxyClients s)"
    using map_of_SomeD [OF c] by (auto simp: AList.delete_eq intro: length_filter_less)
  with c show ?thesis
    by (simp add: onClientDisconnected_def Let_def server client)
qed

function settle :: "env \<Rightarrow> (uuid \<Rightarrow> bool) \<Rightarrow> nat \<Rightarrow> proxy_server \<Rightarrow> proxy_server" where
  "settle E closes n s =
     (case reporting closes n s of
        [] \<Rightarrow> s
      | k # _ \<Rightarrow> settle E closes n (onClientDisconnected E k s))"
  by pat_completeness auto
termination
proof (relation "measure (\<lambda>(E, closes, n, s). length (ps_proxyClients s))")
  fix E closes n s k ks
  assume "reporting closes n s = k # ks"
  then have "k \<in> set (reporting closes n s)" by simp
  then show "((E, closes, n, onClientDisconnected E k s), E, closes, n, s)
      \<in> measure (\<lambda>(E, closes, n, s). length (ps_proxyClients s))"
    using length_clients_disconnected by (simp add: reporting_def)
qed simp

declare settle.simps [simp del]

section \<open>The handlers\<close>

fun processPackets_now :: "env \<Rightarrow> (uuid \<Rightarrow> bool) \<Rightarrow> uuid \<Rightarrow> bytes list \<Rightarrow> proxy_server \<Rightarrow> proxy_server" where
  "processPackets_now E closes clientId [] s = s"
| "processPackets_now E closes clientId (p # ps) s =
     processPackets_now E closes clientId ps
       (settle E closes (length (ps_effects s)) (processDataPacket E clientId p s))"

definition rpc_processData_now :: "env \<Rightarrow> (uuid \<Rightarrow> bool) \<Rightarrow> uuid \<Rightarrow> bytes \<Rightarrow> proxy_server \<Rightarrow> proxy_server" where
  "rpc_processData_now E closes clientId data s =
     (if clientId \<notin> set (rpc_clients s) then s
      else
        (case map_of (ps_proxyClients s) clientId of
           None \<Rightarrow> s
         | Some c \<Rightarrow>
             (let (packets, c') = processData data c;
                  s = updClient clientId (\<lambda>_. c') s
              in if maxBufferSize < bufferSize c'
                 then settle E closes (length (ps_effects s))
                        (client_killConnection clientId ''Data buffer size violation.'' s)
                 else processPackets_now E closes clientId packets s)))"

fun processFrames_now ::
  "env \<Rightarrow> (uuid \<Rightarrow> bool) \<Rightarrow> uuid \<Rightarrow> uuid \<Rightarrow> bytes list \<Rightarrow> proxy_server \<Rightarrow> proxy_server" where
  "processFrames_now E closes clientId uuid [] s = s"
| "processFrames_now E closes clientId uuid (f # fs) s =
     processFrames_now E closes clientId uuid fs
       (settle E closes (length (ps_effects s)) (processFrame E clientId uuid f s))"

definition onClientDataAvailable_now ::
  "env \<Rightarrow> (uuid \<Rightarrow> bool) \<Rightarrow> uuid \<Rightarrow> bytes \<Rightarrow> proxy_server \<Rightarrow> proxy_server" where
  "onClientDataAvailable_now E closes clientId data s =
     (case map_of (ps_proxyClients s) clientId of
        None \<Rightarrow> s
      | Some c \<Rightarrow>
          (let client = client_addRxDataCount (int (length data)) c;
               s = updClient clientId (\<lambda>_. client) s
           in if pc_type client = TypeClient then tunnelToServer client data s
              else if pc_type client = TypeServer then
                (if tc_slipEnabled client then
                   (let (frames, client') = processData data client
                    in processFrames_now E closes clientId (tc_uuid client') frames
                         (updClient clientId (\<lambda>_. client') s))
                 else rpc_processData_now E closes clientId data s)
              else rpc_processData_now E closes clientId data s))"

definition now_step :: "env \<Rightarrow> (uuid \<Rightarrow> bool) \<Rightarrow> proxy_server \<Rightarrow> proxy_event \<Rightarrow> proxy_server" where
  "now_step E closes s e =
     (case e of
        DataAvailable clientId data \<Rightarrow> onClientDataAvailable_now E closes clientId data s
      | _ \<Rightarrow> settle E closes (length (ps_effects s)) (proxy_step E s e))"

section \<open>No socket reports at once\<close>

text \<open>Then the machine is \<open>proxy_step\<close>.\<close>

lemma settle_later [simp]: "settle E (\<lambda>_. False) n s = s"
  by (subst settle.simps) (simp add: reporting_def)

lemma packets_later: "processPackets_now E (\<lambda>_. False) k ps s = processPackets E k ps s"
  by (induction E k ps s rule: processPackets.induct) simp_all

lemma frames_later: "processFrames_now E (\<lambda>_. False) k u fs s = processFrames E k u fs s"
  by (induction E k u fs s rule: processFrames.induct) simp_all

lemma now_step_later: "now_step E (\<lambda>_. False) s e = proxy_step E s e"
  unfolding now_step_def onClientDataAvailable_now_def rpc_processData_now_def packets_later frames_later settle_later
  by (cases e) (simp_all only: proxy_event.case proxy_step.simps onClientDataAvailable_def rpc_processData_def)

section \<open>Consistency\<close>

lemma proxy_inv_settle: "proxy_inv s \<Longrightarrow> proxy_inv (settle E closes n s)"
proof (induction E closes n s rule: settle.induct)
  case (1 E closes n s)
  then show ?case
    by (subst settle.simps) (auto split: list.split intro: proxy_inv_onClientDisconnected)
qed

lemma proxy_inv_packets_now: "proxy_inv s \<Longrightarrow> proxy_inv (processPackets_now E closes k ps s)"
  by (induction E closes k ps s rule: processPackets_now.induct)
    (auto intro: proxy_inv_settle proxy_inv_processDataPacket)

lemma proxy_inv_frames_now: "proxy_inv s \<Longrightarrow> proxy_inv (processFrames_now E closes k u fs s)"
  by (induction E closes k u fs s rule: processFrames_now.induct)
    (auto intro: proxy_inv_settle proxy_inv_processFrame)

lemma proxy_inv_rpc_now:
  assumes "proxy_inv s"
  shows "proxy_inv (rpc_processData_now E closes k data s)"
proof (cases "map_of (ps_proxyClients s) k")
  case None
  with assms show ?thesis by (simp add: rpc_processData_now_def)
next
  case (Some c)
  have "proxy_inv (updClient k (\<lambda>_. snd (processData data c)) s)"
    by (rule proxy_inv_updClient [OF assms Some clientCore_processData])
  with Some assms show ?thesis
    by (auto simp: rpc_processData_now_def Let_def split_beta
        intro: proxy_inv_packets_now proxy_inv_settle proxy_inv_same [OF core_kill])
qed

lemma proxy_inv_data_now:
  assumes "proxy_inv s"
  shows "proxy_inv (onClientDataAvailable_now E closes k data s)"
proof (cases "map_of (ps_proxyClients s) k")
  case None
  with assms show ?thesis by (simp add: onClientDataAvailable_now_def)
next
  case (Some c)
  let ?c = "client_addRxDataCount (int (length data)) c"
  let ?s = "updClient k (\<lambda>_. ?c) s"
  have inv: "proxy_inv ?s"
    by (rule proxy_inv_updClient [OF assms Some clientCore_addRx])
  moreover have "proxy_inv (updClient k (\<lambda>_. snd (processData data ?c)) ?s)"
    by (rule proxy_inv_updClient [OF inv, of _ ?c]) (simp_all add: Some)
  ultimately show ?thesis
    using Some
    by (auto simp: onClientDataAvailable_now_def Let_def split_beta intro: proxy_inv_rpc_now
        proxy_inv_frames_now proxy_inv_same [OF core_tunnelToServer])
qed

interpretation closing_machine: event_machine "now_step E closes" "newTunnelProxyServer configuration" proxy_inv
  for E closes configuration
proof
  show "proxy_inv (newTunnelProxyServer configuration)" by (rule proxy_inv_start)
  show "proxy_inv (now_step E closes s e)" if "proxy_inv s" for s e
    using that by (cases e) (simp_all only: now_step_def proxy_event.case proxy_inv_data_now
        proxy_inv_settle proxy_inv_step)
qed

text \<open>C18: The tables of the proxy stay consistent whichever sockets report at once that they were
  closed, within the handler that closes them, and whichever report it later.\<close>

theorem consistent_whenever_closed:
  "proxy_inv (run_events (now_step E closes) (newTunnelProxyServer cfg) es)"
  by (rule closing_machine.run_inv)

section \<open>The packets after a refused one\<close>

text \<open>A connection that is gone has nothing done for it.\<close>

lemma gone_json:
  "map_of (ps_proxyClients s) k = None \<Longrightarrow> sendJson k d s = s"
  "map_of (ps_proxyClients s) k = None \<Longrightarrow> client_killConnection k r s = s"
  by (simp_all add: sendJson_def client_killConnection_def)

lemma gone_refused: "map_of (ps_proxyClients s) k = None \<Longrightarrow> refuse E k i e r s = s"
  by (simp add: refuse_def sendErrorResponse_def gone_json)

lemma gone_invoke:
  assumes "map_of (ps_proxyClients s) k = None"
  shows "snd (invokeMethod E h m params k s) = s"
    and "fst (invokeMethod E h m params k s) = Some r \<Longrightarrow> rep_type r = TypeSync"
  using assms
  by (auto simp: invokeMethod_def RegisterServer_def RegisterClient_def DisconnectClient_def Ping_def Hello_def
      Introspect_def registerServer_def registerClient_def disconnectClient_def createReply_def Let_def
      split: prod.splits if_splits)

lemma gone_answer:
  assumes "map_of (ps_proxyClients s) k = None" "\<And>r. reply = Some r \<Longrightarrow> rep_type r = TypeSync"
  shows "answer E reply k i s = s"
  using assms by (auto simp: answer_def sendResponse_def afterResponse_def gone_json split: option.split)

lemma gone_packet:
  assumes "map_of (ps_proxyClients s) k = None"
  shows "processDataPacket E k p s = s"
proof -
  have "processMethod E k i h m params s = s" for i h m params
  proof -
    obtain reply t where inv: "invokeMethod E h m params k s = (reply, t)" by fastforce
    then have "t = s" "\<And>r. reply = Some r \<Longrightarrow> rep_type r = TypeSync"
      using gone_invoke [OF assms, of E h m params] by auto
    with assms inv show ?thesis
      by (simp add: processMethod_def gone_refused gone_answer split: prod.split bool.split)
  qed
  with assms show ?thesis
    by (simp add: processDataPacket_def processMessage_def gone_refused split: sum.split option.split list.split)
qed

lemma gone_packets: "map_of (ps_proxyClients s) k = None \<Longrightarrow> processPackets_now E closes k ps s = s"
proof (induction ps)
  case (Cons p ps)
  have "settle E closes (length (ps_effects s)) s = s"
    by (subst settle.simps) (simp add: reporting_def killed_def)
  with Cons show ?case by (simp add: gone_packet)
qed simp

text \<open>What was handed to the transports is never taken back.\<close>

definition grows :: "proxy_server \<Rightarrow> proxy_server \<Rightarrow> bool" where
  "grows s t = (\<exists>es. ps_effects t = ps_effects s @ es)"

lemma grows_trans: "grows s t \<Longrightarrow> grows t u \<Longrightarrow> grows s u"
  by (auto simp: grows_def)

lemma grows_effects: "grows s t \<Longrightarrow> ps_effects s = ps_effects r \<Longrightarrow> grows r t"
  by (simp add: grows_def)

lemma grows_send: "grows s (client_sendData k d s)" "grows s (client_killConnection k r s)"
  by (simp_all add: grows_def client_sendData_def client_killConnection_def split_beta split: option.split)

lemma grows_notification: "grows s (sendNotification E n m ps k s)"
  by (auto simp: sendNotification_def sendJson_def Let_def grows_def intro: grows_effects [OF grows_send(1), unfolded grows_def]
      split: option.split)

lemma grows_frame [simp]:
  "grows (s\<lparr>ps_proxyClients := pc\<rparr>) t = grows s t" "grows s (t\<lparr>ps_proxyClients := pc\<rparr>) = grows s t"
  "grows (s\<lparr>ps_serverConnections := x\<rparr>) t = grows s t" "grows s (t\<lparr>ps_serverConnections := x\<rparr>) = grows s t"
  "grows (s\<lparr>ps_clientConnections := x\<rparr>) t = grows s t" "grows s (t\<lparr>ps_clientConnections := x\<rparr>) = grows s t"
  "grows (s\<lparr>ps_serverObjects := so\<rparr>) t = grows s t" "grows s (t\<lparr>ps_serverObjects := so\<rparr>) = grows s t"
  "grows (s\<lparr>ps_clientObjects := co\<rparr>) t = grows s t" "grows s (t\<lparr>ps_clientObjects := co\<rparr>) = grows s t"
  "grows s (rpc_unregisterClient k t) = grows s t"
  by (auto simp: grows_def rpc_unregisterClient_def Let_def split: option.split)

lemma grows_refl [simp]: "grows s s"
  by (simp add: grows_def)

lemma grows_dropClients: "grows s (dropClients q ps s)"
proof (induction ps arbitrary: s)
  case (Cons p ps)
  show ?case
  proof (cases "map_of (ps_serverObjects s) q")
    case (Some sc)
    show ?thesis
    proof (cases "map_of (ps_clientObjects s) p")
      case (Some cc)
      obtain sc' cc' where u: "unregisterClientConnection sc cc = (sc', cc')" by fastforce
      let ?s = "s\<lparr>ps_serverObjects := qinsert q sc' (ps_serverObjects s), ps_clientObjects := qinsert p cc' (ps_clientObjects s)\<rparr>"
      have "grows s ?s" by (simp add: grows_def)
      from grows_trans [OF grows_trans [OF this grows_send(2)] Cons.IH] show ?thesis
        using \<open>map_of (ps_serverObjects s) q = Some sc\<close> Some u by simp
    qed (simp add: Cons.IH split: option.split)
  qed (simp add: Cons.IH)
qed simp

lemma grows_disconnectServer: "grows s (disconnectServerConnection c s)"
proof (cases "serverConnectionOf s (tc_uuid c)")
  case (Some x)
  have "grows s (dropClients q ps (s\<lparr>ps_serverConnections := sc\<rparr>))" for q ps sc
    using grows_dropClients [of "s\<lparr>ps_serverConnections := sc\<rparr>" q ps] by simp
  with Some show ?thesis by (simp add: disconnectServerConnection_def Let_def split_beta)
qed (simp add: disconnectServerConnection_def)

lemma grows_disconnectClient: "grows s (disconnectClientConnection E c s)"
proof -
  have "grows s (sendNotification E n m ps k (s\<lparr>ps_clientConnections := cn, ps_serverObjects := so, ps_clientObjects := co\<rparr>))"
    for n m ps k cn so co
    using grows_notification [of "s\<lparr>ps_clientConnections := cn, ps_serverObjects := so, ps_clientObjects := co\<rparr>" E n m ps k]
    by simp
  then show ?thesis
    by (simp add: disconnectClientConnection_def Let_def split_beta split: option.split)
qed

lemma grows_disconnected: "grows s (onClientDisconnected E k s)"
proof (cases "map_of (ps_proxyClients s) k")
  case (Some c)
  let ?s = "s\<lparr>ps_proxyClients := qremove k (ps_proxyClients s)\<rparr>"
  have "grows s (disconnectServerConnection c ?s)" "grows s (disconnectClientConnection E c ?s)"
    using grows_disconnectServer [of ?s c] grows_disconnectClient [of ?s E c] by simp_all
  with Some show ?thesis
    by (cases "pc_type c") (simp_all add: onClientDisconnected_def Let_def)
qed (simp add: onClientDisconnected_def)

lemma killed_grows: "k \<in> set (killed n s) \<Longrightarrow> grows s t \<Longrightarrow> k \<in> set (killed n t)"
  by (auto simp: killed_def grows_def)

text \<open>When a handler has settled, no connection that it closed and that reports at once is left.\<close>

lemma settle_gone:
  "k \<in> set (killed n s) \<Longrightarrow> closes k \<Longrightarrow> map_of (ps_proxyClients (settle E closes n s)) k = None"
proof (induction E closes n s rule: settle.induct)
  case (1 E closes n s)
  show ?case
  proof (cases "reporting closes n s")
    case Nil
    with "1.prems" have "\<not> qcontains (ps_proxyClients s) k" by (auto simp: reporting_def filter_empty_conv)
    with Nil show ?thesis by (subst settle.simps) (simp add: qcontains_def)
  next
    case (Cons j ks)
    with "1.IH" [OF Cons killed_grows [OF "1.prems"(1) grows_disconnected] "1.prems"(2)] show ?thesis
      by (subst settle.simps) simp
  qed
qed

text \<open>C19: A packet that makes the proxy close its connection is the last one of its chunk, if the
  socket reports at once: whatever follows it changes nothing and is not answered.\<close>

theorem closed_connection_is_deaf:
  assumes "closes k" "KillClientConnection i k r \<in> set (drop (length (ps_effects s)) (ps_effects (processDataPacket E k p s)))"
  shows "processPackets_now E closes k (p # ps) s = processPackets_now E closes k [p] s"
proof -
  let ?t = "processDataPacket E k p s"
  have "k \<in> set (killed (length (ps_effects s)) ?t)"
    using assms(2) by (force simp: killed_def)
  from settle_gone [of k _ _ closes, OF this assms(1)] show ?thesis
    by (simp add: gone_packets)
qed

theorem closed_connection_is_deaf_witness:
  "processPackets_now demo_env (\<lambda>_. True) 10 [[123, 4, 125], [123, 1, 125]] (demo demo_connect) =
     processPackets_now demo_env (\<lambda>_. True) 10 [[123, 4, 125]] (demo demo_connect)"
proof -
  have "drop (length (ps_effects (demo demo_connect)))
      (ps_effects (processDataPacket demo_env 10 [123, 4, 125] (demo demo_connect))) =
      [SendData TransportTcp 10 [123, 125, 10], KillClientConnection TransportTcp 10 ''No such method.'']"
    by code_simp
  then show ?thesis
    by (intro closed_connection_is_deaf [where i = TransportTcp and r = "''No such method.''"]) simp_all
qed

text \<open>A socket that reports later is not deaf: the same chunk, a call of a method that does not exist
  and the registration of a server, registers the server after its connection was closed.\<close>

lemma late_connection_is_heard:
  "ps_serverConnections (processPackets demo_env 10 [[123, 4, 125], [123, 1, 125]] (demo demo_connect)) = [(100, 10)]"
  "ps_serverConnections (processPackets_now demo_env (\<lambda>_. True) 10 [[123, 4, 125], [123, 1, 125]] (demo demo_connect)) = []"
  by code_simp+

section \<open>The loop over the clients of a server\<close>

text \<open>\<open>dropClients\<close> where the sockets that report at once do so within the loop.\<close>

fun dropClients_now :: "env \<Rightarrow> (uuid \<Rightarrow> bool) \<Rightarrow> uuid \<Rightarrow> uuid list \<Rightarrow> proxy_server \<Rightarrow> proxy_server" where
  "dropClients_now E closes server [] s = s"
| "dropClients_now E closes server (pointer # pointers) s =
     (case (map_of (ps_serverObjects s) server, map_of (ps_clientObjects s) pointer) of
        (Some sc, Some cc) \<Rightarrow>
          (let (sc', cc') = unregisterClientConnection sc cc;
               s = s\<lparr>ps_serverObjects := qinsert server sc' (ps_serverObjects s),
                     ps_clientObjects := qinsert pointer cc' (ps_clientObjects s)\<rparr>;
               s = client_killConnection (cc_transportClient cc') ''Server disconnected'' s
           in dropClients_now E closes server pointers
                (if closes (cc_transportClient cc') then onClientDisconnected E (cc_transportClient cc') s else s))
      | _ \<Rightarrow> dropClients_now E closes server pointers s)"

text \<open>A client that has lost its server leaves without a notification.\<close>

definition leave :: "uuid \<Rightarrow> uuid \<Rightarrow> proxy_server \<Rightarrow> proxy_server" where
  "leave p u s = rpc_unregisterClient p
     (s\<lparr>ps_proxyClients := qremove p (ps_proxyClients s), ps_clientConnections := qremove u (ps_clientConnections s),
        ps_clientObjects := qremove p (ps_clientObjects s)\<rparr>)"

definition alone :: "uuid \<Rightarrow> uuid \<Rightarrow> proxy_server \<Rightarrow> bool" where
  "alone p u s =
     ((\<exists>c. map_of (ps_proxyClients s) p = Some c \<and> pc_type c = TypeClient \<and> tc_uuid c = u) \<and>
      map_of (ps_clientConnections s) u = Some p \<and>
      (\<exists>cc. map_of (ps_clientObjects s) p = Some cc \<and> cc_serverConnection cc = None))"

lemma alone_leaves: "alone p u s \<Longrightarrow> onClientDisconnected E p s = leave p u s"
  by (auto simp: alone_def leave_def onClientDisconnected_def disconnectClientConnection_def clientConnectionOf_def
      Let_def)

lemma leave_fields [simp]:
  "ps_serverObjects (leave p u s) = ps_serverObjects s"
  "ps_clientObjects (leave p u s) = qremove p (ps_clientObjects s)"
  "ps_proxyClients (leave p u s) = qremove p (ps_proxyClients s)"
  "ps_clientConnections (leave p u s) = qremove u (ps_clientConnections s)"
  by (simp_all add: leave_def)

lemma leave_kill: "r \<noteq> p \<Longrightarrow> leave p u (client_killConnection r x s) = client_killConnection r x (leave p u s)"
  by (cases "map_of (ps_proxyClients s) r"; cases "p \<in> set (rpc_clients s)"; cases "qkey (rpc_asyncReplies s) p")
    (simp_all add: leave_def rpc_unregisterClient_def client_killConnection_def emit_def)

lemma leave_update:
  "r \<noteq> p \<Longrightarrow> leave p u (s\<lparr>ps_serverObjects := so, ps_clientObjects := qinsert r cc (ps_clientObjects s)\<rparr>) =
     (leave p u s)\<lparr>ps_serverObjects := so, ps_clientObjects := qinsert r cc (ps_clientObjects (leave p u s))\<rparr>"
  by (cases "p \<in> set (rpc_clients s)"; cases "qkey (rpc_asyncReplies s) p")
    (simp_all add: leave_def rpc_unregisterClient_def AList.delete_update)

lemma leave_drops:
  assumes "r \<noteq> p" "\<And>cc. map_of (ps_clientObjects s) r = Some cc \<Longrightarrow> cc_transportClient cc = r"
  shows "leave p u (dropClients q [r] s) = dropClients q [r] (leave p u s)"
proof (cases "map_of (ps_serverObjects s) q")
  case (Some sc)
  show ?thesis
  proof (cases "map_of (ps_clientObjects s) r")
    case (Some cc)
    obtain sc' cc' where u: "unregisterClientConnection sc cc = (sc', cc')" by fastforce
    then have "cc_transportClient cc' = r"
      using assms(2) [OF Some] by (auto simp: unregisterClientConnection_def connection_defs)
    then show ?thesis
      using \<open>map_of (ps_serverObjects s) q = Some sc\<close> Some u assms(1)
      by (simp add: leave_kill leave_update)
  next
    case None
    with assms(1) show ?thesis by (cases "map_of (ps_serverObjects s) q") simp_all
  qed
qed simp

lemma dropClients_Cons: "dropClients q (r # ps) s = dropClients q ps (dropClients q [r] s)"
  by (simp split: option.split prod.split)

lemma dropClients_transport:
  "map_of (ps_clientObjects (dropClients q [r] s)) x = Some cc \<Longrightarrow>
     \<exists>cc0. map_of (ps_clientObjects s) x = Some cc0 \<and> cc_transportClient cc = cc_transportClient cc0"
  by (auto simp: unregisterClientConnection_def connection_defs split: option.splits if_splits)

lemma leave_dropClients:
  assumes "p \<notin> set ps" "\<And>r cc. r \<in> set ps \<Longrightarrow> map_of (ps_clientObjects s) r = Some cc \<Longrightarrow> cc_transportClient cc = r"
  shows "leave p u (dropClients q ps s) = dropClients q ps (leave p u s)"
  using assms
proof (induction ps arbitrary: s)
  case (Cons r ps)
  have one: "leave p u (dropClients q [r] s) = dropClients q [r] (leave p u s)"
    using Cons.prems by (intro leave_drops) auto
  have "leave p u (dropClients q ps (dropClients q [r] s)) = dropClients q ps (leave p u (dropClients q [r] s))"
  proof (rule Cons.IH)
    show "cc_transportClient cc = x" if "x \<in> set ps" "map_of (ps_clientObjects (dropClients q [r] s)) x = Some cc" for x cc
      using dropClients_transport [OF that(2)] Cons.prems(2) [of x] that(1) by auto
  qed (use Cons.prems(1) in simp)
  then show ?case
    unfolding dropClients_Cons [of q r ps] one .
qed simp

definition tunnelled :: "uuid \<Rightarrow> uuid \<Rightarrow> proxy_server \<Rightarrow> bool" where
  "tunnelled p u s =
     ((\<exists>c. map_of (ps_proxyClients s) p = Some c \<and> pc_type c = TypeClient \<and> tc_uuid c = u) \<and>
      map_of (ps_clientConnections s) u = Some p \<and>
      (\<exists>cc. map_of (ps_clientObjects s) p = Some cc \<and> cc_transportClient cc = p))"

lemma dropClients_at_once:
  assumes "map_of (ps_serverObjects s) q \<noteq> None" "distinct ps" "\<forall>p \<in> set ps. \<exists>u. tunnelled p u s"
  shows "dropClients_now E closes q ps s = fold (onClientDisconnected E) (filter closes ps) (dropClients q ps s)"
  using assms
proof (induction ps arbitrary: s)
  case (Cons p ps)
  define s1 where "s1 = dropClients q [p] s"
  obtain sc where q: "map_of (ps_serverObjects s) q = Some sc" using Cons.prems(1) by blast
  obtain u cc where u: "tunnelled p u s" "map_of (ps_clientObjects s) p = Some cc" "cc_transportClient cc = p"
    using Cons.prems(3) by (auto simp: tunnelled_def)
  have q1: "map_of (ps_serverObjects s1) q \<noteq> None"
    using q by (simp add: s1_def split: option.split prod.split)
  have objects: "map_of (ps_clientObjects s1) r =
      (if r = p then map_option detached (map_of (ps_clientObjects s) r) else map_of (ps_clientObjects s) r)" for r
    unfolding s1_def using dropClients_objects(1) [OF q, of "[p]" r] by simp
  have frame: "ps_proxyClients s1 = ps_proxyClients s" "ps_clientConnections s1 = ps_clientConnections s"
    unfolding s1_def by (rule dropClients_frame)+
  have now: "dropClients_now E closes q (p # ps) s =
      dropClients_now E closes q ps (if closes p then onClientDisconnected E p s1 else s1)"
    using q u(2,3) by (simp add: s1_def unregisterClientConnection_def connection_defs)
  have others: "\<exists>v. tunnelled r v s1 \<and> tunnelled r v (leave p u s1)" if here: "r \<in> set ps" for r
  proof -
    have r: "r \<noteq> p" using here Cons.prems(2) by auto
    obtain v where v: "tunnelled r v s" using here Cons.prems(3) by (meson list.set_intros(2))
    then have "v \<noteq> u" using u(1) r by (auto simp: tunnelled_def)
    with v r show ?thesis by (auto simp: tunnelled_def frame objects intro!: exI [of _ v])
  qed
  have alone: "alone p u (dropClients q [] s1)" "alone p u (dropClients q ps s1)"
    using u Cons.prems(2) q1 dropClients_objects(1) [of s1 q _ ps p]
    by (auto simp: alone_def tunnelled_def frame objects connection_defs)
  have "leave p u (dropClients q ps s1) = dropClients q ps (leave p u s1)"
  proof (rule leave_dropClients)
    show "cc_transportClient cc = r" if "r \<in> set ps" "map_of (ps_clientObjects s1) r = Some cc" for r cc
      using others [OF that(1)] that(2) unfolding tunnelled_def by auto
  qed (use Cons.prems(2) in simp)
  with alone have step: "onClientDisconnected E p (dropClients q ps s1) = dropClients q ps (onClientDisconnected E p s1)"
    using alone_leaves [OF alone(1)] alone_leaves [OF alone(2)] by simp
  have "dropClients_now E closes q ps (if closes p then onClientDisconnected E p s1 else s1) =
      fold (onClientDisconnected E) (filter closes ps)
        (dropClients q ps (if closes p then onClientDisconnected E p s1 else s1))"
    using alone_leaves [OF alone(1)] others q1 Cons.prems(2) by (intro Cons.IH) auto
  then show ?case
    unfolding now dropClients_Cons [of q p ps] s1_def [symmetric] by (simp add: step)
qed simp

lemma clientConnections_tunnelled:
  assumes inv: "proxy_inv s" and q: "map_of (ps_serverObjects s) q = Some sc"
  shows "distinct (clientConnections sc)" "\<forall>p \<in> set (clientConnections sc). p \<noteq> q \<and> (\<exists>u. tunnelled p u s)"
proof -
  note D = registry_inv_D [OF proxy_inv_registry [OF inv]]
  let ?uuid = "\<lambda>p. cc_clientUuid (the (map_of (ps_clientObjects s) p))"
  have qwf: "qwf (sc_clientConnections sc)" by (rule proxy_inv_server(3) [OF inv q])
  have "?uuid p = u" if "(u, p) \<in> set (sc_clientConnections sc)" for u p
    using linksOk_D(2) [OF D(8) q, of u p] that qwf by (auto simp: qwf_map_of_eq)
  then have "map fst (sc_clientConnections sc) = map ?uuid (clientConnections sc)"
    by (force simp: clientConnections_def qvalues_def)
  with qwf show "distinct (clientConnections sc)"
    unfolding qwf_def by (simp add: distinct_map)
  show "\<forall>p \<in> set (clientConnections sc). p \<noteq> q \<and> (\<exists>u. tunnelled p u s)"
  proof
    fix p assume "p \<in> set (clientConnections sc)"
    then obtain cc where cc: "map_of (ps_clientObjects s) p = Some cc"
      using clientConnections_linked [OF inv q] by blast
    obtain x where x: "map_of (ps_proxyClients s) p = Some x" "pc_type x = TypeClient" "cc_transportClient cc = p"
      using registry_client_object [OF inv cc] by blast
    have "p \<noteq> q" using registry_server_object [OF inv q] x by auto
    moreover have "tunnelled p (tc_uuid x) s"
      using x cc client_object(1) [OF inv x(1,2)] by (simp add: tunnelled_def)
    ultimately show "p \<noteq> q \<and> (\<exists>u. tunnelled p u s)" by blast
  qed
qed

text \<open>When a server goes, it makes no difference whether the sockets of its clients report at once
  that they were closed, within the loop that closes them, or after it: the proxy ends in the same
  state and has handed the same to its transports.\<close>

theorem server_loss_at_once:
  assumes "map_of (ps_proxyClients (proxy_run E cfg es)) q = Some c" "map_of (ps_serverObjects (proxy_run E cfg es)) q = Some sc"
  shows "dropClients_now F closes q (clientConnections sc) (serverGone q c (proxy_run E cfg es)) =
    run_events (proxy_step F) (dropClients q (clientConnections sc) (serverGone q c (proxy_run E cfg es)))
      (map ClientDisconnected (filter closes (clientConnections sc)))"
proof -
  have run: "run_events (proxy_step F) s (map ClientDisconnected ps) = fold (onClientDisconnected F) ps s" for s ps
    by (induction ps arbitrary: s) simp_all
  show ?thesis
    unfolding run
  proof (rule dropClients_at_once)
    show "\<forall>p \<in> set (clientConnections sc). \<exists>u. tunnelled p u (serverGone q c (proxy_run E cfg es))"
      using clientConnections_tunnelled(2) [OF run_inv assms(2)] by (auto simp: tunnelled_def)
  qed (simp_all add: assms clientConnections_tunnelled(1) [OF run_inv assms(2)])
qed

theorem server_loss_at_once_witness:
  "\<exists>c. dropClients_now demo_env (\<lambda>_. True) 10 [11] (serverGone 10 c (demo demo_tunnel)) =
     run_events (proxy_step demo_env) (dropClients 10 [11] (serverGone 10 c (demo demo_tunnel))) [ClientDisconnected 11]"
proof -
  obtain c where c: "map_of (ps_proxyClients (demo demo_tunnel)) 10 = Some c"
    using demo_tunnel_facts(3) by auto
  show ?thesis
    using server_loss_at_once [OF c demo_tunnel_facts(2), of demo_env "\<lambda>_. True"]
    by (auto simp: clientConnections_def qvalues_def)
qed

end
