(* ===== verification/Routes.thy ===== *)
theory Routes
  imports LinkProperties
begin

text \<open>
  What the proxy hands to its transports is addressed: every effect goes to the transport that a
  connection came in through, under the id of this connection, and no operation of the proxy changes
  the transport or the id of a connection. The rules of \<open>routing\<close> follow the definitions of the
  operations; the last lemma is the one for the events.
\<close>

section \<open>Addresses of connections\<close>

fun effect_kind :: "effect \<Rightarrow> transport_kind" where
  "effect_kind (SendData i _ _) = i"
| "effect_kind (KillClientConnection i _ _) = i"

definition routeOf :: "proxy_server \<Rightarrow> uuid \<Rightarrow> (transport_kind option \<times> uuid) option" where
  "routeOf s k = map_option (\<lambda>c. (tc_interface c, tc_clientId c)) (map_of (ps_proxyClients s) k)"

definition addressed :: "proxy_server \<Rightarrow> effect \<Rightarrow> bool" where
  "addressed s e = (\<exists>p. routeOf s p = Some (Some (effect_kind e), effect_target e))"

definition routed :: "proxy_server \<Rightarrow> proxy_server \<Rightarrow> bool" where
  "routed s t = (routeOf t = routeOf s \<and> (\<exists>es. ps_effects t = ps_effects s @ es \<and> (\<forall>e \<in> set es. addressed s e)))"

lemma routed_refl: "routed s s"
  by (simp add: routed_def)

lemma routed_same:
  "routed s u \<Longrightarrow> ps_proxyClients t = ps_proxyClients u \<Longrightarrow> ps_effects t = ps_effects u \<Longrightarrow> routed s t"
  by (simp add: routed_def routeOf_def fun_eq_iff)

lemma routed_trans:
  assumes "routed s t" "routed t u"
  shows "routed s u"
proof -
  obtain es fs where "ps_effects t = ps_effects s @ es" "\<forall>e \<in> set es. addressed s e"
      "ps_effects u = (ps_effects s @ es) @ fs" "\<forall>e \<in> set fs. addressed t e"
    using assms unfolding routed_def by (metis (no_types))
  moreover have "addressed t e = addressed s e" for e
    using assms(1) by (simp add: routed_def addressed_def)
  ultimately show ?thesis
    using assms unfolding routed_def by (metis append_assoc set_append Un_iff)
qed

named_theorems routing

text \<open>A change of a client that keeps its transport and its id.\<close>

lemma routed_at [routing]:
  assumes "routed s u"
    and "\<And>c. map_of (ps_proxyClients u) k = Some c \<Longrightarrow> tc_interface (f c) = tc_interface c \<and> tc_clientId (f c) = tc_clientId c"
  shows "routed s (updClient k f u)"
proof -
  have "routeOf (updClient k f u) = routeOf u"
    using assms(2) by (cases "map_of (ps_proxyClients u) k") (auto simp: routeOf_def)
  with assms(1) show ?thesis by (simp add: routed_def)
qed

lemma routed_emit:
  assumes "routed s u" "\<And>e. e \<in> set es \<Longrightarrow> addressed u e"
  shows "routed s (emit es u)"
  using assms by (auto simp: routed_def routeOf_def addressed_def fun_eq_iff)

section \<open>Sending\<close>

lemma routed_send [routing]:
  assumes "routed s u"
  shows "routed s (client_sendData k d u)"
proof (cases "map_of (ps_proxyClients u) k")
  case None
  with assms show ?thesis by (simp add: client_sendData_def)
next
  case (Some c)
  obtain c' es where c': "tc_sendData d c = (c', es)" by fastforce
  then have same: "tc_interface c' = tc_interface c \<and> tc_clientId c' = tc_clientId c"
    by (auto simp: tc_sendData_def addTxDataCount_def split: option.splits)
  have "routed s (updClient k (\<lambda>_. c') u)"
    by (rule routed_at [OF assms]) (simp add: Some same)
  moreover have "addressed (updClient k (\<lambda>_. c') u) e" if "e \<in> set es" for e
    using that c' Some same
    by (auto simp: addressed_def routeOf_def tc_sendData_def addTxDataCount_def split: option.splits intro!: exI [of _ k])
  ultimately show ?thesis
    using Some c' by (simp add: client_sendData_def routed_emit)
qed

lemma routed_kill [routing]:
  assumes "routed s u"
  shows "routed s (client_killConnection k r u)"
proof (cases "map_of (ps_proxyClients u) k")
  case (Some c)
  have "addressed u e" if "e \<in> set (tc_killConnection r c)" for e
    using that Some by (auto simp: addressed_def routeOf_def tc_killConnection_def split: option.splits intro!: exI [of _ k])
  with assms Some show ?thesis by (simp add: client_killConnection_def routed_emit)
qed (simp add: assms client_killConnection_def)

lemma routed_json [routing]: "routed s u \<Longrightarrow> routed s (sendJson k d u)"
  by (simp add: sendJson_def routed_send split: option.split)

lemma routed_response [routing]:
  "routed s u \<Longrightarrow> routed s (sendResponse E k i ps u)"
  "routed s u \<Longrightarrow> routed s (sendErrorResponse E k i msg u)"
  by (simp_all add: sendResponse_def sendErrorResponse_def routed_json)

lemma routed_notification [routing]:
  assumes "routed s u"
  shows "routed s (sendNotification E n m ps k u)"
proof -
  have "routed s (u\<lparr>rpc_notificationId := j\<rparr>)" for j
    by (rule routed_same [OF assms]) simp_all
  then show ?thesis by (simp add: sendNotification_def Let_def routed_json)
qed

lemma routed_refuse [routing]: "routed s u \<Longrightarrow> routed s (refuse E k i msg r u)"
  by (simp add: refuse_def routing)

section \<open>Requests\<close>

lemma routed_after [routing]: "routed s u \<Longrightarrow> routed s (afterResponse k u)"
  by (auto simp: afterResponse_def setSlipEnabled_def intro: routed_kill routed_at split: option.split)

lemma routed_answer [routing]:
  assumes "routed s u"
  shows "routed s (answer E reply k i u)"
proof -
  have "routed s (startAsyncReply r k i u)" for r
    by (rule routed_same [OF assms]) (simp_all add: startAsyncReply_def Let_def)
  with assms show ?thesis by (simp add: answer_def routing split: option.split)
qed

lemma routed_rejected:
  "routed s u \<Longrightarrow> routed s (updClient k (killConnectionAfterResponse r) u)"
  by (rule routed_at) (simp_all add: killConnectionAfterResponse_def)

lemma routed_registerServer [routing]:
  assumes "routed s u"
  shows "routed s (snd (registerServer k v name u))"
proof -
  have "routed s (updClient k (enableSlipAfterResponse \<circ> activateClient \<circ> setName name \<circ> setUuid v \<circ> setType TypeServer) u)"
    by (rule routed_at [OF assms]) (simp add: transport_client_defs activateClient_def setType_def Let_def)
  from routed_same [OF this] assms show ?thesis
    by (auto simp: registerServer_def Let_def intro: routed_rejected split: option.split)
qed

lemma routed_registerClient [routing]:
  assumes "routed s u"
  shows "routed s (snd (registerClient E k v name w u))"
proof -
  have member: "routed s (updClient k (\<lambda>_. (activateClient \<circ> setName name \<circ> setUuid v \<circ> setType TypeClient) c) u)"
    if "map_of (ps_proxyClients u) k = Some c" for c
    by (rule routed_at [OF assms]) (use that in \<open>simp add: transport_client_defs activateClient_def setType_def Let_def\<close>)
  have "routed s (sendNotification E n m ps q ((updClient k (\<lambda>_. (activateClient \<circ> setName name \<circ> setUuid v \<circ> setType TypeClient) c) u)
      \<lparr>ps_clientObjects := co, ps_clientConnections := cn, ps_serverObjects := so\<rparr>))"
    if "map_of (ps_proxyClients u) k = Some c" for c n m ps q co cn so
    by (rule routed_notification, rule routed_same [OF member [OF that]]) simp_all
  with assms show ?thesis
    by (auto simp: registerClient_def Let_def split_beta intro: routed_rejected split: option.split)
qed

lemma routed_disconnectClient [routing]:
  "routed s u \<Longrightarrow> routed s (snd (disconnectClient k a u))"
  by (auto simp: disconnectClient_def intro: routed_rejected routed_kill split: option.split)

lemma routed_invoke [routing]:
  "routed s u \<Longrightarrow> routed s (snd (invokeMethod E h m params k u))"
  by (simp add: invokeMethod_def RegisterServer_def RegisterClient_def DisconnectClient_def Ping_def Let_def
      split_beta routing)

lemma routed_packet [routing]: "routed s u \<Longrightarrow> routed s (processDataPacket E k d u)"
  by (simp add: processDataPacket_def processMessage_def processMethod_def split_beta routing
      split: sum.split option.split list.split prod.split bool.split)

lemma routed_packets [routing]: "routed s u \<Longrightarrow> routed s (processPackets E k ps u)"
  by (induction ps arbitrary: u) (simp_all add: routed_packet)

section \<open>Data\<close>

lemma routed_throughput [routing]: "routed s u \<Longrightarrow> routed s (addThroughput n u)"
  by (rule routed_same) (simp_all add: addThroughput_def)

lemma routed_frame [routing]: "routed s u \<Longrightarrow> routed s (processFrame E k v f u)"
  by (simp add: processFrame_def Let_def routing split: option.split)

lemma routed_frames [routing]: "routed s u \<Longrightarrow> routed s (processFrames E k v fs u)"
  by (induction fs arbitrary: u) (simp_all add: routed_frame)

lemma routed_upward [routing]: "routed s u \<Longrightarrow> routed s (tunnelToServer c d u)"
  by (simp add: tunnelToServer_def routing split: option.split)

lemma processData_route [simp]:
  "tc_interface (snd (processData d c)) = tc_interface c" "tc_clientId (snd (processData d c)) = tc_clientId c"
  by (simp_all add: processData_def split_beta)

lemma addRx_route [simp]:
  "tc_interface (client_addRxDataCount n c) = tc_interface c" "tc_clientId (client_addRxDataCount n c) = tc_clientId c"
  by (simp_all add: client_addRxDataCount_def addRxDataCount_def)

lemma routed_buffered [routing]:
  assumes "routed s u"
  shows "routed s (rpc_processData E k d u)"
proof -
  have "routed s (updClient k (\<lambda>_. snd (processData d c)) u)" if "map_of (ps_proxyClients u) k = Some c" for c
    by (rule routed_at [OF assms]) (simp add: that)
  with assms show ?thesis
    by (auto simp: rpc_processData_def Let_def split_beta intro: routing split: option.split)
qed

lemma routed_data [routing]:
  assumes "routed s u"
  shows "routed s (onClientDataAvailable E k d u)"
proof (cases "map_of (ps_proxyClients u) k")
  case None
  with assms show ?thesis by (simp add: onClientDataAvailable_def)
next
  case (Some c)
  let ?c = "client_addRxDataCount (int (length d)) c"
  let ?u = "updClient k (\<lambda>_. ?c) u"
  have u: "routed s ?u"
    by (rule routed_at [OF assms]) (simp add: Some)
  moreover have "routed s (updClient k (\<lambda>_. snd (processData d ?c)) ?u)"
    by (rule routed_at [OF u]) (simp add: Some)
  ultimately show ?thesis
    using Some by (simp add: onClientDataAvailable_def Let_def split_beta routing)
qed

section \<open>Events\<close>

lemma routed_timeout: "routed s (onInactiveTimeout k s)"
proof (cases "map_of (ps_proxyClients s) k")
  case (Some c)
  have "routed s (updClient k (\<lambda>_. fst (inactiveTimerTimeout c)) s)"
    by (rule routed_at [OF routed_refl]) (simp add: Some inactiveTimerTimeout_def)
  moreover have "addressed (updClient k (\<lambda>_. fst (inactiveTimerTimeout c)) s) e"
    if "e \<in> set (snd (inactiveTimerTimeout c))" for e
    using that Some by (auto simp: addressed_def routeOf_def inactiveTimerTimeout_def tc_killConnection_def
        split: if_splits option.splits intro!: exI [of _ k])
  ultimately show ?thesis
    using Some by (simp add: onInactiveTimeout_def split_beta routed_emit)
qed (simp add: onInactiveTimeout_def routed_refl)

lemma routed_reply [routing]:
  assumes "routed s u"
  shows "routed s (asyncReplyFinished E p u)"
proof -
  have "routed s (u\<lparr>rpc_replies := a, rpc_asyncReplies := b\<rparr>)" for a b
    by (rule routed_same [OF assms]) simp_all
  with assms show ?thesis
    by (simp add: asyncReplyFinished_def Let_def routing routed_rejected split: option.split)
qed

lemma routed_drop [routing]: "routed s u \<Longrightarrow> routed s (dropClients q ps u)"
proof (induction ps arbitrary: u)
  case (Cons p ps)
  have "routed s (u\<lparr>ps_serverObjects := so, ps_clientObjects := co\<rparr>)" for so co
    by (rule routed_same [OF Cons.prems]) simp_all
  from Cons.IH [OF routed_kill [OF this]] Cons.IH [OF Cons.prems] show ?case
    by (simp add: split_beta Let_def split: option.split)
qed simp

lemma routed_serverGone [routing]:
  assumes "routed s u"
  shows "routed s (disconnectServerConnection c u)"
proof -
  have u: "routed s (u\<lparr>ps_serverConnections := x\<rparr>)" for x
    by (rule routed_same [OF assms]) simp_all
  have "routed s ((dropClients q ps (u\<lparr>ps_serverConnections := x\<rparr>))\<lparr>ps_serverObjects := y\<rparr>)" for q ps x y
    by (rule routed_same [OF routed_drop [OF u]]) simp_all
  with u show ?thesis
    by (simp add: disconnectServerConnection_def Let_def split_beta split: option.split)
qed

lemma routed_clientGone [routing]:
  assumes "routed s u"
  shows "routed s (disconnectClientConnection E c u)"
proof -
  have u: "routed s (u\<lparr>ps_clientConnections := x\<rparr>)" "routed s (u\<lparr>ps_clientConnections := x, ps_clientObjects := z\<rparr>)"
    "routed s (u\<lparr>ps_clientConnections := x, ps_serverObjects := y, ps_clientObjects := z\<rparr>)" for x y z
    by (rule routed_same [OF assms]; simp)+
  have "routed s ((sendNotification E n m ps q (u\<lparr>ps_clientConnections := x, ps_serverObjects := y, ps_clientObjects := z\<rparr>))
      \<lparr>ps_clientObjects := w\<rparr>)" for n m ps q x y z w
    by (rule routed_same [OF routed_notification [OF u(3)]]) simp_all
  with u show ?thesis
    by (simp add: disconnectClientConnection_def Let_def split_beta split: option.split)
qed

lemma routed_disconnected: "routed (forgotten k s) (onClientDisconnected E k s)"
proof (cases "map_of (ps_proxyClients s) k")
  case None
  then have "routeOf (forgotten k s) = routeOf s"
    by (auto simp: routeOf_def)
  with None show ?thesis
    by (simp add: onClientDisconnected_def routed_def)
next
  case (Some c)
  have "routed (forgotten k s) (rpc_unregisterClient k u)" if "routed (forgotten k s) u" for u
    by (rule routed_same [OF that]) (simp_all add: rpc_unregisterClient_def Let_def split: option.split)
  with Some show ?thesis
    by (simp add: onClientDisconnected_def Let_def routing routed_refl)
qed

end
