(* ===== verification/System.thy ===== *)
theory System
  imports Routes Isolation Engine Demo
begin

text \<open>
  The server as a whole: the proxy with its three transports, wired as \<open>Engine::start\<close> and
  \<open>TunnelProxyServer::registerTransportInterface\<close> do it. The signal a socket brings about runs the proxy, and what the
  proxy hands to a transport becomes operations on sockets. The lemmas lift what is known of the
  proxy to the sockets: the proxy knows exactly the connected ones, what it sends is written on the
  socket it is for, and data of a socket concerns only the sockets it is tunnelled to. A socket with SSL
  connects when it is encrypted, a WebSocket when its version was accepted. (\<open>onClientDisconnected\<close>
  of the WebSocket transport also closes the socket that reported its disconnection; this call on a
  closed socket is not among the operations.)
\<close>

section \<open>The wiring\<close>

record system =
  sy_proxy :: proxy_server
  sy_tcp :: tcp_socket_server
  sy_ws :: web_socket_server
  sy_ux :: unix_socket_server

text \<open>What an engine that was started has wired together.\<close>

definition systemOf :: "engine \<Rightarrow> system option" where
  "systemOf e =
     (case (eng_tunnelProxyServer e, eng_tcpSocketServer e, eng_webSocketServer e, eng_unixSocketServer e) of
        (Some s, Some tcp, Some ws, Some ux) \<Rightarrow>
          Some \<lparr>sy_proxy = s, sy_tcp = tcp, sy_ws = ws, sy_ux = ux\<rparr>
      | _ \<Rightarrow> None)"

fun tableOf :: "system \<Rightarrow> transport_kind \<Rightarrow> client_table" where
  "tableOf sy TransportTcp = tcp_clientList (sy_tcp sy)"
| "tableOf sy TransportWebSocket = ws_clientList (sy_ws sy)"
| "tableOf sy TransportUnix = ux_clientList (sy_ux sy)"

text \<open>The signals of a transport for what one of its sockets does.\<close>

fun socketSignal :: "transport_kind \<Rightarrow> socket_event \<Rightarrow> system \<Rightarrow> (system \<times> proxy_event list) option" where
  "socketSignal TransportTcp e sy = map_option (\<lambda>(t, out). (sy\<lparr>sy_tcp := t\<rparr>, out))
     (transport_run tcp_onSocketConnected tcp_onDataAvailable (\<lambda>x t. Some (tcp_onSocketDisconnected x t)) (sy_tcp sy) [e])"
| "socketSignal TransportWebSocket e sy = map_option (\<lambda>(t, out). (sy\<lparr>sy_ws := t\<rparr>, out))
     (transport_run ws_connected ws_onTextMessageReceived ws_disconnected (sy_ws sy) [e])"
| "socketSignal TransportUnix e sy = map_option (\<lambda>(t, out). (sy\<lparr>sy_ux := t\<rparr>, out))
     (transport_run ux_onClientConnected ux_received (\<lambda>x t. Some (ux_onDisconnected x t)) (sy_ux sy) [e])"

text \<open>The calls of the proxy on \<open>TransportInterface\<close>; \<open>inState\<close> as for the Unix transport.\<close>

fun deliverEffect :: "(socket \<Rightarrow> bool) \<Rightarrow> system \<Rightarrow> effect \<Rightarrow> (transport_kind \<times> socket_op) list" where
  "deliverEffect inState sy (SendData i k d) = map (Pair i)
     (case i of TransportTcp \<Rightarrow> tcp_sendData k d (sy_tcp sy)
      | TransportWebSocket \<Rightarrow> ws_sendData k d (sy_ws sy)
      | TransportUnix \<Rightarrow> ux_sendData k d (sy_ux sy))"
| "deliverEffect inState sy (KillClientConnection i k r) = map (Pair i)
     (case i of TransportTcp \<Rightarrow> tcp_killClientConnection k r (sy_tcp sy)
      | TransportWebSocket \<Rightarrow> ws_killClientConnection k r (sy_ws sy)
      | TransportUnix \<Rightarrow> ux_killClientConnection inState k r (sy_ux sy))"

datatype system_event =
    SysSocket transport_kind socket_event
  | SysInactiveTimeout uuid
  | SysReplyFinished nat
  | SysReplyTimeout nat
  | SysTick

fun systemSignal :: "system_event \<Rightarrow> system \<Rightarrow> (system \<times> proxy_event list) option" where
  "systemSignal (SysSocket i e) sy = socketSignal i e sy"
| "systemSignal (SysInactiveTimeout k) sy = Some (sy, [InactiveTimeout k])"
| "systemSignal (SysReplyFinished p) sy = Some (sy, [proxy_event.ReplyFinished p])"
| "systemSignal (SysReplyTimeout p) sy = Some (sy, [ReplyTimeout p])"
| "systemSignal SysTick sy = Some (sy, [Tick])"

definition newEffects :: "proxy_server \<Rightarrow> proxy_server \<Rightarrow> effect list" where
  "newEffects s t = drop (length (ps_effects s)) (ps_effects t)"

definition system_step ::
  "env \<Rightarrow> (socket \<Rightarrow> bool) \<Rightarrow> system_event \<Rightarrow> system \<Rightarrow> (system \<times> (transport_kind \<times> socket_op) list) option" where
  "system_step E inState e sy =
     (case systemSignal e sy of
        None \<Rightarrow> None
      | Some (sy', out) \<Rightarrow>
          (let p = run_events (proxy_step E) (sy_proxy sy) out
           in Some (sy'\<lparr>sy_proxy := p\<rparr>, concat (map (deliverEffect inState sy') (newEffects (sy_proxy sy) p)))))"

text \<open>What Qt promises, for one event; the uuid of a new socket is in use for no socket of any transport.\<close>

fun sys_allowed :: "system_event \<Rightarrow> system \<Rightarrow> bool" where
  "sys_allowed (SysSocket i e) sy =
     (sockets_ok (tableOf sy i) [e] \<and>
      (case e of
         SocketConnected x k a now \<Rightarrow>
           (\<forall>j. k \<notin> fst ` set (tableOf sy j))
       | _ \<Rightarrow> True))"
| "sys_allowed _ sy = True"

inductive sys_reach :: "env \<Rightarrow> (socket \<Rightarrow> bool) \<Rightarrow> system \<Rightarrow> system \<Rightarrow> bool" for E inState sy0 where
  sys_reach_start: "sys_reach E inState sy0 sy0"
| sys_reach_step: "sys_reach E inState sy0 sy \<Longrightarrow> sys_allowed e sy \<Longrightarrow> system_step E inState e sy = Some (sy', ops) \<Longrightarrow>
    sys_reach E inState sy0 sy'"

section \<open>One signal\<close>

definition tablesOk :: "system \<Rightarrow> bool" where
  "tablesOk sy = (\<forall>i. tableOk (tableOf sy i))"

lemma tableOf_update [simp]:
  "tableOf (sy\<lparr>sy_tcp := t\<rparr>) = (tableOf sy)(TransportTcp := tcp_clientList t)"
  "tableOf (sy\<lparr>sy_ws := w\<rparr>) = (tableOf sy)(TransportWebSocket := ws_clientList w)"
  "tableOf (sy\<lparr>sy_ux := u\<rparr>) = (tableOf sy)(TransportUnix := ux_clientList u)"
  "tableOf (sy\<lparr>sy_proxy := p\<rparr>) = tableOf sy"
  by (rule ext, case_tac x, simp_all)+

lemma signal_connected:
  "\<exists>sy'. socketSignal i (SocketConnected x k a now) sy = Some (sy', [ClientConnected i k a now]) \<and>
     sy_proxy sy' = sy_proxy sy \<and> tableOf sy' = (tableOf sy)(i := qinsert k x (tableOf sy i))"
  by (cases i) (simp_all add: tcp_onSocketConnected_def ws_connected_def ws_onClientConnected_def ux_onClientConnected_def)

lemma signal_data:
  assumes "tableOk (tableOf sy i)" "qkey (tableOf sy i) x = Some k"
  shows "\<exists>sy'. socketSignal i (SocketData x d) sy = Some (sy', [DataAvailable k d]) \<and>
    sy_proxy sy' = sy_proxy sy \<and> tableOf sy' = tableOf sy"
  using assms
  by (cases i) (auto simp: tcp_transport.received_signal ws_transport.received_signal ux_transport.received_signal)

lemma signal_disconnected:
  assumes "tableOk (tableOf sy i)" "qkey (tableOf sy i) x = Some k"
  shows "\<exists>sy'. socketSignal i (SocketDisconnected x) sy = Some (sy', [ClientDisconnected k]) \<and>
    sy_proxy sy' = sy_proxy sy \<and> tableOf sy' = (tableOf sy)(i := qremove k (tableOf sy i))"
  using assms tcp_transport.disconnected_known [of "sy_tcp sy" x k] ws_transport.disconnected_known [of "sy_ws sy" x k]
    ux_transport.disconnected_known [of "sy_ux sy" x k]
  by (cases i) auto

section \<open>One effect\<close>

lemma delivers:
  assumes "map_of (tableOf sy (effect_kind e)) (effect_target e) = Some x"
  shows "\<forall>(i, op) \<in> set (deliverEffect S sy e). i = effect_kind e \<and> op_socket op = x"
    and "concat (map (op_payload \<circ> snd) (deliverEffect S sy e)) = (case e of SendData _ _ d \<Rightarrow> d | _ \<Rightarrow> [])"
proof -
  show "\<forall>(i, op) \<in> set (deliverEffect S sy e). i = effect_kind e \<and> op_socket op = x"
  proof (cases e)
    case (SendData i k d)
    with assms show ?thesis
      using tcp_transport.send_known [of "sy_tcp sy" k x d] ws_transport.send_known [of "sy_ws sy" k x d]
        ux_transport.send_known [of "sy_ux sy" k x d]
      by (cases i) auto
  next
    case (KillClientConnection i k r)
    with assms show ?thesis
      using tcp_transport.kill_known [of "sy_tcp sy" k x r] ws_transport.kill_known [of "sy_ws sy" k x r]
        ux_transport.kill_known [of "sy_ux sy" k x S r]
      by (cases i) auto
  qed
  show "concat (map (op_payload \<circ> snd) (deliverEffect S sy e)) = (case e of SendData _ _ d \<Rightarrow> d | _ \<Rightarrow> [])"
  proof (cases e)
    case (SendData i k d)
    with assms show ?thesis
      using tcp_transport.send_known [of "sy_tcp sy" k x d] ws_transport.send_known [of "sy_ws sy" k x d]
        ux_transport.send_known [of "sy_ux sy" k x d]
      by (cases i) (auto simp: comp_def)
  next
    case (KillClientConnection i k r)
    with assms show ?thesis
      using tcp_transport.kill_known [of "sy_tcp sy" k x r] ws_transport.kill_known [of "sy_ws sy" k x r]
        ux_transport.kill_known [of "sy_ux sy" k x S r]
      by (cases i) (auto simp: comp_def)
  qed
qed

section \<open>Consistency\<close>

definition sys_inv :: "system \<Rightarrow> bool" where
  "sys_inv sy = (proxy_inv (sy_proxy sy) \<and> tablesOk sy \<and>
     (\<forall>i k. interfaceOf (sy_proxy sy) k = Some i \<longleftrightarrow> k \<in> fst ` set (tableOf sy i)))"

lemma interfaceOf_route: "routeOf t = routeOf s \<Longrightarrow> interfaceOf t = interfaceOf s"
proof
  fix k assume "routeOf t = routeOf s"
  then have "routeOf t k = routeOf s k" by simp
  then show "interfaceOf t k = interfaceOf s k"
    by (cases "map_of (ps_proxyClients t) k"; cases "map_of (ps_proxyClients s) k") (auto simp: routeOf_def interfaceOf_def)
qed

lemma addressed_interface:
  assumes "\<And>k c. map_of (ps_proxyClients s) k = Some c \<Longrightarrow> tc_clientId c = k" "addressed s e"
  shows "interfaceOf s (effect_target e) = Some (effect_kind e)"
  using assms by (auto simp: addressed_def routeOf_def interfaceOf_def)

text \<open>What a timer or data does to the connections: nothing.\<close>

lemma routed_inner:
  assumes "\<And>i k a now. e \<noteq> ClientConnected i k a now" "\<And>k. e \<noteq> ClientDisconnected k"
  shows "routed s (proxy_step E s e)"
proof (cases e)
  case (ReplyTimeout p)
  have "routed s (s\<lparr>rpc_replies := r\<rparr>)" for r
    by (rule routed_same [OF routed_refl]) simp_all
  then show ?thesis by (simp add: ReplyTimeout asyncReplyTimeout_def routed_reply)
next
  case Tick
  have "routed s (tick s)" by (rule routed_same [OF routed_refl]) (simp_all add: tick_def)
  then show ?thesis by (simp add: Tick)
qed (use assms in \<open>simp_all add: routed_data routed_timeout routed_reply routed_refl\<close>)

text \<open>A step in which the tables and the proxy agree afterwards, and every new effect is for a connection.\<close>

definition stepsTo :: "env \<Rightarrow> (socket \<Rightarrow> bool) \<Rightarrow> system_event \<Rightarrow> system \<Rightarrow> system \<Rightarrow> (transport_kind \<times> socket_op) list \<Rightarrow> bool" where
  "stepsTo E S e sy sy' ops =
     (system_step E S e sy = Some (sy', ops) \<and> sys_inv sy' \<and>
      ops = concat (map (deliverEffect S sy') (newEffects (sy_proxy sy) (sy_proxy sy'))) \<and>
      (\<forall>f \<in> set (newEffects (sy_proxy sy) (sy_proxy sy')).
         effect_target f \<in> fst ` set (tableOf sy' (effect_kind f))))"

lemma deliver_proxy [simp]: "deliverEffect S (sy\<lparr>sy_proxy := p\<rparr>) = deliverEffect S sy"
proof
  fix f show "deliverEffect S (sy\<lparr>sy_proxy := p\<rparr>) f = deliverEffect S sy f"
    by (cases f) (auto split: transport_kind.split)
qed

lemma stepsTo_I:
  assumes signal: "systemSignal e sy = Some (sy1, [ev])" and p: "proxy_step E (sy_proxy sy) ev = p" "proxy_inv p"
    and tables: "tablesOk sy1" "\<And>i k. interfaceOf p k = Some i \<longleftrightarrow> k \<in> fst ` set (tableOf sy1 i)"
    and effects: "ps_effects p = ps_effects (sy_proxy sy) @ es"
      "\<And>f. f \<in> set es \<Longrightarrow> interfaceOf p (effect_target f) = Some (effect_kind f)"
  shows "\<exists>sy' ops. stepsTo E S e sy sy' ops"
proof -
  let ?sy = "sy1\<lparr>sy_proxy := p\<rparr>"
  have es: "newEffects (sy_proxy sy) p = es" by (simp add: newEffects_def effects(1))
  have "system_step E S e sy = Some (?sy, concat (map (deliverEffect S ?sy) es))"
    using signal p(1) es by (simp add: system_step_def)
  moreover have "sys_inv ?sy"
    using p(2) tables by (simp add: sys_inv_def tablesOk_def)
  moreover have "effect_target f \<in> fst ` set (tableOf ?sy (effect_kind f))" if "f \<in> set es" for f
    using effects(2) [OF that] tables(2) by simp
  ultimately show ?thesis
    using es by (intro exI [of _ ?sy] exI) (simp add: stepsTo_def)
qed

lemma step_inner:
  assumes inv: "sys_inv sy" and signal: "systemSignal e sy = Some (sy1, [ev])" "tableOf sy1 = tableOf sy"
    and ev: "\<And>i k a now. ev \<noteq> ClientConnected i k a now" "\<And>k. ev \<noteq> ClientDisconnected k"
  shows "\<exists>sy' ops. stepsTo E S e sy sy' ops"
proof -
  let ?s = "sy_proxy sy" and ?p = "proxy_step E (sy_proxy sy) ev"
  have s: "proxy_inv ?s" "tablesOk sy" "\<And>i k. interfaceOf ?s k = Some i \<longleftrightarrow> k \<in> fst ` set (tableOf sy i)"
    using inv by (auto simp: sys_inv_def)
  have "routed ?s ?p" by (rule routed_inner [OF ev])
  then obtain es where r: "routeOf ?p = routeOf ?s" "ps_effects ?p = ps_effects ?s @ es" "\<forall>f \<in> set es. addressed ?s f"
    by (auto simp: routed_def)
  note same = interfaceOf_route [OF r(1)]
  have "interfaceOf ?s (effect_target f) = Some (effect_kind f)" if "f \<in> set es" for f
    using addressed_interface [OF proxy_inv_client(1) [OF s(1)]] r(3) that by blast
  then show ?thesis
    using s signal(2) by (intro stepsTo_I [OF signal(1) refl proxy_inv_step [OF s(1)] _ _ r(2)])
      (simp_all add: same tablesOk_def)
qed

lemma step_connected:
  assumes inv: "sys_inv sy" and allowed: "sys_allowed (SysSocket i (SocketConnected x k a now)) sy"
  shows "\<exists>sy' ops. stepsTo E S (SysSocket i (SocketConnected x k a now)) sy sy' ops"
proof -
  let ?s = "sy_proxy sy"
  let ?p = "proxy_step E ?s (ClientConnected i k a now)"
  have s: "proxy_inv ?s" "tablesOk sy" "\<And>i k. interfaceOf ?s k = Some i \<longleftrightarrow> k \<in> fst ` set (tableOf sy i)"
    using inv by (auto simp: sys_inv_def)
  have fresh: "k \<notin> fst ` set (tableOf sy j)" for j
    using allowed by simp
  have k: "k \<noteq> nullUuid" "x \<notin> snd ` set (tableOf sy i)" using allowed by simp_all
  obtain sy1 where sy1: "socketSignal i (SocketConnected x k a now) sy = Some (sy1, [ClientConnected i k a now])"
      "tableOf sy1 = (tableOf sy)(i := qinsert k x (tableOf sy i))"
    using signal_connected by blast
  have new: "map_of (ps_proxyClients ?s) k = None"
  proof (rule ccontr)
    assume "map_of (ps_proxyClients ?s) k \<noteq> None"
    then obtain c where c: "map_of (ps_proxyClients ?s) k = Some c" by blast
    from proxy_inv_interface [OF s(1) c] c obtain j where "interfaceOf ?s k = Some j" by (auto simp: interfaceOf_def)
    with s(3) fresh show False by blast
  qed
  then have p: "interfaceOf ?p = (interfaceOf ?s)(k \<mapsto> i)" "ps_effects ?p = ps_effects ?s @ []"
    by (auto simp: onClientConnected_def qcontains_def rpc_registerClient_def interfaceOf_def newTunnelProxyClient_def
        newTransportClient_def transport_client.defs)
  have "tableOk (qinsert k x (tableOf sy i))"
    using s(2) fresh k by (intro tableOk_insert) (auto simp: tablesOk_def)
  then have "tablesOk sy1" using s(2) by (simp add: tablesOk_def sy1(2))
  moreover have "interfaceOf ?p k' = Some j \<longleftrightarrow> k' \<in> fst ` set (tableOf sy1 j)" for k' j
    unfolding p(1) sy1(2) using s(3) fresh by (auto simp: qinsert_keys)
  ultimately show ?thesis
    by (intro stepsTo_I [OF _ refl proxy_inv_step [OF s(1)] _ _ p(2)]) (simp_all add: sy1(1))
qed

lemma step_disconnected:
  assumes inv: "sys_inv sy" and x: "qkey (tableOf sy i) x = Some k"
  shows "\<exists>sy' ops. stepsTo E S (SysSocket i (SocketDisconnected x)) sy sy' ops"
proof -
  let ?s = "sy_proxy sy"
  let ?p = "proxy_step E ?s (ClientDisconnected k)" and ?f = "forgotten k (sy_proxy sy)"
  have s: "proxy_inv ?s" "tablesOk sy" "\<And>i k. interfaceOf ?s k = Some i \<longleftrightarrow> k \<in> fst ` set (tableOf sy i)"
    using inv by (auto simp: sys_inv_def)
  have ok: "tableOk (tableOf sy i)" using s(2) by (simp add: tablesOk_def)
  have k: "interfaceOf ?s k = Some i"
    using qkey_Some [OF tableOk_qwf [OF ok] x] s(3) by (force dest: map_of_SomeD)
  obtain sy1 where sy1: "socketSignal i (SocketDisconnected x) sy = Some (sy1, [ClientDisconnected k])"
      "tableOf sy1 = (tableOf sy)(i := qremove k (tableOf sy i))"
    using signal_disconnected [OF ok x] by blast
  have "routed ?f ?p" by (simp add: routed_disconnected)
  then obtain es where r: "routeOf ?p = routeOf ?f" "ps_effects ?p = ps_effects ?s @ es" "\<forall>f \<in> set es. addressed ?f f"
    by (auto simp: routed_def)
  have p: "interfaceOf ?p = interfaceOf ?f" by (rule interfaceOf_route [OF r(1)])
  have f: "interfaceOf ?f = (interfaceOf ?s)(k := None)" by (auto simp: interfaceOf_def)
  have "interfaceOf ?p (effect_target e) = Some (effect_kind e)" if "e \<in> set es" for e
    unfolding p
  proof (rule addressed_interface)
    show "addressed ?f e" using r(3) that by blast
    show "tc_clientId c = k'" if "map_of (ps_proxyClients ?f) k' = Some c" for k' c
      using proxy_inv_client(1) [OF s(1)] that by (auto split: if_splits)
  qed
  moreover have "tablesOk sy1" using s(2) by (auto simp: tablesOk_def sy1(2) intro: tableOk_remove)
  moreover have "interfaceOf ?p k' = Some j \<longleftrightarrow> k' \<in> fst ` set (tableOf sy1 j)" for k' j
    unfolding p f sy1(2)
    using s(3) [of k' j] s(3) [of k j] k by (cases "k' = k") (auto simp del: s(3) simp add: qremove_keys)
  ultimately show ?thesis
    by (intro stepsTo_I [OF _ refl proxy_inv_step [OF s(1)] _ _ r(2)]) (simp_all add: sy1(1))
qed

lemma system_steps:
  assumes inv: "sys_inv sy" and allowed: "sys_allowed e sy"
  shows "\<exists>sy' ops. stepsTo E S e sy sy' ops"
proof (cases e)
  case (SysSocket i ev)
  have ok: "tableOk (tableOf sy i)" using inv by (simp add: sys_inv_def tablesOk_def)
  show ?thesis
  proof (cases ev)
    case (SocketConnected x k a now)
    with step_connected [OF inv] allowed SysSocket show ?thesis by simp
  next
    case (SocketData x d)
    then obtain k where k: "qkey (tableOf sy i) x = Some k"
      using allowed SysSocket qkey_None [of "tableOf sy i" x] by auto
    from signal_data [OF ok k] obtain sy1 where "socketSignal i (SocketData x d) sy = Some (sy1, [DataAvailable k d])"
        "tableOf sy1 = tableOf sy" by blast
    then show ?thesis by (intro step_inner [OF inv, of e sy1 "DataAvailable k d"]) (simp_all add: SysSocket SocketData)
  next
    case (SocketDisconnected x)
    then obtain k where "qkey (tableOf sy i) x = Some k"
      using allowed SysSocket by (auto split: option.splits)
    with step_disconnected [OF inv] SysSocket SocketDisconnected show ?thesis by simp
  qed
qed (use step_inner [OF inv] in auto)

section \<open>Reachable states\<close>

text \<open>A started engine: a proxy without connections, transports without sockets.\<close>

lemma startedProxy_core: "core (startedProxy c) = core (newTunnelProxyServer c)"
  by (simp add: startedProxy_def core_def setRunning_def registerTransportInterface_def)

lemma started_tables:
  assumes "eng_start L c e = (e', ops)"
  shows "map_option tcp_clientList (eng_tcpSocketServer e') = Some []"
    "map_option ws_clientList (eng_webSocketServer e') = Some []"
    "map_option ux_clientList (eng_unixSocketServer e') = Some []"
  using assms
  by (auto simp: eng_start_def Let_def split_beta proxy_startServer_def startInterface_def registerTransportInterface_def
      newTunnelProxyServer_def registerHandler_def setServerUrl_def tcp_startServer_def ws_startServer_def ux_startServer_def
      newTcpSocketServer_def newWebSocketServer_def newUnixSocketServer_def split: option.splits if_splits)

lemma systemOf_start:
  assumes "systemOf (fst (eng_start L c e)) = Some sy"
  shows "sys_inv sy"
proof -
  obtain e' ops where e': "eng_start L c e = (e', ops)" by fastforce
  have s: "eng_tunnelProxyServer e' = Some (startedProxy c)" by (rule eng_start_simps(1) [OF e'])
  have "sy_proxy sy = startedProxy c" "tcp_clientList (sy_tcp sy) = []" "ws_clientList (sy_ws sy) = []"
    "ux_clientList (sy_ux sy) = []"
    using assms s started_tables [OF e'] by (auto simp: systemOf_def e' split: option.splits)
  moreover from this have "tableOf sy i = []" for i by (cases i) simp_all
  moreover have "interfaceOf (startedProxy c) k = None" for k by (simp add: interfaceOf_def startedProxy_simps)
  moreover have "proxy_inv (startedProxy c)"
    by (rule proxy_inv_same [OF startedProxy_core proxy_inv_start])
  ultimately show ?thesis by (simp add: sys_inv_def tablesOk_def tableOk_def qwf_def)
qed

lemma sys_reach_inv:
  assumes "sys_reach E S sy0 sy" "sys_inv sy0"
  shows "sys_inv sy"
  using assms
proof (induction rule: sys_reach.induct)
  case (sys_reach_step sy e sy' ops)
  with system_steps [of sy e E S] show ?case by (auto simp: stepsTo_def)
qed

text \<open>Running a list of events, for examples.\<close>

fun sys_runs :: "env \<Rightarrow> (socket \<Rightarrow> bool) \<Rightarrow> system_event list \<Rightarrow> system \<Rightarrow> system option" where
  "sys_runs E S [] sy = Some sy"
| "sys_runs E S (e # es) sy =
     (if sys_allowed e sy then Option.bind (system_step E S e sy) (\<lambda>(sy', ops). sys_runs E S es sy') else None)"

lemma sys_runs_reach: "sys_reach E S sy0 sy \<Longrightarrow> sys_runs E S es sy = Some sy' \<Longrightarrow> sys_reach E S sy0 sy'"
proof (induction es arbitrary: sy)
  case (Cons e es)
  then show ?case by (auto split: if_splits bind_splits intro: sys_reach_step)
qed simp

section \<open>What leaves the server\<close>

definition payloadTo :: "transport_kind \<Rightarrow> socket \<Rightarrow> (transport_kind \<times> socket_op) list \<Rightarrow> bytes" where
  "payloadTo i x ops = concat (map (op_payload \<circ> snd) (filter (\<lambda>(j, op). j = i \<and> op_socket op = x) ops))"

fun dataFor :: "transport_kind \<Rightarrow> uuid \<Rightarrow> effect \<Rightarrow> bytes" where
  "dataFor i k (SendData j p d) = (if j = i \<and> p = k then d else [])"
| "dataFor i k (KillClientConnection j p r) = []"

lemma deliver_sockets:
  assumes "effect_target f \<in> fst ` set (tableOf sy (effect_kind f))" "tablesOk sy" "(j, op) \<in> set (deliverEffect S sy f)"
  shows "j = effect_kind f \<and> map_of (tableOf sy j) (effect_target f) = Some (op_socket op)"
proof -
  obtain x where x: "map_of (tableOf sy (effect_kind f)) (effect_target f) = Some x"
    using assms(1) by (metis map_of_eq_None_iff not_None_eq)
  from delivers(1) [OF x, of S] assms(3) have "j = effect_kind f \<and> op_socket op = x" by blast
  with x show ?thesis by simp
qed

lemma payload_one:
  assumes f: "effect_target f \<in> fst ` set (tableOf sy (effect_kind f))" and ok: "tablesOk sy"
    and x: "map_of (tableOf sy i) k = Some x"
  shows "payloadTo i x (deliverEffect S sy f) = dataFor i k f"
proof -
  obtain y where y: "map_of (tableOf sy (effect_kind f)) (effect_target f) = Some y"
    using f by (metis map_of_eq_None_iff not_None_eq)
  have tab: "tableOk (tableOf sy i)" using ok by (simp add: tablesOk_def)
  note d = delivers [OF y, of S]
  show ?thesis
  proof (cases "effect_kind f = i \<and> y = x")
    case True
    then have "effect_target f = k"
      using qkey_table [OF tab x] qkey_table [OF tab] y by fastforce
    moreover have "filter (\<lambda>(j, op). j = i \<and> op_socket op = x) (deliverEffect S sy f) = deliverEffect S sy f"
      using d(1) True by (auto intro: filter_True)
    ultimately show ?thesis using d(2) True by (cases f) (auto simp: payloadTo_def)
  next
    case False
    then have "filter (\<lambda>(j, op). j = i \<and> op_socket op = x) (deliverEffect S sy f) = []"
      using d(1) by (auto intro!: filter_False)
    moreover have "dataFor i k f = []" using False x y by (cases f) auto
    ultimately show ?thesis by (simp add: payloadTo_def)
  qed
qed

lemma payload_all:
  assumes "\<forall>f \<in> set es. effect_target f \<in> fst ` set (tableOf sy (effect_kind f))" "tablesOk sy"
    and "map_of (tableOf sy i) k = Some x"
  shows "payloadTo i x (concat (map (deliverEffect S sy) es)) = concat (map (dataFor i k) es)"
  using assms(1)
proof (induction es)
  case (Cons f es)
  have "payloadTo i x (as @ bs) = payloadTo i x as @ payloadTo i x bs" for as bs by (simp add: payloadTo_def)
  with Cons payload_one [OF _ assms(2,3), of f S] show ?case by simp
qed (simp add: payloadTo_def)

end
