(* ===== verification/WholeServer.thy ===== *)
theory WholeServer
  imports System Departure
begin

text \<open>
  Properties of the server from socket to socket: what holds of the proxy, of its transports and of
  the engine that wires them, put together.
\<close>

section \<open>An example\<close>

text \<open>A server registers on TCP socket 3, a client on WebSocket 4.\<close>

definition demo_listeners :: listeners where
  "demo_listeners = \<lparr>li_listen = (\<lambda>_ _. True), li_listenLocal = (\<lambda>_. True), li_canOpen = (\<lambda>_. True)\<rparr>"

definition demo_sockets :: "system_event list" where
  "demo_sockets =
     [SysSocket TransportTcp (SocketConnected 3 10 ''10.0.0.1'' 0),
      SysSocket TransportWebSocket (SocketConnected 3 11 ''10.0.0.2'' 0),
      SysSocket TransportTcp (SocketData 3 [123, 1, 125]),
      SysSocket TransportWebSocket (SocketData 3 [123, 2, 125])]"

definition demo_fresh :: system where
  "demo_fresh = the (systemOf (fst (eng_start demo_listeners defaultConfiguration (newEngine 0 0))))"

definition demo_system :: system where
  "demo_system = the (sys_runs demo_env (\<lambda>_. False) demo_sockets demo_fresh)"

lemma demo_fresh: "systemOf (fst (eng_start demo_listeners defaultConfiguration (newEngine 0 0))) = Some demo_fresh"
proof -
  have "systemOf (fst (eng_start demo_listeners defaultConfiguration (newEngine 0 0))) \<noteq> None" by code_simp
  then show ?thesis by (auto simp: demo_fresh_def)
qed

text \<open>What the examples need of this system, evaluated in one go.\<close>

definition sys_view :: "system \<Rightarrow> client_table \<times> client_table \<times> bool \<times> (uuid option \<times> quint16) option" where
  "sys_view sy = (tableOf sy TransportTcp, tableOf sy TransportWebSocket,
     qcontains (ps_serverObjects (sy_proxy sy)) 10,
     map_option (\<lambda>cc. (cc_serverConnection cc, cc_socketAddress cc)) (map_of (ps_clientObjects (sy_proxy sy)) 11))"

lemma demo_runs:
  "map_option sys_view (sys_runs demo_env (\<lambda>_. False) demo_sockets demo_fresh) =
     Some ([(10, 3)], [(11, 3)], True, Some (Some 10, 1))"
  by code_simp

lemma demo_reach: "sys_reach demo_env (\<lambda>_. False) demo_fresh demo_system"
  by (rule sys_runs_reach [OF sys_reach_start]) (use demo_runs in \<open>auto simp: demo_system_def\<close>)

lemma demo_system_view: "sys_view demo_system = ([(10, 3)], [(11, 3)], True, Some (Some 10, 1))"
  using demo_runs by (auto simp: demo_system_def)

lemma demo_system_facts:
  "map_of (tableOf demo_system TransportWebSocket) 11 = Some 3" "map_of (tableOf demo_system TransportTcp) 10 = Some 3"
  "tableOf demo_system TransportTcp = [(10, 3)]"
  "\<exists>cc. map_of (ps_clientObjects (sy_proxy demo_system)) 11 = Some cc \<and> cc_serverConnection cc = Some 10 \<and>
     cc_socketAddress cc = 1"
  "\<exists>sc. map_of (ps_serverObjects (sy_proxy demo_system)) 10 = Some sc"
  using demo_system_view by (auto simp: sys_view_def qcontains_def)

section \<open>The sockets and the proxy\<close>



section \<open>Data from socket to socket\<close>

lemma data_step:
  assumes inv: "sys_inv sy" and x: "map_of (tableOf sy i) k = Some x"
  shows "\<exists>sy' ops. stepsTo E S (SysSocket i (SocketData x d)) sy sy' ops \<and>
    sy_proxy sy' = proxy_step E (sy_proxy sy) (DataAvailable k d) \<and> tableOf sy' = tableOf sy"
proof -
  have ok: "tableOk (tableOf sy i)" using inv by (simp add: sys_inv_def tablesOk_def)
  have "sys_allowed (SysSocket i (SocketData x d)) sy" using x by (force dest: map_of_SomeD)
  from system_steps [OF inv this] obtain sy' ops where st: "stepsTo E S (SysSocket i (SocketData x d)) sy sy' ops"
    by blast
  from signal_data [OF ok qkey_table [OF ok x]] obtain sy1
    where "socketSignal i (SocketData x d) sy = Some (sy1, [DataAvailable k d])" "sy_proxy sy1 = sy_proxy sy"
      "tableOf sy1 = tableOf sy" by blast
  moreover from st have "system_step E S (SysSocket i (SocketData x d)) sy = Some (sy', ops)"
    by (simp add: stepsTo_def)
  ultimately have "sy_proxy sy' = proxy_step E (sy_proxy sy) (DataAvailable k d) \<and> tableOf sy' = tableOf sy"
    by (auto simp: system_step_def Let_def simp del: proxy_step.simps)
  with st show ?thesis by blast
qed

text \<open>C10: Isolation: whatever data arrives on a socket, the server touches only sockets of connections
  it concerns: the one it came from, the server this one is tunnelled to, or the clients that are
  tunnelled to it. No other socket is written to or closed, and no tunnel ends.\<close>

theorem sockets_are_isolated:
  assumes "systemOf (fst (eng_start L cfg e)) = Some sy0" "sys_reach E S sy0 sy" "map_of (tableOf sy i) k = Some x"
  shows "\<exists>sy' ops. system_step E S (SysSocket i (SocketData x data)) sy = Some (sy', ops) \<and>
    (\<forall>(j, op) \<in> set ops. \<exists>p. concerns k (sy_proxy sy') p \<and> map_of (tableOf sy' j) p = Some (op_socket op)) \<and>
    (\<forall>p q. tunnelOf (sy_proxy sy) p = Some q \<longrightarrow> tunnelOf (sy_proxy sy') p = Some q)"
proof -
  have inv: "sys_inv sy" by (rule sys_reach_inv [OF assms(2) systemOf_start [OF assms(1)]])
  from data_step [OF inv assms(3)] obtain sy' ops
    where st: "stepsTo E S (SysSocket i (SocketData x data)) sy sy' ops"
      and p: "sy_proxy sy' = onClientDataAvailable E k data (sy_proxy sy)"
    unfolding proxy_step.simps by blast
  have "proxy_inv (sy_proxy sy)" using inv by (simp add: sys_inv_def)
  from isolation.data [OF this] have iso: "isolated k (sy_proxy sy) (sy_proxy sy')" unfolding p .
  have ok: "tablesOk sy'" using st by (simp add: stepsTo_def sys_inv_def)
  have "\<exists>q. concerns k (sy_proxy sy') q \<and> map_of (tableOf sy' j) q = Some (op_socket op)"
    if op: "(j, op) \<in> set ops" for j op
  proof -
    obtain f where f: "f \<in> set (newEffects (sy_proxy sy) (sy_proxy sy'))" "(j, op) \<in> set (deliverEffect S sy' f)"
        "effect_target f \<in> fst ` set (tableOf sy' (effect_kind f))"
      using st op by (auto simp: stepsTo_def)
    from iso f(1) have "concerns k (sy_proxy sy') (effect_target f)"
      by (auto simp: isolated_def newEffects_def)
    with deliver_sockets [OF f(3) ok f(2)] show ?thesis by blast
  qed
  with st iso show ?thesis unfolding stepsTo_def isolated_def by blast
qed

theorem sockets_are_isolated_witness:
  "\<exists>sy' ops. system_step demo_env (\<lambda>_. False) (SysSocket TransportWebSocket (SocketData 3 [1, 2])) demo_system =
      Some (sy', ops) \<and>
    (\<forall>(j, op) \<in> set ops. \<exists>p. concerns 11 (sy_proxy sy') p \<and> map_of (tableOf sy' j) p = Some (op_socket op))"
  using sockets_are_isolated [OF demo_fresh demo_reach demo_system_facts(1), of "[1, 2]"] by blast



section \<open>A socket is lost\<close>

lemma disconnect_step:
  assumes inv: "sys_inv sy" and x: "map_of (tableOf sy i) k = Some x"
  shows "\<exists>sy' ops. stepsTo E S (SysSocket i (SocketDisconnected x)) sy sy' ops \<and>
    sy_proxy sy' = proxy_step E (sy_proxy sy) (ClientDisconnected k) \<and>
    tableOf sy' = (tableOf sy)(i := qremove k (tableOf sy i))"
proof -
  have ok: "tableOk (tableOf sy i)" using inv by (simp add: sys_inv_def tablesOk_def)
  note key = qkey_table [OF ok x]
  have "sys_allowed (SysSocket i (SocketDisconnected x)) sy" using key by simp
  from system_steps [OF inv this] obtain sy' ops where st: "stepsTo E S (SysSocket i (SocketDisconnected x)) sy sy' ops"
    by blast
  from signal_disconnected [OF ok key] obtain sy1
    where "socketSignal i (SocketDisconnected x) sy = Some (sy1, [ClientDisconnected k])" "sy_proxy sy1 = sy_proxy sy"
      "tableOf sy1 = (tableOf sy)(i := qremove k (tableOf sy i))" by blast
  moreover from st have "system_step E S (SysSocket i (SocketDisconnected x)) sy = Some (sy', ops)"
    by (simp add: stepsTo_def)
  ultimately have "sy_proxy sy' = proxy_step E (sy_proxy sy) (ClientDisconnected k) \<and>
      tableOf sy' = (tableOf sy)(i := qremove k (tableOf sy i))"
    by (auto simp: system_step_def Let_def simp del: proxy_step.simps)
  with st show ?thesis by blast
qed

text \<open>Killing a connection writes nothing; it closes the socket, a local one only while it is connected.\<close>

lemma deliver_kill:
  assumes "map_of (tableOf sy j) p = Some y"
  shows "\<forall>(j', op) \<in> set (deliverEffect S sy (KillClientConnection j p r)). j' = j \<and> op_socket op = y \<and> op_payload op = []"
    and "j \<noteq> TransportUnix \<or> S y \<Longrightarrow>
      \<exists>op. (j, op) \<in> set (deliverEffect S sy (KillClientConnection j p r)) \<and> op_socket op = y \<and> op_closes op"
  using assms
  by (cases j; auto simp: tcp_killClientConnection_def ws_killClientConnection_def ux_killClientConnection_def)+

text \<open>C16: When the socket of a server is lost, the server program closes the sockets of the clients that were
  tunnelled to it (a local socket only if it is still connected), writes nothing and touches no
  other socket; the tunnels to this server end, no others, and its uuid is free again.\<close>

theorem server_loss_closes_client_sockets:
  assumes "systemOf (fst (eng_start L cfg e)) = Some sy0" "sys_reach E S sy0 sy" "map_of (tableOf sy i) q = Some x"
    and "map_of (ps_serverObjects (sy_proxy sy)) q = Some sc"
  shows "\<exists>sy' ops. system_step E S (SysSocket i (SocketDisconnected x)) sy = Some (sy', ops) \<and>
    (\<forall>(j, op) \<in> set ops. op_payload op = [] \<and>
       (\<exists>p. tunnelOf (sy_proxy sy) p = Some q \<and> map_of (tableOf sy j) p = Some (op_socket op))) \<and>
    (\<forall>p j y. tunnelOf (sy_proxy sy) p = Some q \<and> map_of (tableOf sy j) p = Some y \<and> (j \<noteq> TransportUnix \<or> S y) \<longrightarrow>
       (\<exists>op. (j, op) \<in> set ops \<and> op_socket op = y \<and> op_closes op)) \<and>
    tunnelOf (sy_proxy sy') = (\<lambda>p. if tunnelOf (sy_proxy sy) p = Some q then None else tunnelOf (sy_proxy sy) p) \<and>
    \<not> qcontains (ps_serverConnections (sy_proxy sy')) (sc_serverUuid sc)"
proof -
  let ?s = "sy_proxy sy"
  have inv: "sys_inv sy" by (rule sys_reach_inv [OF assms(2) systemOf_start [OF assms(1)]])
  then have pinv: "proxy_inv ?s" and known: "\<And>j k. interfaceOf ?s k = Some j \<longleftrightarrow> k \<in> fst ` set (tableOf sy j)"
    by (simp_all add: sys_inv_def)
  from disconnect_step [OF inv assms(3)] obtain sy' ops
    where st: "stepsTo E S (SysSocket i (SocketDisconnected x)) sy sy' ops"
      and p: "sy_proxy sy' = onClientDisconnected E q ?s" and t: "tableOf sy' = (tableOf sy)(i := qremove q (tableOf sy i))"
    unfolding proxy_step.simps by blast
  note gone = server_gone_effects [OF pinv assms(4), of E]
  have linked: "set (clientConnections sc) = {p. tunnelOf ?s p = Some q}"
    using clientConnections_linked [OF pinv assms(4)] by (auto simp: tunnelOf_def bind_eq_Some_conv)
  have kept: "map_of (tableOf sy' j) p = map_of (tableOf sy j) p" if "tunnelOf ?s p = Some q" for j p
    using linked_client(1) [OF pinv assms(4), of p] linked that by (auto simp: t)
  have kind: "the (interfaceOf ?s p) = j" if "map_of (tableOf sy j) p = Some y" for p j y
    using that known [of p j] by (force dest: map_of_SomeD)
  have ops: "set ops = (\<Union>p \<in> {p. tunnelOf ?s p = Some q}.
      set (deliverEffect S sy' (KillClientConnection (the (interfaceOf ?s p)) p ''Server disconnected'')))"
    using st unfolding linked [symmetric] stepsTo_def by (auto simp: p newEffects_def gone(1))
  have some: "\<exists>y. map_of (tableOf sy (the (interfaceOf ?s p))) p = Some y" if "tunnelOf ?s p = Some q" for p
  proof -
    obtain c j where "map_of (ps_proxyClients ?s) p = Some c" "tc_interface c = Some j"
      using linked_client(2) [OF pinv assms(4), of p] linked \<open>tunnelOf ?s p = Some q\<close> by auto
    then have "interfaceOf ?s p = Some j" by (simp add: interfaceOf_def)
    with known show ?thesis by (metis map_of_eq_None_iff not_None_eq option.sel)
  qed
  have "op_payload op = [] \<and> (\<exists>p. tunnelOf ?s p = Some q \<and> map_of (tableOf sy j) p = Some (op_socket op))"
    if op: "(j, op) \<in> set ops" for j op
  proof -
    obtain p where p: "tunnelOf ?s p = Some q"
        "(j, op) \<in> set (deliverEffect S sy' (KillClientConnection (the (interfaceOf ?s p)) p ''Server disconnected''))"
      using op unfolding ops by blast
    obtain y where y: "map_of (tableOf sy (the (interfaceOf ?s p))) p = Some y" using some [OF p(1)] by blast
    from deliver_kill(1) [of sy' "the (interfaceOf ?s p)" p y S "''Server disconnected''"] p(2) y kept [OF p(1)]
    show ?thesis using p(1) y by auto
  qed
  moreover have "\<exists>op. (j, op) \<in> set ops \<and> op_socket op = y \<and> op_closes op"
    if p: "tunnelOf ?s p = Some q" "map_of (tableOf sy j) p = Some y" "j \<noteq> TransportUnix \<or> S y" for p j y
    using deliver_kill(2) [of sy' j p y S "''Server disconnected''"] p kept [OF p(1)] kind [OF p(2)] unfolding ops by auto
  moreover have "tunnelOf (sy_proxy sy') = (\<lambda>p. if tunnelOf ?s p = Some q then None else tunnelOf ?s p)"
    unfolding p by (rule ext) (rule gone(2))
  moreover have "\<not> qcontains (ps_serverConnections (sy_proxy sy')) (sc_serverUuid sc)"
    by (simp add: p gone(3) qcontains_def)
  moreover have "system_step E S (SysSocket i (SocketDisconnected x)) sy = Some (sy', ops)"
    using st by (simp add: stepsTo_def)
  ultimately show ?thesis by (intro exI [of _ sy'] exI [of _ ops]) blast
qed

theorem server_loss_closes_client_sockets_witness:
  "\<exists>sy' ops op. system_step demo_env (\<lambda>_. False) (SysSocket TransportTcp (SocketDisconnected 3)) demo_system =
      Some (sy', ops) \<and> (TransportWebSocket, op) \<in> set ops \<and> op_socket op = 3 \<and> op_closes op"
proof -
  obtain sc where sc: "map_of (ps_serverObjects (sy_proxy demo_system)) 10 = Some sc"
    using demo_system_facts(5) by blast
  obtain sy' ops
    where step: "system_step demo_env (\<lambda>_. False) (SysSocket TransportTcp (SocketDisconnected 3)) demo_system = Some (sy', ops)"
      and closed: "\<forall>p j y. tunnelOf (sy_proxy demo_system) p = Some 10 \<and> map_of (tableOf demo_system j) p = Some y \<and>
        (j \<noteq> TransportUnix \<or> False) \<longrightarrow> (\<exists>op. (j, op) \<in> set ops \<and> op_socket op = y \<and> op_closes op)"
    using server_loss_closes_client_sockets [OF demo_fresh demo_reach demo_system_facts(2) sc] by (elim exE conjE) rule
  have "tunnelOf (sy_proxy demo_system) 11 = Some 10"
    using demo_system_facts(4) by (auto simp: tunnelOf_def)
  with closed [rule_format, of 11 TransportWebSocket 3] demo_system_facts(1) step show ?thesis by auto
qed

end
