(* ===== verification/Interleaving.thy ===== *)
theory Interleaving
  imports Departure FramingProperties SocketServer
begin

text \<open>
  The stream of one client while everybody else is active. A server gets the frames of all its clients
  and the messages of the JSON server through one connection; in between, other connections come, register,
  talk and go. Whatever the order of these events, what the server is sent is a sequence of whole frames,
  and those with the address of a client carry what the client sent since, in order.
\<close>

section \<open>What a server is sent\<close>

text \<open>What a step that does not tunnel data may send to a server for which SLIP is on: frames for address 0.\<close>

definition quiet_for :: "uuid \<Rightarrow> proxy_server \<Rightarrow> proxy_server \<Rightarrow> bool" where
  "quiet_for q s t =
     (slipOn s q \<longrightarrow> slipOn t q \<and>
       (\<exists>es. ps_effects t = ps_effects s @ es \<and> (\<forall>e \<in> set es. effect_target e = q \<longrightarrow> framed {0} e)))"

lemma quiet_silent: "slipKept s t \<Longrightarrow> ps_effects t = ps_effects s \<Longrightarrow> quiet_for q s t"
  by (simp add: quiet_for_def slipKept_def)

lemma quiet_talk: "talks_to k s t \<Longrightarrow> quiet_for q s t"
  unfolding quiet_for_def talks_to_def slipKept_def by (intro impI) (elim conjE exE, auto)

lemma quiet_trans:
  assumes "quiet_for q s t" "quiet_for q t u"
  shows "quiet_for q s u"
  unfolding quiet_for_def
proof
  assume on: "slipOn s q"
  then obtain es where es: "slipOn t q" "ps_effects t = ps_effects s @ es"
      "\<forall>e \<in> set es. effect_target e = q \<longrightarrow> framed {0} e"
    using assms(1) unfolding quiet_for_def by blast
  then obtain fs where "slipOn u q" "ps_effects u = ps_effects t @ fs"
      "\<forall>e \<in> set fs. effect_target e = q \<longrightarrow> framed {0} e"
    using assms(2) unfolding quiet_for_def by blast
  with es show "slipOn u q \<and> (\<exists>es. ps_effects u = ps_effects s @ es \<and>
      (\<forall>e \<in> set es. effect_target e = q \<longrightarrow> framed {0} e))"
    by (intro conjI exI [of _ "es @ fs"]) auto
qed

text \<open>SLIP is off for clients.\<close>

lemma client_slip_off:
  assumes inv: "proxy_inv s" and p: "map_of (ps_clientObjects s) p = Some cc"
  shows "\<not> slipOn s p"
proof -
  obtain c where c: "map_of (ps_proxyClients s) p = Some c" "pc_type c = TypeClient"
    using registry_client_object [OF inv p] by blast
  with proxy_inv_client [OF inv c(1)] show ?thesis by (auto simp: slipOn_def)
qed

lemma quiet_to_client:
  assumes inv: "proxy_inv s" and p: "map_of (ps_clientObjects s) p = Some cc"
  shows "quiet_for q s (addThroughput n (client_sendData p d s))"
proof -
  have "quiet_for q s (client_sendData p d s)"
    by (rule quiet_talk [OF talks_to_sendData [OF inv]]) (use client_slip_off [OF inv p] in simp)
  moreover have "quiet_for q t (addThroughput n t)" for t
    by (rule quiet_silent) (simp_all add: addThroughput_def slipKept_same)
  ultimately show ?thesis by (rule quiet_trans)
qed

lemma quiet_registerServer: "quiet_for q s (snd (registerServer k u name s))"
  by (rule quiet_silent)
    (auto simp: registerServer_def Let_def slipKept_def slipOn_def updClient_def killConnectionAfterResponse_def
      enableSlipAfterResponse_def activateClient_def setName_def setUuid_def setType_def split: option.splits)

lemma quiet_registerClient:
  assumes "proxy_inv s" "u \<noteq> nullUuid"
  shows "quiet_for q s (snd (registerClient E k u name v s))"
  using registerClient_tells [OF assms refl, of E k name v]
proof (elim disjE exE conjE)
  fix p r
  assume "ps_effects r = ps_effects s" "slipKept s r" and talk: "talks_to p r (snd (registerClient E k u name v s))"
  then have "quiet_for q s r" by (intro quiet_silent)
  then show ?thesis by (rule quiet_trans [OF _ quiet_talk [OF talk]])
qed (rule quiet_silent)

lemma quiet_disconnectClient:
  assumes inv: "proxy_inv s"
  shows "quiet_for q s (snd (disconnectClient k a s))"
proof -
  have "quiet_for q s (client_killConnection p r s)" for p r
    by (rule quiet_talk [OF talks_to_kill [OF inv]])
  moreover have "quiet_for q s (updClient k (killConnectionAfterResponse r) s)" for r
    by (rule quiet_silent) (auto simp: killConnectionAfterResponse_def intro: slipKept_at)
  moreover have "quiet_for q s s" by (simp add: quiet_silent)
  ultimately show ?thesis
    by (simp add: disconnectClient_def split: option.split)
qed

interpretation quiet: connection_steps "quiet_for q" k for q k
proof
  fix s sc a p cc n d
  assume s: "proxy_inv s" "map_of (ps_serverObjects s) k = Some sc" "getClientConnection sc a = Some p"
    "map_of (ps_clientObjects s) p = Some cc"
  then have "cc_transportClient cc = p" using registry_client_object [OF s(1,4)] by blast
  with quiet_to_client [OF s(1,4)] show "quiet_for q s (addThroughput n (client_sendData (cc_transportClient cc) d s))"
    by simp
qed (rule quiet_talk, assumption, rule quiet_trans, assumption, assumption, rule quiet_registerServer,
    rule quiet_registerClient, assumption, assumption, rule quiet_disconnectClient, assumption)

text \<open>Replies of the JSON server that come later go to the connection that asked.\<close>

definition calm :: "uuid \<Rightarrow> proxy_server \<Rightarrow> proxy_server \<Rightarrow> bool" where
  "calm q s t = (proxy_inv t \<and> quiet_for q s t)"

named_theorems calming

lemma calm_talk: "calm q s t \<Longrightarrow> (proxy_inv t \<Longrightarrow> talks_to k t u) \<Longrightarrow> calm q s u"
  unfolding calm_def using quiet_talk quiet_trans talks_to_inv by metis

lemma calm_silent: "calm q s t \<Longrightarrow> core u = core t \<Longrightarrow> slipKept t u \<Longrightarrow> ps_effects u = ps_effects t \<Longrightarrow> calm q s u"
  by (erule calm_talk) (rule talks_to_silent)

lemma calm_response [calming]: "calm q s t \<Longrightarrow> calm q s (sendResponse E k i ps t)"
  by (erule calm_talk) (erule talks_to_response)

lemma calm_error [calming]: "calm q s t \<Longrightarrow> calm q s (sendErrorResponse E k i m t)"
  unfolding sendErrorResponse_def by (erule calm_talk) (erule talks_to_json)

lemma calm_kill [calming]: "calm q s t \<Longrightarrow> calm q s (client_killConnection k r t)"
  by (erule calm_talk) (erule talks_to_kill)

lemma calm_killAfter [calming]: "calm q s t \<Longrightarrow> calm q s (updClient k (killConnectionAfterResponse r) t)"
  by (erule calm_silent) (auto simp: core_killAfter killConnectionAfterResponse_def intro: slipKept_at)

lemma calm_replies [calming]: "calm q s t \<Longrightarrow> calm q s (t\<lparr>rpc_replies := a, rpc_asyncReplies := b\<rparr>)"
  by (erule calm_silent) (simp_all add: core_def slipKept_same)

lemma calm_async: "calm q s t \<Longrightarrow> calm q s (asyncReplyFinished E p t)"
  by (simp add: asyncReplyFinished_def Let_def calming split: option.split)

lemma calm_timeout: "calm q s t \<Longrightarrow> calm q s (asyncReplyTimeout E p t)"
  unfolding asyncReplyTimeout_def by (rule calm_async, erule calm_silent) (simp_all add: core_def slipKept_same)

text \<open>Sockets that come and go.\<close>

lemma slipKept_json [simp]: "slipKept s (sendJson k d s)"
  by (simp add: sendJson_def split: option.split)

lemma slipKept_notification: "slipKept s (sendNotification E n m ps k s)"
  unfolding sendNotification_def Let_def by (rule slipKept_trans [OF slipKept_same slipKept_json]) simp

lemma quiet_connected: "quiet_for q s (onClientConnected interface k address now s)"
proof (cases "qcontains (ps_proxyClients s) k")
  case True
  then show ?thesis by (simp add: onClientConnected_def quiet_for_def slipOn_def)
next
  case False
  then show ?thesis
    by (intro quiet_silent)
      (auto simp: onClientConnected_def rpc_registerClient_def slipKept_def slipOn_def qcontains_def split: option.splits)
qed

lemma quiet_inactive: "quiet_for q s (onInactiveTimeout k s)"
  by (auto simp: onInactiveTimeout_def inactiveTimerTimeout_def tc_killConnection_def quiet_for_def slipOn_def
      split: option.splits)

lemma jsonPacket_framed: "slipOn s k \<Longrightarrow> framed {0} (SendData i k (jsonPacket s k d))"
  by (auto simp: slipOn_def jsonPacket_def split: option.splits
      intro!: exI [of _ "\<lparr>fr_socketAddress = 0, fr_data = d @ [newline]\<rparr>"])

lemma quiet_disconnected:
  assumes inv: "proxy_inv s" and k: "k \<noteq> q"
  shows "quiet_for q s (onClientDisconnected E k s)"
proof (cases "map_of (ps_proxyClients s) k")
  case None
  then show ?thesis by (simp add: onClientDisconnected_def quiet_silent)
next
  case (Some c)
  show ?thesis
  proof (cases "pc_type c")
    case TypeServer
    obtain sc where sc: "map_of (ps_serverObjects s) k = Some sc"
      using server_object(2) [OF inv Some TypeServer] by blast
    have "ps_proxyClients (onClientDisconnected E k s) = qremove k (ps_proxyClients s)"
      using disconnectServerConnection_effect(1) [OF inv Some TypeServer refl] Some TypeServer
      by (simp add: onClientDisconnected_def Let_def)
    with server_gone_effects(1) [OF inv sc, of E] k show ?thesis
      by (auto simp: quiet_for_def slipOn_def)
  next
    case TypeClient
    obtain cc where cc: "map_of (ps_clientObjects s) k = Some cc"
      using client_object(2) [OF inv Some TypeClient] by blast
    have step: "onClientDisconnected E k s = rpc_unregisterClient k (disconnectClientConnection E c (forgotten k s))"
      using Some TypeClient by (simp add: onClientDisconnected_def Let_def)
    show ?thesis
    proof (cases "cc_serverConnection cc")
      case None
      from k show ?thesis
        unfolding step disconnectClientConnection_alone [OF inv Some TypeClient cc None]
        by (simp add: quiet_for_def slipOn_def)
    next
      case linked: (Some p)
      obtain sc where sc: "map_of (ps_serverObjects s) p = Some sc"
        using linksOk_D(1) [OF registry_inv_D(8) [OF proxy_inv_registry [OF inv]] cc linked] by blast
      have "slipOn s q \<Longrightarrow> slipOn (onClientDisconnected E k s) q"
        using slipKept_notification [of "leaveServer k c cc p sc s"] k
        unfolding step disconnectClientConnection_linked [OF inv Some TypeClient cc linked sc] Let_def
        by (simp add: slipKept_def slipOn_def leaveServer_def)
      with client_gone_effects(1) [OF inv cc linked sc, of E] jsonPacket_framed show ?thesis
        unfolding quiet_for_def by auto
    qed
  next
    case TypeNone
    with Some k show ?thesis by (simp add: onClientDisconnected_def quiet_for_def slipOn_def Let_def)
  qed
qed

text \<open>Everything that is not the data of a client of the server.\<close>

lemma quiet_event:
  assumes inv: "proxy_inv s" and gone: "e \<noteq> ClientDisconnected q"
    and data: "\<And>k d. e = DataAvailable k d \<Longrightarrow> map_of (ps_clientObjects s) k = None"
  shows "quiet_for q s (proxy_step E s e)"
proof (cases e)
  case (DataAvailable k d)
  have "quiet_for q s (onClientDataAvailable E k d s)"
    by (rule quiet.requests [OF inv]) (use client_object(2) [OF inv] data [OF DataAvailable] in fastforce)
  with DataAvailable show ?thesis by simp
next
  case (ReplyFinished p)
  have "calm q s s" by (simp add: calm_def inv quiet_silent)
  with calm_async [of q s s] ReplyFinished show ?thesis by (simp add: calm_def)
next
  case (ReplyTimeout p)
  have "calm q s s" by (simp add: calm_def inv quiet_silent)
  with calm_timeout [of q s s] ReplyTimeout show ?thesis by (simp add: calm_def)
next
  case Tick
  then show ?thesis by (simp add: tick_def quiet_silent slipKept_same)
qed (use gone quiet_connected quiet_inactive quiet_disconnected [OF inv] in auto)

section \<open>A client keeps its seat\<close>

interpretation seats: request_relation
  "\<lambda>s t. \<forall>p cc. map_of (ps_clientObjects s) p = Some cc \<longrightarrow> map_of (ps_clientObjects t) p = Some cc" k for k
proof
  fix s t :: proxy_server assume "core t = core s"
  from addressing_core(2) [OF this] show "\<forall>p cc. map_of (ps_clientObjects s) p = Some cc \<longrightarrow> map_of (ps_clientObjects t) p = Some cc"
    by simp
next
  fix s :: proxy_server and u name
  have "ps_clientObjects (snd (registerServer k u name s)) = ps_clientObjects s"
    by (auto simp: registerServer_def Let_def updClient_def split: option.split)
  then show "\<forall>p cc. map_of (ps_clientObjects s) p = Some cc \<longrightarrow>
      map_of (ps_clientObjects (snd (registerServer k u name s))) p = Some cc"
    by simp
next
  fix s u E name v
  assume s: "proxy_inv s" "u \<noteq> nullUuid"
  define t where "t = snd (registerClient E k u name v s)"
  consider "core t = core s"
    | x and r :: proxy_server where "core t = core r" "map_of (ps_clientObjects s) k = None"
        "map_of (ps_clientObjects r) = (map_of (ps_clientObjects s))(k \<mapsto> x)"
    using registerClient_tells [OF s t_def] by blast
  then have "\<forall>p cc. map_of (ps_clientObjects s) p = Some cc \<longrightarrow> map_of (ps_clientObjects t) p = Some cc"
  proof cases
    case 1
    from addressing_core(2) [OF 1] show ?thesis by simp
  next
    case 2
    from addressing_core(2) [OF 2(1)] 2(2,3) show ?thesis by auto
  qed
  then show "\<forall>p cc. map_of (ps_clientObjects s) p = Some cc \<longrightarrow>
      map_of (ps_clientObjects (snd (registerClient E k u name v s))) p = Some cc"
    by (simp add: t_def)
qed auto

lemma seat_event:
  assumes inv: "proxy_inv s" and seat: "map_of (ps_clientObjects s) k = Some cc" "cc_serverConnection cc = Some q"
    and e: "e \<noteq> ClientDisconnected k" "e \<noteq> ClientDisconnected q"
  shows "map_of (ps_clientObjects (proxy_step E s e)) k = Some cc"
proof (cases e)
  case (ClientConnected interface p address now)
  with seat show ?thesis by (simp add: onClientConnected_def rpc_registerClient_def emit_def)
next
  case (DataAvailable p d)
  with seats.data [OF inv, of E p d] seat show ?thesis by simp
next
  case (InactiveTimeout p)
  with addressing_core(2) [OF core_onInactiveTimeout] seat show ?thesis by simp
next
  case (ReplyFinished p)
  with addressing_core(2) [OF core_asyncReplyFinished] seat show ?thesis by simp
next
  case (ReplyTimeout p)
  have "core (asyncReplyTimeout E p s) = core s" by (simp add: asyncReplyTimeout_def core_simps)
  from addressing_core(2) [OF this] ReplyTimeout seat show ?thesis by simp
next
  case (ClientDisconnected p)
  then have p: "p \<noteq> k" "p \<noteq> q" using e by auto
  show ?thesis
  proof (cases "map_of (ps_proxyClients s) p")
    case None
    with ClientDisconnected seat show ?thesis by (simp add: onClientDisconnected_def)
  next
    case (Some c)
    have "tunnelOf s k = Some q" using seat by (simp add: tunnelOf_def)
    show ?thesis
    proof (cases "pc_type c")
      case TypeServer
      with ClientDisconnected Some p seat disconnectServerConnection_effect(6) [OF inv Some TypeServer refl]
      show ?thesis by (simp add: onClientDisconnected_def Let_def unlink_def)
    next
      case TypeClient
      obtain x where x: "map_of (ps_clientObjects s) p = Some x"
        using client_object(2) [OF inv Some TypeClient] by blast
      have step: "onClientDisconnected E p s = rpc_unregisterClient p (disconnectClientConnection E c (forgotten p s))"
        using Some TypeClient by (simp add: onClientDisconnected_def Let_def)
      show ?thesis
      proof (cases "cc_serverConnection x")
        case None
        from ClientDisconnected p seat show ?thesis
          by (simp add: step disconnectClientConnection_alone [OF inv Some TypeClient x None])
      next
        case linked: (Some r)
        obtain sc where sc: "map_of (ps_serverObjects s) r = Some sc"
          using linksOk_D(1) [OF registry_inv_D(8) [OF proxy_inv_registry [OF inv]] x linked] by blast
        from ClientDisconnected p seat show ?thesis
          by (simp add: step disconnectClientConnection_linked [OF inv Some TypeClient x linked sc] Let_def
              addressing_core(2) [OF core_sendNotification] leaveServer_def)
      qed
    next
      case TypeNone
      with ClientDisconnected Some seat show ?thesis by (simp add: onClientDisconnected_def Let_def)
    qed
  qed
qed (use seat in \<open>simp_all add: tick_def\<close>)

section \<open>The packets of a server\<close>

fun packetsTo :: "uuid \<Rightarrow> effect list \<Rightarrow> bytes list" where
  "packetsTo q [] = []"
| "packetsTo q (SendData i k d # es) = (if k = q then d # packetsTo q es else packetsTo q es)"
| "packetsTo q (KillClientConnection i k r # es) = packetsTo q es"

lemma packetsTo_append [simp]: "packetsTo q (es @ fs) = packetsTo q es @ packetsTo q fs"
  by (induction q es rule: packetsTo.induct) simp_all

text \<open>The data events of a connection.\<close>

fun dataOf :: "uuid \<Rightarrow> proxy_event list \<Rightarrow> bytes list" where
  "dataOf k [] = []"
| "dataOf k (DataAvailable p d # es) = (if p = k then d # dataOf k es else dataOf k es)"
| "dataOf k (e # es) = dataOf k es"

lemma dataOf_Cons: "dataOf k (e # es) = dataOf k [e] @ dataOf k es"
  by (cases e) simp_all

text \<open>The frames among which those for one address carry given data.\<close>

definition carries :: "quint16 \<Rightarrow> bytes list \<Rightarrow> bytes list \<Rightarrow> Frame list \<Rightarrow> bool" where
  "carries a ds packets fs =
     (packets = map (\<lambda>f. serializeData (buildFrame f)) fs \<and>
      map fr_data (filter (\<lambda>f. fr_socketAddress f = a) fs) = ds)"

lemma carries_append: "carries a ds ps fs \<Longrightarrow> carries a ds' ps' fs' \<Longrightarrow> carries a (ds @ ds') (ps @ ps') (fs @ fs')"
  by (simp add: carries_def)

lemma quiet_packets:
  assumes "\<forall>e \<in> set es. effect_target e = q \<longrightarrow> framed {0} e" "a \<noteq> 0"
  shows "\<exists>fs. carries a [] (packetsTo q es) fs"
  using assms(1)
proof (induction q es rule: packetsTo.induct)
  case (2 q i k d es)
  then obtain fs where fs: "carries a [] (packetsTo q es) fs" by auto
  show ?case
  proof (cases "k = q")
    case True
    with "2.prems" obtain f where "fr_socketAddress f = 0" "d = serializeData (buildFrame f)" by auto
    with fs True assms(2) show ?thesis by (intro exI [of _ "f # fs"]) (simp add: carries_def)
  qed (use fs in auto)
next
  case (1 q)
  show ?case by (rule exI [of _ "[]"]) (simp add: carries_def)
qed auto

section \<open>One event\<close>

text \<open>The data of a client: one frame for its server.\<close>

lemma slipKept_client_data:
  assumes c: "map_of (ps_proxyClients s) p = Some c" "pc_type c = TypeClient"
  shows "slipKept s (onClientDataAvailable E p d s)"
proof -
  let ?s = "updClient p (\<lambda>_. client_addRxDataCount (int (length d)) c) s"
  have "slipKept s ?s" by (rule slipKept_at) (simp add: c(1))
  moreover have "slipKept t (addThroughput n (client_sendData x b t))" for t n x b
    by (rule slipKept_trans [OF slipKept_sendData slipKept_same]) (simp add: addThroughput_def)
  then have "slipKept t (tunnelToServer x b t)" for t x b
    by (simp add: tunnelToServer_def split: option.split)
  moreover have "onClientDataAvailable E p d s = tunnelToServer (client_addRxDataCount (int (length d)) c) d ?s"
    using c by (simp add: onClientDataAvailable_def Let_def)
  ultimately show ?thesis using slipKept_trans by metis
qed

lemma client_data_packets:
  assumes inv: "proxy_inv s" and all: "everyone_addressed s"
    and seat: "map_of (ps_clientObjects s) k = Some cc" "cc_serverConnection cc = Some q"
    and p: "map_of (ps_clientObjects s) p = Some x"
  shows "\<exists>new fs. ps_effects (onClientDataAvailable E p d s) = ps_effects s @ new \<and>
    carries (cc_socketAddress cc) (if p = k then [d] else []) (packetsTo q new) fs"
proof -
  obtain c where c: "map_of (ps_proxyClients s) p = Some c" "pc_type c = TypeClient"
    using registry_client_object [OF inv p] by blast
  note E = client_data_effects [OF inv c p, of E d]
  show ?thesis
  proof (cases "cc_serverConnection x = Some q")
    case True
    let ?f = "\<lparr>fr_socketAddress = cc_socketAddress x, fr_data = d\<rparr>"
    obtain sc where "map_of (ps_serverObjects s) q = Some sc" "getClientConnection sc (cc_socketAddress cc) = Some k"
      using addressed_D [OF all [unfolded everyone_addressed_def] seat] by blast
    moreover obtain sc' where "map_of (ps_serverObjects s) q = Some sc'" "getClientConnection sc' (cc_socketAddress x) = Some p"
      using addressed_D [OF all [unfolded everyone_addressed_def] p True] by blast
    ultimately have "(cc_socketAddress x = cc_socketAddress cc) = (p = k)"
      using seat(1) p by auto
    then show ?thesis
      using E True by (intro exI [of _ "[SendData (the (interfaceOf s q)) q (serializeData (buildFrame ?f))]"] exI [of _ "[?f]"])
        (simp add: carries_def)
  next
    case False
    then have "p \<noteq> k" using seat p by auto
    show ?thesis
    proof (cases "cc_serverConnection x")
      case None
      with E \<open>p \<noteq> k\<close> show ?thesis
        by (intro exI [of _ "[]"]) (simp add: carries_def)
    next
      case (Some r)
      with E False \<open>p \<noteq> k\<close> show ?thesis
        by (intro exI [of _ "[SendData (the (interfaceOf s r)) r
              (serializeData (buildFrame \<lparr>fr_socketAddress = cc_socketAddress x, fr_data = d\<rparr>))]"] exI [of _ "[]"])
          (simp add: carries_def)
    qed
  qed
qed

lemma event_packets:
  assumes inv: "proxy_inv s" and all: "everyone_addressed s" and on: "slipOn s q"
    and seat: "map_of (ps_clientObjects s) k = Some cc" "cc_serverConnection cc = Some q"
    and e: "e \<noteq> ClientDisconnected q"
  shows "slipOn (proxy_step E s e) q \<and> (\<exists>new fs. ps_effects (proxy_step E s e) = ps_effects s @ new \<and>
    carries (cc_socketAddress cc) (dataOf k [e]) (packetsTo q new) fs)"
proof (cases "\<exists>p d x. e = DataAvailable p d \<and> map_of (ps_clientObjects s) p = Some x")
  case True
  then obtain p d x where p: "e = DataAvailable p d" "map_of (ps_clientObjects s) p = Some x" by blast
  obtain c where "map_of (ps_proxyClients s) p = Some c" "pc_type c = TypeClient"
    using registry_client_object [OF inv p(2)] by blast
  from slipKept_client_data [OF this, of E d] on client_data_packets [OF inv all seat p(2), of E d] p(1)
  show ?thesis by (auto simp: slipKept_def)
next
  case False
  then have "quiet_for q s (proxy_step E s e)"
    by (intro quiet_event [OF inv e]) auto
  then obtain new where new: "slipOn (proxy_step E s e) q" "ps_effects (proxy_step E s e) = ps_effects s @ new"
      "\<forall>e \<in> set new. effect_target e = q \<longrightarrow> framed {0} e"
    using on unfolding quiet_for_def by blast
  have "cc_socketAddress cc \<noteq> 0"
    using addressed_D [OF all [unfolded everyone_addressed_def] seat] by (auto simp: reservedAddress_def)
  moreover have "dataOf k [e] = []"
    using False seat(1) by (cases e) auto
  ultimately show ?thesis
    using quiet_packets [OF new(3)] new(1,2) by auto
qed

section \<open>Any sequence of events\<close>

lemma run_packets:
  assumes "proxy_inv s" "everyone_addressed s" "slipOn s q"
    and "map_of (ps_clientObjects s) k = Some cc" "cc_serverConnection cc = Some q"
    and "ClientDisconnected k \<notin> set es" "ClientDisconnected q \<notin> set es"
    and "\<forall>n \<le> length es. \<not> someone_crowded (run_events (proxy_step E) s (take n es))"
  shows "\<exists>new fs. ps_effects (run_events (proxy_step E) s es) = ps_effects s @ new \<and>
    carries (cc_socketAddress cc) (dataOf k es) (packetsTo q new) fs"
  using assms
proof (induction es arbitrary: s)
  case Nil
  show ?case by (intro exI [of _ "[]"]) (simp add: carries_def)
next
  case (Cons e es)
  let ?t = "proxy_step E s e"
  have e: "e \<noteq> ClientDisconnected k" "e \<noteq> ClientDisconnected q" using Cons.prems(6,7) by auto
  obtain new fs where this_event: "slipOn ?t q" "ps_effects ?t = ps_effects s @ new"
      "carries (cc_socketAddress cc) (dataOf k [e]) (packetsTo q new) fs"
    using event_packets [OF Cons.prems(1-5) e(2)] by blast
  have "\<not> someone_crowded ?t" using Cons.prems(8) [rule_format, of 1] by simp
  then have all: "everyone_addressed ?t" by (rule everyone_addressed_step [OF Cons.prems(1,2)])
  have rest: "\<not> someone_crowded (run_events (proxy_step E) ?t (take n es))" if "n \<le> length es" for n
    using Cons.prems(8) [rule_format, of "Suc n"] that by simp
  obtain new' fs' where "ps_effects (run_events (proxy_step E) ?t es) = ps_effects ?t @ new'"
      "carries (cc_socketAddress cc) (dataOf k es) (packetsTo q new') fs'"
    using Cons.IH [OF proxy_inv_step [OF Cons.prems(1)] all this_event(1)
        seat_event [OF Cons.prems(1,4,5) e] Cons.prems(5)] Cons.prems(6,7) rest by auto
  with this_event(2) carries_append [OF this_event(3) this(2)] show ?case
    by (intro exI [of _ "new @ new'"] exI [of _ "fs @ fs'"]) (simp add: dataOf_Cons [of k e es])
qed


text \<open>A stranger connects and sends a bad request while the client is sending.\<close>

definition demo_crowd :: "proxy_event list" where
  "demo_crowd =
     [DataAvailable 11 [1], ClientConnected TransportTcp 12 ''10.0.0.3'' 0, DataAvailable 11 [0xC0],
      DataAvailable 12 [123, 4, 125], DataAvailable 11 [2]]"

lemma demo_crowd_calm:
  "\<forall>n \<le> length (demo_tunnel @ demo_crowd). \<not> someone_crowded (demo (take n (demo_tunnel @ demo_crowd)))"
proof -
  have "length (demo_tunnel @ demo_crowd) = 9" by code_simp
  then show ?thesis by (intro allI impI short_run_calm) simp
qed


end
