(* ===== verification/Network.thy ===== *)
theory Network
  imports Answers Streams ClientProperties System
begin

text \<open>
  A proxy with one server and one client of the client library, wired by the network: what one side asks of
  its socket reaches the proxy, what the proxy sends reaches the socket, each in the order it was sent. Of the states a
  socket passes through only that it is connected is reported.
  (A network may cut the bytes elsewhere; \<open>Streams\<close> and \<open>FramingProperties\<close> say when that matters.)
\<close>

section \<open>The wiring\<close>

record tunnel_network =
  nw_proxy :: proxy_server
  nw_server :: socket_server
  nw_client :: remote_connection

text \<open>The connections as the proxy sees them: ids, peer addresses, and the time.\<close>

record network_ends =
  ne_server :: uuid
  ne_client :: uuid
  ne_serverPeer :: string
  ne_clientPeer :: string
  ne_now :: quint64

datatype delivery = AtProxy proxy_event | AtServer socket_signal | AtClient socket_signal

text \<open>
  A call of the client library on its TCP socket: what the proxy gets and what the socket reports. The library
  closes a socket by \<open>disconnectFromHost\<close>, \<open>close\<close> and \<open>abort\<close>, one after the other;
  it is closed once, with the last. WebSockets are not part of this network.
\<close>

fun socketCall ::
  "(socket_signal \<Rightarrow> delivery) \<Rightarrow> uuid \<Rightarrow> string \<Rightarrow> quint64 \<Rightarrow> connection_op \<Rightarrow> delivery list" where
  "socketCall side k peer now (OpConnectToHost host port) =
     [AtProxy (ClientConnected TransportTcp k peer now), side (SigState ConnectedState)]"
| "socketCall side k peer now (OpConnectToHostEncrypted host port) =
     [AtProxy (ClientConnected TransportTcp k peer now), side (SigState ConnectedState), side SigEncrypted]"
| "socketCall side k peer now (OpWrite d) = [AtProxy (DataAvailable k d)]"
| "socketCall side k peer now OpDisconnectFromHost = []"
| "socketCall side k peer now OpClose = []"
| "socketCall side k peer now OpAbort = [AtProxy (ClientDisconnected k), side SigDisconnected]"
| "socketCall side k peer now OpIgnoreSslErrors = []"
| "socketCall side k peer now (OpOpenWebSocket url) = []"
| "socketCall side k peer now (OpSendText d) = []"

definition serverCalls :: "network_ends \<Rightarrow> server_output list \<Rightarrow> delivery list" where
  "serverCalls N outs = concat (map (\<lambda>out. case out of
     SsSocket op \<Rightarrow> socketCall AtServer (ne_server N) (ne_serverPeer N) (ne_now N) op | _ \<Rightarrow> []) outs)"

definition clientCalls :: "network_ends \<Rightarrow> remote_output list \<Rightarrow> delivery list" where
  "clientCalls N outs = concat (map (\<lambda>out. case out of
     RcSocket op \<Rightarrow> socketCall AtClient (ne_client N) (ne_clientPeer N) (ne_now N) op | _ \<Rightarrow> []) outs)"

text \<open>What the proxy hands to its transports; other connections are not part of the network.\<close>

fun effectSignals :: "network_ends \<Rightarrow> effect \<Rightarrow> delivery list" where
  "effectSignals N (SendData i p d) =
     (if p = ne_server N then [AtServer (SigData d)]
      else if p = ne_client N then [AtClient (SigData d)] else [])"
| "effectSignals N (KillClientConnection i p r) =
     (if p = ne_server N then [AtServer SigDisconnected, AtProxy (ClientDisconnected p)]
      else if p = ne_client N then [AtClient SigDisconnected, AtProxy (ClientDisconnected p)] else [])"

section \<open>Steps\<close>

text \<open>A call of one of the applications.\<close>

definition nw_serverEvent ::
  "env \<Rightarrow> network_ends \<Rightarrow> server_event \<Rightarrow> tunnel_network \<Rightarrow> tunnel_network \<times> delivery list" where
  "nw_serverEvent E N e nw =
     (let ss = ss_step E (nw_server nw) e
      in (nw\<lparr>nw_server := ss\<rparr>, serverCalls N (drop (length (ss_outputs (nw_server nw))) (ss_outputs ss))))"

definition nw_clientEvent ::
  "env \<Rightarrow> network_ends \<Rightarrow> remote_event \<Rightarrow> tunnel_network \<Rightarrow> tunnel_network \<times> delivery list" where
  "nw_clientEvent E N e nw =
     (let rc = rc_step E (nw_client nw) e
      in (nw\<lparr>nw_client := rc\<rparr>, clientCalls N (drop (length (rc_outputs (nw_client nw))) (rc_outputs rc))))"

fun nw_deliver ::
  "env \<Rightarrow> network_ends \<Rightarrow> delivery \<Rightarrow> tunnel_network \<Rightarrow> tunnel_network \<times> delivery list" where
  "nw_deliver E N (AtProxy e) nw =
     (let s = proxy_step E (nw_proxy nw) e
      in (nw\<lparr>nw_proxy := s\<rparr>, concat (map (effectSignals N) (newEffects (nw_proxy nw) s))))"
| "nw_deliver E N (AtServer sig) nw = nw_serverEvent E N (SsSignal sig) nw"
| "nw_deliver E N (AtClient sig) nw = nw_clientEvent E N (RcSignal sig) nw"

text \<open>The network works through what is under way, first come, first served.\<close>

fun nw_settle ::
  "env \<Rightarrow> network_ends \<Rightarrow> nat \<Rightarrow> tunnel_network \<times> delivery list \<Rightarrow> tunnel_network \<times> delivery list" where
  "nw_settle E N 0 x = x"
| "nw_settle E N (Suc n) (nw, []) = (nw, [])"
| "nw_settle E N (Suc n) (nw, d # ds) =
     (let (nw', new) = nw_deliver E N d nw in nw_settle E N n (nw', ds @ new))"

text \<open>Nothing is under way any more.\<close>

definition nw_settles :: "env \<Rightarrow> network_ends \<Rightarrow> tunnel_network \<times> delivery list \<Rightarrow> tunnel_network \<Rightarrow> bool" where
  "nw_settles E N x nw = (\<exists>n. nw_settle E N n x = (nw, []))"

lemma nw_settles_done: "nw_settles E N (nw, []) nw"
  unfolding nw_settles_def by (rule exI [of _ 0]) simp

lemma nw_settles_step:
  "nw_deliver E N d nw = (nw', new) \<Longrightarrow> nw_settles E N (nw', ds @ new) nw'' \<Longrightarrow> nw_settles E N (nw, d # ds) nw''"
  unfolding nw_settles_def by (elim exE, rule_tac x = "Suc n" in exI) simp

text \<open>It comes to rest in one state at most, however long it is given.\<close>

lemma nw_settle_rest: "nw_settle E N n x = (nw, []) \<Longrightarrow> nw_settle E N (n + m) x = (nw, [])"
proof (induction E N n x rule: nw_settle.induct)
  case (1 E N x)
  then show ?case by (cases m) simp_all
qed (auto split: prod.splits)

lemma nw_settles_unique: "nw_settles E N x a \<Longrightarrow> nw_settles E N x b \<Longrightarrow> a = b"
  unfolding nw_settles_def by (metis add.commute nw_settle_rest prod.inject)

end
