(* ===== verification/Handshake.thy ===== *)
theory Handshake
  imports Network
begin

text \<open>
  The client library and the proxy speak the same protocol: the requests of the one are valid for
  the other, the replies are understood, and the notification of a new client makes the socket the
  server's application reads from.
\<close>

section \<open>Messages on the wire\<close>

text \<open>What is read back from the JSON text of a value: numbers are numbers (\<open>num\<close>), uuids are texts.\<close>

primrec jsonValue :: "env \<Rightarrow> (int \<Rightarrow> variant) \<Rightarrow> variant \<Rightarrow> variant" where
  "jsonValue E num VInvalid = VInvalid"
| "jsonValue E num (VBool b) = VBool b"
| "jsonValue E num (VInt i) = num i"
| "jsonValue E num (VUInt i) = num i"
| "jsonValue E num (VULongLong w) = num (uint w)"
| "jsonValue E num (VDouble w) = VDouble w"
| "jsonValue E num (VString s) = VString s"
| "jsonValue E num (VUuid u) = VString (env_uuidToString E u)"
| "jsonValue E num (VList vs) = VList (map (jsonValue E num) vs)"
| "jsonValue E num (VMap m) = VMap (map (map_prod id (jsonValue E num)) m)"

text \<open>What is relied on of Qt, for the given messages: a compact JSON text is an object on one line, it is
  read back as the value it was made from, numbers can be read as integers, and a uuid as its text.\<close>

definition qt_json :: "env \<Rightarrow> (int \<Rightarrow> variant) \<Rightarrow> variant list \<Rightarrow> bool" where
  "qt_json E num ms =
     ((\<forall>i. - (2 ^ 31) \<le> i \<and> i < 2 ^ 31 \<longrightarrow> vtoInt E (num i) = Some i) \<and>
      (\<forall>i. 0 \<le> i \<and> i < 2 ^ 32 \<longrightarrow> vtoUInt E (num i) = word_of_int i) \<and>
      (\<forall>u. env_uuidOfString E (env_uuidToString E u) = u) \<and>
      (\<forall>t. env_canConvert E TString (VString t) \<and> env_canConvert E TUuid (VString t)) \<and>
      (\<forall>m \<in> set ms. json_message (env_toJson E m) \<and>
         env_fromJson E (env_toJson E m @ [newline]) = Inr (jsonValue E num m)))"

lemma qt_json_D:
  assumes "qt_json E num ms"
  shows "vtoInt E (num 0) = Some 0" "- (2 ^ 31) \<le> i \<Longrightarrow> i < 2 ^ 31 \<Longrightarrow> vtoInt E (num i) = Some i"
    "ucast (vtoUInt E (num (uint (a :: quint16)))) = a"
    "env_uuidOfString E (env_uuidToString E u) = u"
    "env_canConvert E TString (VString t)" "env_canConvert E TUuid (VString t)"
    "m \<in> set ms \<Longrightarrow> json_message (env_toJson E m)"
    "m \<in> set ms \<Longrightarrow> env_fromJson E (env_toJson E m @ [newline]) = Inr (jsonValue E num m)"
proof -
  have "uint a < 2 ^ 32" using uint_lt2p [of a] by simp
  then have "vtoUInt E (num (uint a)) = word_of_int (uint a)"
    using assms by (simp add: qt_json_def)
  moreover have "ucast (ucast a :: quint32) = a" by (rule bit_word_eqI) (simp add: bit_simps)
  ultimately show "ucast (vtoUInt E (num (uint a))) = a" by simp
qed (use assms in \<open>auto simp: qt_json_def\<close>)

text \<open>The requests of the client library.\<close>

definition requestOf :: "string \<Rightarrow> string \<Rightarrow> vmap \<Rightarrow> variant" where
  "requestOf nameSpace method params = VMap (fst (requestMap (newReply 0 nameSpace method params)))"

definition helloRequest :: variant where
  "helloRequest = requestOf ''RemoteProxy'' ''Hello'' []"

definition serverRequest :: "env \<Rightarrow> uuid \<Rightarrow> string \<Rightarrow> variant" where
  "serverRequest E v name = requestOf ''TunnelProxy'' ''RegisterServer''
     [(''serverName'', VString name), (''serverUuid'', VString (env_uuidToString E v))]"

definition clientRequest :: "env \<Rightarrow> uuid \<Rightarrow> string \<Rightarrow> uuid \<Rightarrow> variant" where
  "clientRequest E u name v = requestOf ''TunnelProxy'' ''RegisterClient''
     [(''clientUuid'', VUuid u), (''clientName'', VString name), (''serverUuid'', VString (env_uuidToString E v))]"

definition awaited :: "string \<Rightarrow> string \<Rightarrow> vmap \<Rightarrow> reply_slot \<Rightarrow> client_reply" where
  "awaited nameSpace method params slot =
     \<lparr>jr_commandId = 1, jr_nameSpace = nameSpace, jr_method = method, jr_params = params, jr_response = [],
      jr_slot = Some slot\<rparr>"

lemma awaited_slot [simp]: "jr_slot (awaited ns m ps slot) = Some slot"
  by (simp add: awaited_def)

lemma library_requests:
  assumes "jc_commandId jc = 0"
  shows "callHello E jc = (env_toJson E helloRequest @ [newline],
      jc\<lparr>jc_replies := qinsert 0 (awaited ''RemoteProxy'' ''Hello'' [] OnHelloFinished) (jc_replies jc)\<rparr>)"
    and "callRegisterServer E v name jc = (env_toJson E (serverRequest E v name) @ [newline],
      jc\<lparr>jc_replies := qinsert 0 (awaited ''TunnelProxy'' ''RegisterServer''
        [(''serverName'', VString name), (''serverUuid'', VString (env_uuidToString E v))] OnRegistrationFinished) (jc_replies jc)\<rparr>)"
    and "callRegisterClient E u name' v jc = (env_toJson E (clientRequest E u name' v) @ [newline],
      jc\<lparr>jc_replies := qinsert 0 (awaited ''TunnelProxy'' ''RegisterClient''
        [(''clientUuid'', VUuid u), (''clientName'', VString name'), (''serverUuid'', VString (env_uuidToString E v))]
        OnRegistrationFinished) (jc_replies jc)\<rparr>)"
  using assms by (simp_all add: call_defs callMethod_def sendRequest_def helloRequest_def serverRequest_def
      clientRequest_def requestOf_def requestMap_def newReply_def awaited_def Let_def)

text \<open>The messages of the proxy.\<close>

definition helloReply :: "env \<Rightarrow> proxy_configuration \<Rightarrow> variant" where
  "helloReply E cfg = responseMap 0
     [(''server'', VString (env_SERVER_NAME_STRING E)), (''name'', VString (cfg_serverName cfg)),
      (''version'', VString (env_SERVER_VERSION_STRING E)), (''apiVersion'', VString (env_API_VERSION_STRING E))]"

definition serverReply :: variant where
  "serverReply = responseMap 0
     [(''tunnelProxyError'', VString ''TunnelProxyErrorNoError''), (''slipEnabled'', VBool True)]"

definition clientReply :: variant where
  "clientReply = responseMap 0 [(''tunnelProxyError'', VString ''TunnelProxyErrorNoError'')]"

definition clientNews :: "env \<Rightarrow> int \<Rightarrow> uuid \<Rightarrow> string \<Rightarrow> string \<Rightarrow> quint16 \<Rightarrow> variant" where
  "clientNews E n u name peer a = notificationMap n ''TunnelProxy'' ''ClientConnected''
     [(''clientName'', VString name), (''clientUuid'', VString (env_uuidToString E u)),
      (''clientPeerAddress'', VString peer), (''socketAddress'', VUInt (uint a))]"

definition clientGone :: "int \<Rightarrow> quint16 \<Rightarrow> variant" where
  "clientGone n a = notificationMap n ''TunnelProxy'' ''ClientDisconnected'' [(''socketAddress'', VUInt (uint a))]"

lemmas message_defs = helloRequest_def serverRequest_def clientRequest_def requestOf_def requestMap_def newReply_def
  helloReply_def serverReply_def clientReply_def clientNews_def responseMap_def notificationMap_def

section \<open>The proxy understands the library\<close>

lemma requests_are_valid:
  assumes "qt_json E num ms"
  shows "serverRequest E v name \<in> set ms \<Longrightarrow>
      tunnelRequest E (env_toJson E (serverRequest E v name) @ [newline]) ''RegisterServer'' =
        Some (0, [(''serverName'', VString name), (''serverUuid'', VString (env_uuidToString E v))])"
    and "clientRequest E u name v \<in> set ms \<Longrightarrow>
      tunnelRequest E (env_toJson E (clientRequest E u name v) @ [newline]) ''RegisterClient'' =
        Some (0, [(''clientUuid'', VString (env_uuidToString E u)), (''clientName'', VString name),
          (''serverUuid'', VString (env_uuidToString E v))])"
proof -
  note Q = qt_json_D [OF assms]
  have "fst (validateParams E newTunnelProxyHandler ''RegisterServer''
      [(''serverName'', VString name), (''serverUuid'', VString (env_uuidToString E v))])"
    using Q(5,6) by (simp add: validateParams_def reply_templates validateVariant_property validateProperty_def)
  then show "serverRequest E v name \<in> set ms \<Longrightarrow>
      tunnelRequest E (env_toJson E (serverRequest E v name) @ [newline]) ''RegisterServer'' =
        Some (0, [(''serverName'', VString name), (''serverUuid'', VString (env_uuidToString E v))])"
    using Q(1) Q(8) [of "serverRequest E v name"]
    by (simp add: tunnelRequest_def message_defs vvalue_def tunnelProxy_methods)
  have "fst (validateParams E newTunnelProxyHandler ''RegisterClient''
      [(''clientUuid'', VString (env_uuidToString E u)), (''clientName'', VString name),
          (''serverUuid'', VString (env_uuidToString E v))])"
    using Q(5,6) by (simp add: validateParams_def reply_templates validateVariant_property validateProperty_def)
  then show "clientRequest E u name v \<in> set ms \<Longrightarrow>
      tunnelRequest E (env_toJson E (clientRequest E u name v) @ [newline]) ''RegisterClient'' =
        Some (0, [(''clientUuid'', VString (env_uuidToString E u)), (''clientName'', VString name),
          (''serverUuid'', VString (env_uuidToString E v))])"
    using Q(1) Q(8) [of "clientRequest E u name v"]
    by (simp add: tunnelRequest_def message_defs vvalue_def tunnelProxy_methods)
qed

section \<open>The server's side\<close>

text \<open>The stages of a server of the library: connecting, waiting for a reply, online.\<close>

definition ss_connecting :: "uuid \<Rightarrow> string \<Rightarrow> socket_server \<Rightarrow> bool" where
  "ss_connecting v name ss =
     (\<exists>c. ss_connection ss = Some c \<and> con_type c = ConnectionTypeTcpSocket \<and> \<not> con_connected c \<and> \<not> con_ssl c \<and>
        ss_jsonClient ss = Some newJsonClient \<and> ss_state ss = server_state.StateDisconnected \<and> ss_enabled ss \<and>
        ss_serverUuid ss = v \<and> ss_serverName ss = name \<and> ss_dataBuffer ss = [] \<and> \<not> ss_running ss)"

definition ss_awaiting :: "reply_slot \<Rightarrow> uuid \<Rightarrow> string \<Rightarrow> socket_server \<Rightarrow> bool" where
  "ss_awaiting slot v name ss =
     (\<exists>c jc r. ss_connection ss = Some c \<and> con_type c = ConnectionTypeTcpSocket \<and> con_connected c \<and>
        ss_jsonClient ss = Some jc \<and> jc_commandId jc = 0 \<and> jc_dataBuffer jc = [] \<and> jc_replies jc = [(0, r)] \<and>
        jr_slot r = Some slot \<and> ss_state ss \<notin> {server_state.StateRunning, server_state.StateDisconnected} \<and>
        ss_serverUuid ss = v \<and> ss_serverName ss = name \<and> \<not> ss_running ss)"

definition ss_online :: "socket_server \<Rightarrow> bool" where
  "ss_online ss =
     (\<exists>c jc. ss_connection ss = Some c \<and> con_type c = ConnectionTypeTcpSocket \<and> con_connected c \<and>
        ss_jsonClient ss = Some jc \<and> jc_dataBuffer jc = [] \<and> jc_replies jc = [] \<and>
        ss_state ss = server_state.StateRunning \<and> ss_dataBuffer ss = [])"

lemmas ss_step_defs = ss_setState_def ss_setRunning_def ss_emit_def ss_onConnectionChanged_def ss_call_def ss_send_def
  con_sendData_def con_slot_defs con_onStateChanged_def setConnected_def Let_def

lemma serverCalls_simps [simp]:
  "serverCalls N [] = []"
  "serverCalls N (SsSocket op # outs) = socketCall AtServer (ne_server N) (ne_serverPeer N) (ne_now N) op @ serverCalls N outs"
  "serverCalls N (SsStateChanged st # outs) = serverCalls N outs"
  "serverCalls N (SsRunningChanged b # outs) = serverCalls N outs"
  "serverCalls N (SsServerErrorOccurred e # outs) = serverCalls N outs"
  "serverCalls N (SsClientConnected x # outs) = serverCalls N outs"
  "serverCalls N (SsDataReceived a d # outs) = serverCalls N outs"
  "serverCalls N (SsSocketDisconnected x # outs) = serverCalls N outs"
  "serverCalls N (SsClientDisconnected x # outs) = serverCalls N outs"
  by (simp_all add: serverCalls_def)

text \<open>What the application reads, from which socket.\<close>

definition serverHeard :: "server_output list \<Rightarrow> (quint16 \<times> bytes) list" where
  "serverHeard outs = concat (map (\<lambda>out. case out of SsDataReceived a d \<Rightarrow> [(a, d)] | _ \<Rightarrow> []) outs)"

lemma serverHeard_simps [simp]:
  "serverHeard [] = []" "serverHeard (xs @ ys) = serverHeard xs @ serverHeard ys"
  "serverHeard (SsSocket op # outs) = serverHeard outs" "serverHeard (SsStateChanged st # outs) = serverHeard outs"
  "serverHeard (SsRunningChanged b # outs) = serverHeard outs"
  "serverHeard (SsServerErrorOccurred e # outs) = serverHeard outs"
  "serverHeard (SsClientConnected x # outs) = serverHeard outs"
  "serverHeard (SsSocketDisconnected x # outs) = serverHeard outs"
  "serverHeard (SsClientDisconnected x # outs) = serverHeard outs"
  "serverHeard (SsDataReceived a d # outs) = (a, d) # serverHeard outs"
  by (simp_all add: serverHeard_def)

lemma server_starts:
  assumes "pu_scheme url = ''tcp''" "pu_valid url"
  shows "\<exists>ss outs. ss_step E (newSocketServer v name ConnectionTypeTcpSocket) (SsStart url) = ss \<and>
    ss_connecting v name ss \<and> ss_outputs ss = outs \<and> serverHeard outs = [] \<and>
    serverCalls N outs = [AtProxy (ClientConnected TransportTcp (ne_server N) (ne_serverPeer N) (ne_now N)),
      AtServer (SigState ConnectedState)]"
  using assms by (simp add: ss_connecting_def newSocketServer_def ss_startServer_def ss_cleanUp_def ss_step_defs
      con_connectServer_def newConnection_def)

lemma server_says_hello:
  assumes "ss_connecting v name ss"
  shows "\<exists>ss' outs. ss_step E ss (SsSignal (SigState ConnectedState)) = ss' \<and> ss_awaiting OnHelloFinished v name ss' \<and>
    ss_outputs ss' = ss_outputs ss @ outs \<and> serverHeard outs = [] \<and>
    serverCalls N outs = [AtProxy (DataAvailable (ne_server N) (env_toJson E helloRequest @ [newline]))]"
  using assms
  by (auto simp: ss_connecting_def ss_awaiting_def ss_step_defs newJsonClient_def library_requests)

text \<open>The proxy's replies are good ones for the library.\<close>

lemma replies_are_good:
  assumes "qt_json E num ms"
  shows "helloReply E cfg \<in> set ms \<Longrightarrow> \<exists>r. good_reply E (env_toJson E (helloReply E cfg)) r"
    and "serverReply \<in> set ms \<Longrightarrow> \<exists>r. good_reply E (env_toJson E serverReply) r \<and>
      vtoString E (vvalue (vtoMap (vvalue r ''params'')) ''tunnelProxyError'') = ''TunnelProxyErrorNoError''"
    and "clientReply \<in> set ms \<Longrightarrow> \<exists>r. good_reply E (env_toJson E clientReply) r \<and>
      vtoString E (vvalue (vtoMap (vvalue r ''params'')) ''tunnelProxyError'') = ''TunnelProxyErrorNoError''"
  using qt_json_D(1,7,8) [OF assms]
  by (simp_all add: good_reply_def helloReply_def serverReply_def clientReply_def responseMap_def vvalue_def vtoInt0_def)

lemma server_hears_hello:
  assumes "ss_awaiting OnHelloFinished v name ss" "good_reply E m r"
  shows "\<exists>ss' outs. ss_step E ss (SsSignal (SigData (m @ [newline]))) = ss' \<and> ss_awaiting OnRegistrationFinished v name ss' \<and>
    ss_outputs ss' = ss_outputs ss @ outs \<and> serverHeard outs = [] \<and>
    serverCalls N outs = [AtProxy (DataAvailable (ne_server N) (env_toJson E (serverRequest E v name) @ [newline]))]"
  using assms json_feed_message [of m]
  by (auto simp: ss_awaiting_def ss_step_defs library_requests good_reply_def jc_packets_def ss_onConnectionDataAvailable_def
      ss_processJson_def jc_processDataPacket_def jc_processMessage_def ss_onJsonSignal_def setResponse_def
      ss_onHelloFinished_def timer_start_def)

lemma server_is_online:
  assumes "ss_awaiting OnRegistrationFinished v name ss" "good_reply E m r"
    "vtoString E (vvalue (vtoMap (vvalue r ''params'')) ''tunnelProxyError'') = ''TunnelProxyErrorNoError''"
  shows "\<exists>ss' outs. ss_step E ss (SsSignal (SigData (m @ [newline]))) = ss' \<and> ss_online ss' \<and>
    ss_outputs ss' = ss_outputs ss @ outs \<and> serverHeard outs = [] \<and> serverCalls N outs = []"
  using assms json_feed_message [of m]
  by (auto simp: ss_awaiting_def ss_online_def ss_step_defs good_reply_def jc_packets_def ss_onConnectionDataAvailable_def
      ss_processJson_def jc_processDataPacket_def jc_processMessage_def ss_onJsonSignal_def setResponse_def
      ss_onServerRegistrationFinished_def timer_start_def)

text \<open>A frame that comes alone.\<close>

lemma recv_frame: "recv_loop [] (serializeData (buildFrame f)) = ([buildFrame f], [])"
  by (rule recv_loop_packet) (simp add: buildFrame_def stream_write_u16_def)

lemma server_hears_of_client:
  assumes "ss_online ss" "qt_json E num ms" "clientNews E n u name peer a \<in> set ms" "- (2 ^ 31) \<le> n" "n < 2 ^ 31"
  shows "\<exists>ss'. ss_step E ss (SsSignal (SigData (serializeData (buildFrame
      \<lparr>fr_socketAddress = 0, fr_data = env_toJson E (clientNews E n u name peer a) @ [newline]\<rparr>)))) = ss' \<and> ss_online ss' \<and>
    ss_outputs ss' = ss_outputs ss @ [SsClientConnected (newTunnelProxySocket name u peer a)] \<and>
    map_of (ss_tunnelProxySockets ss') a = Some (newTunnelProxySocket name u peer a)"
proof -
  note Q = qt_json_D [OF assms(2)]
  let ?m = "env_toJson E (clientNews E n u name peer a)"
  obtain c jc where ss: "ss_connection ss = Some c" "con_type c = ConnectionTypeTcpSocket" "con_connected c"
      "ss_jsonClient ss = Some jc" "jc_dataBuffer jc = []" "jc_replies jc = []"
      "ss_state ss = server_state.StateRunning" "ss_dataBuffer ss = []"
    using assms(1) by (auto simp: ss_online_def)
  let ?t = "newTunnelProxySocket name u peer a"
  have json: "jc_packets (?m @ [newline]) jc = ([?m @ [newline]], jc)"
    using json_feed_message [OF Q(7) [OF assms(3)]] ss(5) by (simp add: jc_packets_def)
  have "jc_processDataPacket E (?m @ [newline]) jc = (jc, [TunnelProxyClientConnected name u peer a])"
    using Q(3) [of a] Q(4) [of u] Q(8) [OF assms(3)] Q(2) [OF assms(4,5)] ss(6)
    by (simp add: jc_processDataPacket_def jc_processMessage_def clientNews_def notificationMap_def vvalue_def
        notificationSignals_def qcontains_def Let_def)
  with ss json show ?thesis
    by (simp add: ss_onConnectionDataAvailable_def recv_frame ss_onFrame_def parse_build ss_processJson_def
        ss_onJsonSignal_def ss_onTunnelProxyClientConnected_def ss_step_defs ss_online_def Let_def)
qed

lemma server_hears_of_leaving:
  assumes "ss_online ss" "qt_json E num ms" "clientGone n a \<in> set ms" "- (2 ^ 31) \<le> n" "n < 2 ^ 31"
    and "map_of (ss_tunnelProxySockets ss) a = Some x"
  shows "\<exists>ss'. ss_step E ss (SsSignal (SigData (serializeData (buildFrame
      \<lparr>fr_socketAddress = 0, fr_data = env_toJson E (clientGone n a) @ [newline]\<rparr>)))) = ss' \<and> ss_online ss' \<and>
    ss_outputs ss' = ss_outputs ss @ [SsSocketDisconnected (setDisconnected x), SsClientDisconnected (setDisconnected x)] \<and>
    map_of (ss_tunnelProxySockets ss') a = None"
proof -
  note Q = qt_json_D [OF assms(2)]
  let ?m = "env_toJson E (clientGone n a)"
  obtain c jc where ss: "ss_connection ss = Some c" "con_type c = ConnectionTypeTcpSocket" "con_connected c"
      "ss_jsonClient ss = Some jc" "jc_dataBuffer jc = []" "jc_replies jc = []"
      "ss_state ss = server_state.StateRunning" "ss_dataBuffer ss = []"
    using assms(1) by (auto simp: ss_online_def)
  have json: "jc_packets (?m @ [newline]) jc = ([?m @ [newline]], jc)"
    using json_feed_message [OF Q(7) [OF assms(3)]] ss(5) by (simp add: jc_packets_def)
  have "jc_processDataPacket E (?m @ [newline]) jc = (jc, [TunnelProxyClientDisconnected a])"
    using Q(3) [of a] Q(8) [OF assms(3)] Q(2) [OF assms(4,5)] ss(6)
    by (simp add: jc_processDataPacket_def jc_processMessage_def clientGone_def notificationMap_def vvalue_def
        notificationSignals_def qcontains_def Let_def)
  with ss json assms(6) show ?thesis
    by (simp add: ss_onConnectionDataAvailable_def recv_frame ss_onFrame_def parse_build ss_processJson_def
        ss_onJsonSignal_def ss_onTunnelProxyClientDisconnected_def ss_step_defs ss_online_def Let_def)
qed

lemma server_hears_client:
  assumes "ss_online ss" "map_of (ss_tunnelProxySockets ss) a = Some x" "a \<noteq> 0"
  shows "\<exists>ss'. ss_step E ss (SsSignal (SigData (serializeData (buildFrame \<lparr>fr_socketAddress = a, fr_data = d\<rparr>)))) = ss' \<and>
    ss_online ss' \<and> ss_outputs ss' = ss_outputs ss @ [SsDataReceived a d] \<and> ss_tunnelProxySockets ss' = ss_tunnelProxySockets ss"
  using assms
  by (auto simp: ss_online_def con_slot_defs ss_onConnectionDataAvailable_def recv_frame ss_onFrame_def parse_build
      ss_emit_def Let_def)

lemma server_writes:
  assumes "ss_online ss" "map_of (ss_tunnelProxySockets ss) a = Some x" "ts_socketAddress x = a"
  shows "\<exists>ss'. ss_step E ss (SsWriteData a d) = ss' \<and> ss_online ss' \<and>
    ss_outputs ss' = ss_outputs ss @ [SsSocket (OpWrite (serializeData (buildFrame \<lparr>fr_socketAddress = a, fr_data = d\<rparr>)))] \<and>
    ss_tunnelProxySockets ss' = ss_tunnelProxySockets ss"
  using assms by (auto simp: ss_online_def ts_writeData_def ss_step_defs)

section \<open>The client's side\<close>

definition rc_connecting :: "uuid \<Rightarrow> string \<Rightarrow> uuid \<Rightarrow> remote_connection \<Rightarrow> bool" where
  "rc_connecting u name v rc =
     (\<exists>c. rc_connection rc = Some c \<and> con_type c = ConnectionTypeTcpSocket \<and> \<not> con_connected c \<and> \<not> con_ssl c \<and>
        rc_jsonClient rc = Some newJsonClient \<and> rc_state rc = remote_state.StateDisconnected \<and>
        rc_clientUuid rc = u \<and> rc_clientName rc = name \<and> rc_serverUuid rc = v)"

definition rc_awaiting :: "reply_slot \<Rightarrow> uuid \<Rightarrow> string \<Rightarrow> uuid \<Rightarrow> remote_connection \<Rightarrow> bool" where
  "rc_awaiting slot u name v rc =
     (\<exists>c jc r. rc_connection rc = Some c \<and> con_type c = ConnectionTypeTcpSocket \<and> con_connected c \<and>
        rc_jsonClient rc = Some jc \<and> jc_commandId jc = 0 \<and> jc_dataBuffer jc = [] \<and> jc_replies jc = [(0, r)] \<and>
        jr_slot r = Some slot \<and> rc_state rc \<noteq> StateRemoteConnected \<and>
        rc_clientUuid rc = u \<and> rc_clientName rc = name \<and> rc_serverUuid rc = v)"

definition rc_open :: "remote_connection \<Rightarrow> bool" where
  "rc_open rc =
     (remoteConnected rc \<and> (\<exists>c. rc_connection rc = Some c \<and> con_type c = ConnectionTypeTcpSocket \<and> con_connected c))"

lemmas rc_step_defs = rc_setState_def rc_emit_def rc_onConnectionChanged_def rc_call_def rc_send_def remoteConnected_def
  con_sendData_def con_slot_defs con_onStateChanged_def setConnected_def Let_def

lemma clientCalls_simps [simp]:
  "clientCalls N [] = []"
  "clientCalls N (RcSocket op # outs) = socketCall AtClient (ne_client N) (ne_clientPeer N) (ne_now N) op @ clientCalls N outs"
  "clientCalls N (RcStateChanged st # outs) = clientCalls N outs"
  "clientCalls N (RcRemoteConnectedChanged b # outs) = clientCalls N outs"
  "clientCalls N (RcDataReady d # outs) = clientCalls N outs"
  by (simp_all add: clientCalls_def)

definition clientHeard :: "remote_output list \<Rightarrow> bytes list" where
  "clientHeard outs = concat (map (\<lambda>out. case out of RcDataReady d \<Rightarrow> [d] | _ \<Rightarrow> []) outs)"

lemma clientHeard_simps [simp]:
  "clientHeard [] = []" "clientHeard (xs @ ys) = clientHeard xs @ clientHeard ys"
  "clientHeard (RcSocket op # outs) = clientHeard outs" "clientHeard (RcStateChanged st # outs) = clientHeard outs"
  "clientHeard (RcRemoteConnectedChanged b # outs) = clientHeard outs"
  "clientHeard (RcDataReady d # outs) = d # clientHeard outs"
  by (simp_all add: clientHeard_def)

lemma client_starts:
  assumes "pu_scheme url = ''tcp''"
  shows "\<exists>rc outs. rc_step E (newRemoteConnection u name ConnectionTypeTcpSocket) (RcConnect url v) = rc \<and>
    rc_connecting u name v rc \<and> rc_outputs rc = outs \<and> clientHeard outs = [] \<and>
    clientCalls N outs = [AtProxy (ClientConnected TransportTcp (ne_client N) (ne_clientPeer N) (ne_now N)),
      AtClient (SigState ConnectedState)]"
  using assms by (simp add: rc_connecting_def newRemoteConnection_def rc_connectServer_def rc_cleanUp_def rc_step_defs
      con_connectServer_def newConnection_def)

lemma client_says_hello:
  assumes "rc_connecting u name v rc"
  shows "\<exists>rc' outs. rc_step E rc (RcSignal (SigState ConnectedState)) = rc' \<and> rc_awaiting OnHelloFinished u name v rc' \<and>
    rc_outputs rc' = rc_outputs rc @ outs \<and> clientHeard outs = [] \<and>
    clientCalls N outs = [AtProxy (DataAvailable (ne_client N) (env_toJson E helloRequest @ [newline]))]"
  using assms
  by (auto simp: rc_connecting_def rc_awaiting_def rc_step_defs newJsonClient_def library_requests)

lemma client_hears_hello:
  assumes "rc_awaiting OnHelloFinished u name v rc" "good_reply E m r"
  shows "\<exists>rc' outs. rc_step E rc (RcSignal (SigData (m @ [newline]))) = rc' \<and> rc_awaiting OnRegistrationFinished u name v rc' \<and>
    rc_outputs rc' = rc_outputs rc @ outs \<and> clientHeard outs = [] \<and>
    clientCalls N outs = [AtProxy (DataAvailable (ne_client N) (env_toJson E (clientRequest E u name v) @ [newline]))]"
  using assms json_feed_message [of m]
  by (auto simp: rc_awaiting_def rc_step_defs library_requests good_reply_def jc_packets_def rc_onConnectionDataAvailable_def
      jc_processDataPacket_def jc_processMessage_def rc_onJsonSignal_def setResponse_def rc_onHelloFinished_def)

lemma client_is_open:
  assumes "rc_awaiting OnRegistrationFinished u name v rc" "good_reply E m r"
    "vtoString E (vvalue (vtoMap (vvalue r ''params'')) ''tunnelProxyError'') = ''TunnelProxyErrorNoError''"
  shows "\<exists>rc' outs. rc_step E rc (RcSignal (SigData (m @ [newline]))) = rc' \<and> rc_open rc' \<and>
    rc_outputs rc' = rc_outputs rc @ outs \<and> clientHeard outs = [] \<and> clientCalls N outs = []"
  using assms json_feed_message [of m]
  by (auto simp: rc_awaiting_def rc_open_def rc_step_defs good_reply_def jc_packets_def rc_onConnectionDataAvailable_def
      jc_processDataPacket_def jc_processMessage_def rc_onJsonSignal_def setResponse_def rc_onClientRegistrationFinished_def)

lemma client_writes:
  assumes "rc_open rc"
  shows "\<exists>rc'. rc_step E rc (RcSend d) = rc' \<and> rc_open rc' \<and> rc_outputs rc' = rc_outputs rc @ [RcSocket (OpWrite d)]"
  using assms by (auto simp: rc_open_def rc_sendData_def rc_step_defs)

lemma client_hears_server:
  assumes "rc_open rc"
  shows "\<exists>rc'. rc_step E rc (RcSignal (SigData d)) = rc' \<and> rc_open rc' \<and> rc_outputs rc' = rc_outputs rc @ [RcDataReady d]"
  using assms by (auto simp: rc_open_def rc_onConnectionDataAvailable_def rc_step_defs)

lemma client_leaves:
  assumes "rc_open rc"
  shows "\<exists>rc' outs. rc_step E rc RcDisconnect = rc' \<and> rc_open rc' \<and> rc_outputs rc' = rc_outputs rc @ outs \<and>
    clientHeard outs = [] \<and> clientCalls N outs = [AtProxy (ClientDisconnected (ne_client N)), AtClient SigDisconnected]"
  using assms by (auto simp: rc_open_def rc_disconnectServer_def con_disconnectServer_def rc_step_defs)

lemma client_is_closed:
  assumes "rc_open rc"
  shows "\<exists>rc' outs. rc_step E rc (RcSignal SigDisconnected) = rc' \<and> rc_state rc' = remote_state.StateDisconnected \<and>
    rc_outputs rc' = rc_outputs rc @ outs \<and> clientHeard outs = [] \<and> clientCalls N outs = [] \<and>
    RcRemoteConnectedChanged False \<in> set outs"
  using assms by (auto simp: rc_open_def rc_cleanUp_def rc_step_defs)

end
