(* ===== verification/Opening.thy ===== *)
theory Opening
  imports Handshake
begin

text \<open>
  A tunnel from its opening to its use: a server and a client of the library connect to the proxy, say
  Hello, register, and exchange data.
\<close>

section \<open>The proxy's side\<close>

text \<open>A connection that waits for a role, with an empty buffer.\<close>

definition idle :: "string \<Rightarrow> uuid \<Rightarrow> proxy_server \<Rightarrow> bool" where
  "idle peer k s =
     (\<exists>c. map_of (ps_proxyClients s) k = Some c \<and> pc_type c = TypeNone \<and> \<not> tc_killConnectionRequested c \<and>
        tc_dataBuffer c = [] \<and> tc_peerAddress c = peer \<and> tc_interface c = Some TransportTcp)"

definition readerOf :: "proxy_server \<Rightarrow> uuid \<Rightarrow> (bool \<times> bytes) option" where
  "readerOf s p = map_option (\<lambda>c. (tc_slipEnabled c, tc_dataBuffer c)) (map_of (ps_proxyClients s) p)"

text \<open>What a step of connection \<open>k\<close> leaves as it is.\<close>

definition beside :: "uuid \<Rightarrow> proxy_server \<Rightarrow> proxy_server \<Rightarrow> bool" where
  "beside k s t =
     (ps_configuration t = ps_configuration s \<and> rpc_handlers t = rpc_handlers s \<and>
      (\<forall>p. p \<noteq> k \<longrightarrow> readerOf t p = readerOf s p \<and> interfaceOf t p = interfaceOf s p))"

lemma beside_refl [simp]: "beside k s s"
  by (simp add: beside_def)

lemma beside_trans: "beside k s t \<Longrightarrow> beside k t u \<Longrightarrow> beside k s u"
  by (simp add: beside_def)

lemma config_kept [simp]:
  "ps_configuration (emit es s) = ps_configuration s" "ps_configuration (updClient k f s) = ps_configuration s"
  "ps_configuration (client_sendData k d s) = ps_configuration s"
  "ps_configuration (client_killConnection k r s) = ps_configuration s"
  "ps_configuration (sendJson k d s) = ps_configuration s"
  "ps_configuration (afterResponse k s) = ps_configuration s"
  by (simp_all add: emit_def updClient_def client_sendData_def client_killConnection_def sendJson_def afterResponse_def
      Let_def split_beta split: option.split)

lemma notificationId_kept [simp]:
  "rpc_notificationId (emit es s) = rpc_notificationId s" "rpc_notificationId (updClient k f s) = rpc_notificationId s"
  "rpc_notificationId (client_sendData k d s) = rpc_notificationId s"
  "rpc_notificationId (client_killConnection k r s) = rpc_notificationId s"
  "rpc_notificationId (sendJson k d s) = rpc_notificationId s"
  "rpc_notificationId (afterResponse k s) = rpc_notificationId s"
  by (simp_all add: emit_def updClient_def client_sendData_def client_killConnection_def sendJson_def afterResponse_def
      Let_def split_beta split: option.split)

lemma reader_sendData [simp]:
  "readerOf (client_sendData k d s) p = readerOf s p" "interfaceOf (client_sendData k d s) p = interfaceOf s p"
  by (auto simp: readerOf_def interfaceOf_def client_sendData_def tc_sendData_def addTxDataCount_def split: option.split)

lemma reader_sending [simp]:
  "readerOf (emit es s) p = readerOf s p" "interfaceOf (emit es s) p = interfaceOf s p"
  "readerOf (client_killConnection k r s) p = readerOf s p" "interfaceOf (client_killConnection k r s) p = interfaceOf s p"
  "readerOf (sendJson k d s) p = readerOf s p" "interfaceOf (sendJson k d s) p = interfaceOf s p"
  by (simp_all add: readerOf_def interfaceOf_def client_killConnection_def sendJson_def
      reader_sendData [unfolded readerOf_def interfaceOf_def] split: option.split)

lemma beside_upd: "(\<And>c. tc_slipEnabled (f c) = tc_slipEnabled c) \<Longrightarrow> beside k s (updClient k f s)"
  by (simp add: beside_def readerOf_def interfaceOf_def)

lemma beside_answer: "beside k s (answer E (Some (createReply h m data)) k i s)"
proof -
  have "beside k t (afterResponse k t)" for t
    by (auto simp: afterResponse_def beside_def readerOf_def interfaceOf_def split: option.split)
  moreover have "beside k s (sendResponse E k i data s)"
    by (simp add: beside_def sendResponse_def)
  ultimately show ?thesis
    using beside_trans by (simp add: answer_def createReply_def)
qed

lemma interface_answer: "interfaceOf (answer E (Some (createReply h m data)) k i s) p = interfaceOf s p"
proof -
  have "interfaceOf (updClient k (setSlipEnabled b) t) p = interfaceOf t p" for b t
    by (cases "map_of (ps_proxyClients t) k") (auto simp: interfaceOf_def setSlipEnabled_def)
  then have "interfaceOf (afterResponse k t) p = interfaceOf t p" for t
    by (simp add: afterResponse_def split: option.split)
  then show ?thesis by (simp add: answer_def createReply_def sendResponse_def)
qed

lemma notificationId_answer [simp]:
  "rpc_notificationId (answer E (Some (createReply h m data)) k i s) = rpc_notificationId s"
  by (simp add: answer_def createReply_def sendResponse_def)

text \<open>A connection comes.\<close>

lemma proxy_connects:
  assumes inv: "proxy_inv s" and k: "map_of (ps_proxyClients s) k = None"
  shows "\<exists>t. proxy_step E s (ClientConnected TransportTcp k peer now) = t \<and> proxy_inv t \<and> idle peer k t \<and>
    ps_effects t = ps_effects s \<and> beside k s t \<and> rpc_notificationId t = rpc_notificationId s \<and>
    ps_serverConnections t = ps_serverConnections s \<and> ps_clientConnections t = ps_clientConnections s \<and>
    ps_serverObjects t = ps_serverObjects s \<and> ps_clientObjects t = ps_clientObjects s"
  using proxy_inv_onClientConnected [OF inv, of TransportTcp k peer now] k
  by (auto simp: onClientConnected_def rpc_registerClient_def qcontains_def idle_def beside_def readerOf_def
      interfaceOf_def newTunnelProxyClient_def newTransportClient_def transport_client.defs)

text \<open>A JSON request in one chunk.\<close>

lemma proxy_reads:
  assumes inv: "proxy_inv s" and k: "idle peer k s" and m: "json_message m"
  shows "\<exists>t. proxy_step E s (DataAvailable k (m @ [newline])) = processDataPacket E k (m @ [newline]) t \<and> proxy_inv t \<and>
    idle peer k t \<and> core t = core s \<and> ps_effects t = ps_effects s \<and> beside k s t \<and>
    rpc_notificationId t = rpc_notificationId s"
proof -
  let ?d = "m @ [newline]"
  obtain c where c: "map_of (ps_proxyClients s) k = Some c" "pc_type c = TypeNone" "\<not> tc_killConnectionRequested c"
      "tc_dataBuffer c = []" "tc_peerAddress c = peer" "tc_interface c = Some TransportTcp"
    using k by (auto simp: idle_def)
  have slip: "\<not> tc_slipEnabled c" using proxy_inv_client(3) [OF inv c(1)] c(2) by auto
  let ?c = "client_addRxDataCount (int (length ?d)) c"
  let ?s = "updClient k (\<lambda>_. ?c) s"
  have rx: "tc_killConnectionRequested ?c = tc_killConnectionRequested c" "tc_peerAddress ?c = tc_peerAddress c"
    by (simp_all add: client_addRxDataCount_def addRxDataCount_def)
  have read: "processData ?d ?c = ([?d], ?c)"
    using json_feed_message [OF m] slip c(4) by (simp add: processData_def)
  have s: "proxy_inv ?s" "core ?s = core s" "map_of (ps_proxyClients ?s) k = Some ?c"
    using proxy_inv_updClient [OF inv c(1) clientCore_addRx] core_updClient_const [OF c(1) clientCore_addRx] c(1) by simp_all
  let ?t = "updClient k (\<lambda>_. ?c) ?s"
  have t: "proxy_inv ?t" "core ?t = core s"
    using proxy_inv_updClient [OF s(1,3) refl] core_updClient_const [OF s(3) refl] s(2) by simp_all
  have "k \<in> set (rpc_clients ?s)"
    using s(1,3) by (auto simp: proxy_inv_def clientCores_def)
  then have "proxy_step E s (DataAvailable k ?d) = processDataPacket E k ?d ?t"
    using c slip read by (simp add: onClientDataAvailable_def rpc_processData_def bufferSize_def maxBufferSize_def Let_def)
  moreover have "idle peer k ?t" using c rx by (simp add: idle_def)
  moreover have "beside k s ?t" by (simp add: beside_def readerOf_def interfaceOf_def)
  ultimately show ?thesis using t by (intro exI [of _ ?t]) simp
qed

text \<open>Hello, and the two registrations.\<close>

lemma reply_to_idle:
  assumes inv: "proxy_inv s" and c: "map_of (ps_proxyClients s) k = Some c" "tc_interface c = Some TransportTcp"
      "\<not> tc_slipEnabled c" "\<not> tc_killConnectionRequested c"
  shows "ps_effects (answer E (Some (createReply h m data)) k i s) =
    ps_effects s @ [SendData TransportTcp k (env_toJson E (responseMap i data) @ [newline])]"
  using answer_sync(1) [OF c(1,2) proxy_inv_client(1) [OF inv c(1)] c(4)] jsonPacket_slip [OF c(1)] c(3) by simp

lemma proxy_greets:
  assumes inv: "proxy_inv s" and k: "idle peer k s" and Q: "qt_json E num ms" "helloRequest \<in> set ms"
    and h: "handlerOf s ''RemoteProxy'' = Some newJsonRpcServer"
  shows "\<exists>t. proxy_step E s (DataAvailable k (env_toJson E helloRequest @ [newline])) = t \<and> proxy_inv t \<and> idle peer k t \<and>
    core t = core s \<and> beside k s t \<and> rpc_notificationId t = rpc_notificationId s \<and>
    ps_effects t = ps_effects s @ [SendData TransportTcp k (env_toJson E (helloReply E (ps_configuration s)) @ [newline])]"
proof -
  let ?d = "env_toJson E helloRequest @ [newline]"
  obtain t where t: "proxy_step E s (DataAvailable k ?d) = processDataPacket E k ?d t" "proxy_inv t"
    "idle peer k t" "core t = core s" "ps_effects t = ps_effects s" "beside k s t" "rpc_notificationId t = rpc_notificationId s"
    using proxy_reads [OF inv k qt_json_D(7) [OF Q], of E] by blast
  obtain c where c: "map_of (ps_proxyClients t) k = Some c" "pc_type c = TypeNone" "\<not> tc_killConnectionRequested c"
      "tc_dataBuffer c = []" "tc_peerAddress c = peer" "tc_interface c = Some TransportTcp"
    using t(3) by (auto simp: idle_def)
  have slip: "\<not> tc_slipEnabled c" "\<not> tc_slipAfterResponseEnabled c"
    using proxy_inv_client(3) [OF t(2) c(1)] c(2) by auto
  have "fst (validateParams E newJsonRpcServer ''Hello'' [])"
    by (simp add: validateParams_def reply_templates)
  then obtain msg where "validateParams E newJsonRpcServer ''Hello'' [] = (True, msg)"
    by (cases "validateParams E newJsonRpcServer ''Hello'' []") simp
  moreover have "handlerOf t ''RemoteProxy'' = Some newJsonRpcServer" "ps_configuration t = ps_configuration s"
    using t(6) h by (simp_all add: beside_def handlerOf_def)
  ultimately have step: "processDataPacket E k ?d t = answer E (Some (createReply remoteProxyName ''Hello''
      [(''server'', VString (env_SERVER_NAME_STRING E)), (''name'', VString (cfg_serverName (ps_configuration s))),
       (''version'', VString (env_SERVER_VERSION_STRING E)), (''apiVersion'', VString (env_API_VERSION_STRING E))])) k 0 t"
    using qt_json_D(8) [OF Q] qt_json_D(1) [OF Q(1)]
    by (simp add: processDataPacket_def processMessage_def processMethod_def message_defs vvalue_def remoteProxy_methods
        invokeMethod_def remoteProxy_tables Hello_def)
  let ?t = "processDataPacket E k ?d t"
  have "\<exists>d. map_of (ps_proxyClients (answer E (Some (createReply h m data)) k i t)) k = Some (fst (tc_sendData d c))" for h m data i
    using answer_sync(2) [OF c(1,6) proxy_inv_client(1) [OF t(2) c(1)] c(3), of E h m data i] slip(2) by simp
  then obtain d where d: "map_of (ps_proxyClients ?t) k = Some (fst (tc_sendData d c))"
    unfolding step by blast
  have "tc_dataBuffer (fst (tc_sendData d c)) = tc_dataBuffer c" "tc_peerAddress (fst (tc_sendData d c)) = tc_peerAddress c"
    by (simp_all add: tc_sendData_def addTxDataCount_def split: option.split)
  then have "idle peer k ?t" using d c by (simp add: idle_def)
  moreover have core: "core ?t = core s" unfolding step core_answer by (rule t(4))
  moreover have "proxy_inv ?t" by (rule proxy_inv_same [OF core inv])
  moreover have "beside k s ?t" unfolding step by (rule beside_trans [OF t(6) beside_answer])
  moreover have "ps_effects ?t = ps_effects s @ [SendData TransportTcp k (env_toJson E (helloReply E (ps_configuration s)) @ [newline])]"
    unfolding step reply_to_idle [OF t(2) c(1,6) slip(1) c(3)] t(5) helloReply_def by (rule refl)
  ultimately show ?thesis
    using t(1,7) by (intro exI [of _ ?t]) (simp add: step)
qed

lemma proxy_registers_server:
  assumes inv: "proxy_inv s" and k: "idle peer k s" and Q: "qt_json E num ms" "serverRequest E v name \<in> set ms"
    and h: "handlerOf s ''TunnelProxy'' = Some newTunnelProxyHandler" and v: "v \<noteq> nullUuid"
    and free: "map_of (ps_serverConnections s) v = None" "map_of (ps_clientConnections s) v = None"
  shows "\<exists>t. proxy_step E s (DataAvailable k (env_toJson E (serverRequest E v name) @ [newline])) = t \<and> proxy_inv t \<and>
    readerOf t k = Some (True, []) \<and> interfaceOf t k = Some TransportTcp \<and>
    serverConnectionOf t v = Some (k, newServerConnection k v name) \<and>
    map_of (ps_serverConnections t) = (map_of (ps_serverConnections s))(v \<mapsto> k) \<and>
    ps_clientConnections t = ps_clientConnections s \<and> beside k s t \<and> rpc_notificationId t = rpc_notificationId s \<and>
    ps_effects t = ps_effects s @ [SendData TransportTcp k (env_toJson E serverReply @ [newline])]"
proof -
  let ?d = "env_toJson E (serverRequest E v name) @ [newline]"
  obtain t where t: "proxy_step E s (DataAvailable k ?d) = processDataPacket E k ?d t" "proxy_inv t"
    "idle peer k t" "core t = core s" "ps_effects t = ps_effects s" "beside k s t" "rpc_notificationId t = rpc_notificationId s"
    using proxy_reads [OF inv k qt_json_D(7) [OF Q], of E] by blast
  obtain c where c: "map_of (ps_proxyClients t) k = Some c" "pc_type c = TypeNone" "\<not> tc_killConnectionRequested c"
      "tc_dataBuffer c = []" "tc_peerAddress c = peer" "tc_interface c = Some TransportTcp"
    using t(3) by (auto simp: idle_def)
  have slip: "\<not> tc_slipEnabled c" using proxy_inv_client(3) [OF t(2) c(1)] c(2) by auto
  note F = core_fields(1,2) [OF t(4)]
  have free': "map_of (ps_serverConnections t) v = None" "map_of (ps_clientConnections t) v = None"
    using free by (simp_all add: F)
  let ?f = "enableSlipAfterResponse \<circ> activateClient \<circ> setName name \<circ> setUuid v \<circ> setType TypeServer"
  define r where "r = snd (registerServer k v name t)"
  note success = registerServer_success [OF c(1,2) free', of name]
  have r: "map_of (ps_proxyClients r) k = Some (?f c)" "ps_effects r = ps_effects t"
      "serverConnectionOf r v = Some (k, newServerConnection k v name)"
      "ps_clientConnections r = ps_clientConnections t" "rpc_notificationId r = rpc_notificationId t"
      "map_of (ps_serverConnections r) = (map_of (ps_serverConnections t))(v \<mapsto> k)" "beside k t r"
    using c(1) by (simp_all add: r_def success serverConnectionOf_Some beside_def readerOf_def interfaceOf_def updClient_def)
  have "handlerOf t ''TunnelProxy'' = Some newTunnelProxyHandler"
    using t(6) h by (simp add: beside_def handlerOf_def)
  from registerServer_request [OF this requests_are_valid(1) [OF Q] _ v c(1,2) free'] qt_json_D(4) [OF Q(1)]
  have step: "processDataPacket E k ?d t = answer E (Some (createReply tunnelProxyName ''RegisterServer''
      [(''tunnelProxyError'', VString ''TunnelProxyErrorNoError''), (''slipEnabled'', VBool True)])) k 0 r"
    by (simp add: vvalue_def r_def)
  have "proxy_inv r" unfolding r_def by (rule proxy_inv_registerServer [OF t(2) v])
  let ?t = "processDataPacket E k ?d t"
  have core: "core ?t = core r" unfolding step by (rule core_answer)
  have buffer: "tc_dataBuffer (?f c) = tc_dataBuffer c"
    by (simp add: setType_def activateClient_def transport_client_defs Let_def)
  note A = answer_sync [OF r(1), unfolded becomeServer_fields, OF c(6) proxy_inv_client(1) [OF t(2) c(1)] c(3)]
  obtain d where "map_of (ps_proxyClients ?t) k = Some (setSlipEnabled True (fst (tc_sendData d (?f c))))"
    unfolding step using A(2) unfolding if_P [OF becomeServer_fields(5)] by blast
  moreover have "tc_dataBuffer (fst (tc_sendData d x)) = tc_dataBuffer x" for x :: tunnel_proxy_client
    by (simp add: tc_sendData_def addTxDataCount_def split: option.split)
  ultimately have "readerOf ?t k = Some (True, [])" "interfaceOf ?t k = Some TransportTcp"
    using buffer c(4,6) becomeServer_fields(1) [of name v c]
    by (simp_all add: readerOf_def interfaceOf_def setSlipEnabled_def del: o_apply)
  moreover have "proxy_inv ?t" by (rule proxy_inv_same [OF core \<open>proxy_inv r\<close>])
  moreover have "beside k s ?t"
    using beside_trans [OF t(6) beside_trans [OF r(7) beside_answer]] unfolding step by blast
  moreover have "ps_effects ?t = ps_effects s @ [SendData TransportTcp k (env_toJson E serverReply @ [newline])]"
  proof -
    have "jsonPacket r k x = x @ [newline]" for x
      using jsonPacket_slip [OF r(1)] slip by (simp only: becomeServer_fields if_False)
    then show ?thesis unfolding step A(1) r(2) t(5) serverReply_def by simp
  qed
  moreover have "serverConnectionOf ?t v = Some (k, newServerConnection k v name)"
    "map_of (ps_serverConnections ?t) = (map_of (ps_serverConnections s))(v \<mapsto> k)" "ps_clientConnections ?t = ps_clientConnections s"
    using r(3,4,6) unfolding serverConnectionOf_Some core_fields [OF core] by (simp_all add: F)
  moreover have "rpc_notificationId ?t = rpc_notificationId s" by (simp add: step r(5) t(7))
  ultimately show ?thesis using t(1) by (intro exI [of _ ?t]) simp
qed

lemma proxy_registers_client:
  assumes inv: "proxy_inv s" and k: "idle peer k s" and Q: "qt_json E num ms" "clientRequest E u name v \<in> set ms"
    and h: "handlerOf s ''TunnelProxy'' = Some newTunnelProxyHandler" and u: "u \<noteq> nullUuid" "v \<noteq> nullUuid"
    and free: "map_of (ps_clientConnections s) u = None" "map_of (ps_serverConnections s) u = None"
    and q: "serverConnectionOf s v = Some (q, sc)" "readerOf s q = Some (True, buffer)" "interfaceOf s q = Some TransportTcp"
    and a: "a = fst (getFreeAddress sc)"
  shows "\<exists>t cc. proxy_step E s (DataAvailable k (env_toJson E (clientRequest E u name v) @ [newline])) = t \<and> proxy_inv t \<and>
    ps_effects t = ps_effects s @
      [SendData TransportTcp q (serializeData (buildFrame \<lparr>fr_socketAddress = 0,
         fr_data = env_toJson E (clientNews E (rpc_notificationId s) u name peer a) @ [newline]\<rparr>)),
       SendData TransportTcp k (env_toJson E clientReply @ [newline])] \<and>
    map_of (ps_clientObjects t) k = Some cc \<and> cc_serverConnection cc = Some q \<and> cc_socketAddress cc = a \<and>
    (\<exists>sc'. map_of (ps_serverObjects t) q = Some sc' \<and> getClientConnection sc' a = Some k) \<and>
    readerOf t q = Some (True, buffer) \<and> interfaceOf t q = Some TransportTcp \<and> interfaceOf t k = Some TransportTcp \<and>
    rpc_notificationId t = rpc_notificationId s + 1"
proof -
  let ?d = "env_toJson E (clientRequest E u name v) @ [newline]"
  obtain t where t: "proxy_step E s (DataAvailable k ?d) = processDataPacket E k ?d t" "proxy_inv t"
    "idle peer k t" "core t = core s" "ps_effects t = ps_effects s" "beside k s t" "rpc_notificationId t = rpc_notificationId s"
    using proxy_reads [OF inv k qt_json_D(7) [OF Q], of E] by blast
  obtain c where c: "map_of (ps_proxyClients t) k = Some c" "pc_type c = TypeNone" "\<not> tc_killConnectionRequested c"
      "tc_dataBuffer c = []" "tc_peerAddress c = peer" "tc_interface c = Some TransportTcp"
    using t(3) by (auto simp: idle_def)
  have slip: "\<not> tc_slipEnabled c" using proxy_inv_client(3) [OF t(2) c(1)] c(2) by auto
  note F = core_fields(1-4) [OF t(4)]
  have free': "map_of (ps_clientConnections t) u = None" "map_of (ps_serverConnections t) u = None"
      "serverConnectionOf t v = Some (q, sc)"
    using free q(1) by (simp_all add: F serverConnectionOf_Some)
  have sc: "map_of (ps_serverObjects t) q = Some sc" using free'(3) by (simp add: serverConnectionOf_Some)
  have "q \<noteq> k" using registry_server_object [OF t(2) sc] c(1,2) by auto
  then have reader: "readerOf t q = Some (True, buffer)" "interfaceOf t q = Some TransportTcp"
    using t(6) q(2,3) by (simp_all add: beside_def)
  define r where "r = snd (registerClient E k u name v t)"
  note R = registerClient_effects [OF t(2) c(1,2) free' r_def a]
  have "registerClient E k u name v t = (TunnelProxyErrorNoError, r)"
    using R(1) by (simp add: r_def prod_eq_iff)
  moreover have "handlerOf t ''TunnelProxy'' = Some newTunnelProxyHandler"
    using t(6) h by (simp add: beside_def handlerOf_def)
  ultimately have step: "processDataPacket E k ?d t = answer E (Some (createReply tunnelProxyName ''RegisterClient''
      [(''tunnelProxyError'', VString ''TunnelProxyErrorNoError'')])) k 0 r"
    using registerClient_request [OF _ requests_are_valid(2) [OF Q] _ u(1) _ u(2)] qt_json_D(4) [OF Q(1)]
    by (simp add: vvalue_def)
  let ?t = "processDataPacket E k ?d t"
  have inv_r: "proxy_inv r" unfolding r_def by (rule proxy_inv_registerClient [OF t(2) u(1)])
  have core: "core ?t = core r" unfolding step by (rule core_answer)
  note A = answer_sync [OF R(3), unfolded becomeClient_fields, OF c(6) proxy_inv_client(1) [OF t(2) c(1)] c(3)]
  have packet: "jsonPacket r k x = x @ [newline]" for x
    using jsonPacket_slip [OF R(3)] slip by (simp only: becomeClient_fields if_False)
  have frame: "jsonPacket t q x = serializeData (buildFrame \<lparr>fr_socketAddress = 0, fr_data = x @ [newline]\<rparr>)" for x
    using reader(1) by (auto simp: readerOf_def jsonPacket_def)
  have effects: "ps_effects ?t = ps_effects s @
      [SendData TransportTcp q (serializeData (buildFrame \<lparr>fr_socketAddress = 0,
         fr_data = env_toJson E (clientNews E (rpc_notificationId s) u name peer a) @ [newline]\<rparr>)),
       SendData TransportTcp k (env_toJson E clientReply @ [newline])]"
    unfolding step A(1) packet R(2) frame t(5,7) clientNews_def clientReply_def c(5) reader(2) by simp
  obtain cc where cc: "map_of (ps_clientObjects r) k = Some cc" "cc_serverConnection cc = Some q"
    using R(4) by (auto simp: tunnelOf_def bind_eq_Some_conv)
  obtain sc' where sc': "map_of (ps_serverObjects r) q = Some sc'" "getClientConnection sc' a = Some k"
    using R(5) by blast
  have "cc_socketAddress cc = a" using getClientConnection_own [OF inv_r sc'] cc by auto
  moreover have "readerOf ?t q = Some (True, buffer)" "interfaceOf ?t q = Some TransportTcp"
  proof -
    have "readerOf r q = readerOf t q" "interfaceOf r q = interfaceOf t q"
      using \<open>q \<noteq> k\<close> by (auto simp: r_def registerClient_def sendNotification_def Let_def split_beta readerOf_def
          interfaceOf_def reader_sending [unfolded readerOf_def interfaceOf_def] split: option.split)
    then show "readerOf ?t q = Some (True, buffer)" "interfaceOf ?t q = Some TransportTcp"
      using beside_answer [of k r] \<open>q \<noteq> k\<close> reader unfolding step beside_def by simp_all
  qed
  moreover have "interfaceOf ?t k = Some TransportTcp"
    unfolding step interface_answer
    using R(3) c(6) becomeClient_fields(1) [of name u c] by (simp add: interfaceOf_def del: o_apply)
  moreover have "rpc_notificationId ?t = rpc_notificationId s + 1"
  proof -
    have "rpc_notificationId r = rpc_notificationId t + 1"
      using c(1,2) free' by (simp add: r_def registerClient_def sendNotification_def qcontains_def Let_def split_beta)
    then show ?thesis unfolding step by (simp add: t(7))
  qed
  ultimately show ?thesis
    using t(1) effects cc sc' proxy_inv_same [OF core inv_r]
    by (intro exI [of _ ?t] exI [of _ cc]) (simp add: core_fields(3,4) [OF core])
qed

section \<open>The network\<close>

lemma settle_proxy:
  "nw_proxy nw = s \<Longrightarrow> proxy_step E s e = t \<Longrightarrow> ps_effects t = ps_effects s @ es \<Longrightarrow>
     nw_settles E N (nw\<lparr>nw_proxy := t\<rparr>, ds @ concat (map (effectSignals N) es)) nw' \<Longrightarrow>
     nw_settles E N (nw, AtProxy e # ds) nw'"
  by (rule nw_settles_step) (auto simp: newEffects_def Let_def)

lemma settle_server:
  "nw_server nw = ss0 \<Longrightarrow> ss_step E ss0 (SsSignal sig) = ss \<Longrightarrow> ss_outputs ss = ss_outputs ss0 @ outs \<Longrightarrow>
     serverCalls N outs = calls \<Longrightarrow> nw_settles E N (nw\<lparr>nw_server := ss\<rparr>, ds @ calls) nw' \<Longrightarrow>
     nw_settles E N (nw, AtServer sig # ds) nw'"
  by (rule nw_settles_step) (auto simp: nw_serverEvent_def Let_def)

lemma settle_client:
  "nw_client nw = rc0 \<Longrightarrow> rc_step E rc0 (RcSignal sig) = rc \<Longrightarrow> rc_outputs rc = rc_outputs rc0 @ outs \<Longrightarrow>
     clientCalls N outs = calls \<Longrightarrow> nw_settles E N (nw\<lparr>nw_client := rc\<rparr>, ds @ calls) nw' \<Longrightarrow>
     nw_settles E N (nw, AtClient sig # ds) nw'"
  by (rule nw_settles_step) (auto simp: nw_clientEvent_def Let_def)

lemma server_event:
  "ss_step E (nw_server nw) e = ss \<Longrightarrow> ss_outputs ss = ss_outputs (nw_server nw) @ outs \<Longrightarrow>
     nw_serverEvent E N e nw = (nw\<lparr>nw_server := ss\<rparr>, serverCalls N outs)"
  by (auto simp: nw_serverEvent_def Let_def)

lemma client_event:
  "rc_step E (nw_client nw) e = rc \<Longrightarrow> rc_outputs rc = rc_outputs (nw_client nw) @ outs \<Longrightarrow>
     nw_clientEvent E N e nw = (nw\<lparr>nw_client := rc\<rparr>, clientCalls N outs)"
  by (auto simp: nw_clientEvent_def Let_def)

text \<open>A server goes online.\<close>

lemma server_goes_online:
  assumes s: "proxy_inv s" "map_of (ps_proxyClients s) (ne_server N) = None"
      "handlerOf s ''RemoteProxy'' = Some newJsonRpcServer" "handlerOf s ''TunnelProxy'' = Some newTunnelProxyHandler"
    and v: "v \<noteq> nullUuid" "map_of (ps_serverConnections s) v = None" "map_of (ps_clientConnections s) v = None"
    and url: "pu_scheme url = ''tcp''" "pu_valid url"
    and Q: "qt_json E num ms"
      "{helloRequest, helloReply E (ps_configuration s), serverRequest E v name, serverReply} \<subseteq> set ms"
    and nw: "nw_proxy nw = s" "nw_server nw = newSocketServer v name ConnectionTypeTcpSocket"
  shows "\<exists>t ss. nw_settles E N (nw_serverEvent E N (SsStart url) nw) (nw\<lparr>nw_proxy := t, nw_server := ss\<rparr>) \<and>
    ss_online ss \<and> serverHeard (ss_outputs ss) = [] \<and> proxy_inv t \<and> readerOf t (ne_server N) = Some (True, []) \<and> interfaceOf t (ne_server N) = Some TransportTcp \<and>
    serverConnectionOf t v = Some (ne_server N, newServerConnection (ne_server N) v name) \<and>
    map_of (ps_serverConnections t) = (map_of (ps_serverConnections s))(v \<mapsto> ne_server N) \<and>
    ps_clientConnections t = ps_clientConnections s \<and> beside (ne_server N) s t \<and> rpc_notificationId t = rpc_notificationId s"
proof -
  let ?q = "ne_server N"
  have ms: "helloRequest \<in> set ms" "helloReply E (ps_configuration s) \<in> set ms" "serverRequest E v name \<in> set ms" "serverReply \<in> set ms"
    using Q(2) by auto
  obtain ss0 outs0 where a0: "ss_step E (nw_server nw) (SsStart url) = ss0" "ss_connecting v name ss0" "ss_outputs ss0 = outs0" "serverHeard outs0 = []"
      "serverCalls N outs0 = [AtProxy (ClientConnected TransportTcp ?q (ne_serverPeer N) (ne_now N)), AtServer (SigState ConnectedState)]"
    using server_starts [OF url, of E v name N] unfolding nw(2) by blast
  obtain t1 where t1: "proxy_step E s (ClientConnected TransportTcp ?q (ne_serverPeer N) (ne_now N)) = t1" "proxy_inv t1"
      "idle (ne_serverPeer N) ?q t1" "ps_effects t1 = ps_effects s @ []" "beside ?q s t1" "rpc_notificationId t1 = rpc_notificationId s"
      "ps_serverConnections t1 = ps_serverConnections s" "ps_clientConnections t1 = ps_clientConnections s"
    using proxy_connects [OF s(1,2), of E "ne_serverPeer N" "ne_now N"] by auto
  obtain ss1 outs1 where a1: "ss_step E ss0 (SsSignal (SigState ConnectedState)) = ss1" "ss_awaiting OnHelloFinished v name ss1"
      "ss_outputs ss1 = ss_outputs ss0 @ outs1" "serverHeard outs1 = []" "serverCalls N outs1 = [AtProxy (DataAvailable ?q (env_toJson E helloRequest @ [newline]))]"
    using server_says_hello [OF a0(2)] by blast
  have h1: "handlerOf t1 ''RemoteProxy'' = Some newJsonRpcServer" "ps_configuration t1 = ps_configuration s"
    using s(3) t1(5) by (simp_all add: handlerOf_def beside_def)
  obtain t2 where t2: "proxy_step E t1 (DataAvailable ?q (env_toJson E helloRequest @ [newline])) = t2" "proxy_inv t2"
      "idle (ne_serverPeer N) ?q t2" "core t2 = core t1" "beside ?q t1 t2" "rpc_notificationId t2 = rpc_notificationId t1"
      "ps_effects t2 = ps_effects t1 @ [SendData TransportTcp ?q (env_toJson E (helloReply E (ps_configuration s)) @ [newline])]"
    using proxy_greets [OF t1(2,3) Q(1) ms(1) h1(1)] unfolding h1(2) by blast
  obtain r where r: "good_reply E (env_toJson E (helloReply E (ps_configuration s))) r"
    using replies_are_good(1) [OF Q(1) ms(2)] by blast
  obtain ss2 outs2 where a2: "ss_step E ss1 (SsSignal (SigData (env_toJson E (helloReply E (ps_configuration s)) @ [newline]))) = ss2"
      "ss_awaiting OnRegistrationFinished v name ss2" "ss_outputs ss2 = ss_outputs ss1 @ outs2" "serverHeard outs2 = []"
      "serverCalls N outs2 = [AtProxy (DataAvailable ?q (env_toJson E (serverRequest E v name) @ [newline]))]"
    using server_hears_hello [OF a1(2) r] by blast
  have h2: "handlerOf t2 ''TunnelProxy'' = Some newTunnelProxyHandler"
    using s(4) t1(5) t2(5) by (simp add: handlerOf_def beside_def)
  have free: "map_of (ps_serverConnections t2) v = None" "map_of (ps_clientConnections t2) v = None"
    using v(2,3) by (simp_all add: core_fields(1,2) [OF t2(4)] t1(7,8))
  obtain t3 where t3: "proxy_step E t2 (DataAvailable ?q (env_toJson E (serverRequest E v name) @ [newline])) = t3" "proxy_inv t3"
      "readerOf t3 ?q = Some (True, [])" "interfaceOf t3 ?q = Some TransportTcp"
      "serverConnectionOf t3 v = Some (?q, newServerConnection ?q v name)"
      "map_of (ps_serverConnections t3) = (map_of (ps_serverConnections t2))(v \<mapsto> ?q)"
      "ps_clientConnections t3 = ps_clientConnections t2" "beside ?q t2 t3" "rpc_notificationId t3 = rpc_notificationId t2"
      "ps_effects t3 = ps_effects t2 @ [SendData TransportTcp ?q (env_toJson E serverReply @ [newline])]"
    using proxy_registers_server [OF t2(2,3) Q(1) ms(3) h2 v(1) free] by blast
  obtain r' where r': "good_reply E (env_toJson E serverReply) r'"
      "vtoString E (vvalue (vtoMap (vvalue r' ''params'')) ''tunnelProxyError'') = ''TunnelProxyErrorNoError''"
    using replies_are_good(2) [OF Q(1) ms(4)] by blast
  obtain ss3 outs3 where a3: "ss_step E ss2 (SsSignal (SigData (env_toJson E serverReply @ [newline]))) = ss3" "ss_online ss3"
      "ss_outputs ss3 = ss_outputs ss2 @ outs3" "serverHeard outs3 = []" "serverCalls N outs3 = []"
    using server_is_online [OF a2(2) r'] by blast
  let ?nw = "nw\<lparr>nw_proxy := t3, nw_server := ss3\<rparr>"
  have "nw_serverEvent E N (SsStart url) nw = (nw\<lparr>nw_server := ss0\<rparr>,
      [AtProxy (ClientConnected TransportTcp ?q (ne_serverPeer N) (ne_now N)), AtServer (SigState ConnectedState)])"
    using server_event [OF a0(1), of outs0 N] a0(3,5) nw(2) by (simp add: newSocketServer_def)
  moreover have "nw_settles E N (nw\<lparr>nw_server := ss0\<rparr>,
      [AtProxy (ClientConnected TransportTcp ?q (ne_serverPeer N) (ne_now N)), AtServer (SigState ConnectedState)]) ?nw"
    apply (rule settle_proxy [OF _ t1(1,4)], simp add: nw(1), simp)
    apply (rule settle_server [OF _ a1(1,3,5)], simp, simp)
    apply (rule settle_proxy [OF _ t2(1,7)], simp, simp)
    apply (rule settle_server [OF _ a2(1,3,5)], simp, simp)
    apply (rule settle_proxy [OF _ t3(1,10)], simp, simp)
    apply (rule settle_server [OF _ a3(1,3,5)], simp, simp add: nw_settles_done)
    done
  moreover have "beside ?q s t3" by (rule beside_trans [OF t1(5) beside_trans [OF t2(5) t3(8)]])
  ultimately show ?thesis
    using a0(3,4) a1(3,4) a2(3,4) a3(2-4) t3 t2(6) t1(6) core_fields(1,2) [OF t2(4)] t1(7,8)
    by (intro exI [of _ t3] exI [of _ ss3]) simp
qed

text \<open>An open tunnel: the client has the socket \<open>a\<close> of the server, nothing is half read, and the next
  notification has the id \<open>n\<close>.\<close>

definition nw_open :: "network_ends \<Rightarrow> quint16 \<Rightarrow> int \<Rightarrow> tunnel_network \<Rightarrow> bool" where
  "nw_open N a n nw =
     (proxy_inv (nw_proxy nw) \<and> ss_online (nw_server nw) \<and> rc_open (nw_client nw) \<and> ne_server N \<noteq> ne_client N \<and> a \<noteq> 0 \<and>
      rpc_notificationId (nw_proxy nw) = n \<and> readerOf (nw_proxy nw) (ne_server N) = Some (True, []) \<and>
      interfaceOf (nw_proxy nw) (ne_server N) = Some TransportTcp \<and> interfaceOf (nw_proxy nw) (ne_client N) = Some TransportTcp \<and>
      (\<exists>cc sc x. map_of (ps_clientObjects (nw_proxy nw)) (ne_client N) = Some cc \<and>
        cc_serverConnection cc = Some (ne_server N) \<and> cc_socketAddress cc = a \<and>
        map_of (ps_serverObjects (nw_proxy nw)) (ne_server N) = Some sc \<and> getClientConnection sc a = Some (ne_client N) \<and>
        map_of (ss_tunnelProxySockets (nw_server nw)) a = Some x \<and> ts_socketAddress x = a))"

text \<open>A client opens a tunnel.\<close>

lemma client_opens_tunnel:
  assumes s: "proxy_inv s" "map_of (ps_proxyClients s) (ne_client N) = None"
      "handlerOf s ''RemoteProxy'' = Some newJsonRpcServer" "handlerOf s ''TunnelProxy'' = Some newTunnelProxyHandler"
    and q: "ne_server N \<noteq> ne_client N" "serverConnectionOf s v = Some (ne_server N, sc)"
      "readerOf s (ne_server N) = Some (True, [])" "interfaceOf s (ne_server N) = Some TransportTcp"
    and a: "a = fst (getFreeAddress sc)" "a \<noteq> 0"
    and u: "u \<noteq> nullUuid" "v \<noteq> nullUuid" "map_of (ps_clientConnections s) u = None" "map_of (ps_serverConnections s) u = None"
    and url: "pu_scheme url = ''tcp''"
    and n: "- (2 ^ 31) \<le> rpc_notificationId s" "rpc_notificationId s < 2 ^ 31"
    and Q: "qt_json E num ms" "{helloRequest, helloReply E (ps_configuration s), clientRequest E u app v, clientReply,
      clientNews E (rpc_notificationId s) u app (ne_clientPeer N) a} \<subseteq> set ms"
    and nw: "nw_proxy nw = s" "nw_client nw = newRemoteConnection u app ConnectionTypeTcpSocket" "ss_online (nw_server nw)"
  shows "\<exists>nw'. nw_settles E N (nw_clientEvent E N (RcConnect url v) nw) nw' \<and> nw_open N a (rpc_notificationId s + 1) nw' \<and>
    ss_outputs (nw_server nw') =
      ss_outputs (nw_server nw) @ [SsClientConnected (newTunnelProxySocket app u (ne_clientPeer N) a)] \<and>
    clientHeard (rc_outputs (nw_client nw')) = []"
proof -
  let ?q = "ne_server N" and ?k = "ne_client N" and ?p = "ne_clientPeer N"
  have ms: "helloRequest \<in> set ms" "helloReply E (ps_configuration s) \<in> set ms" "clientRequest E u app v \<in> set ms"
      "clientReply \<in> set ms" "clientNews E (rpc_notificationId s) u app ?p a \<in> set ms"
    using Q(2) by auto
  obtain rc0 outs0 where a0: "rc_step E (nw_client nw) (RcConnect url v) = rc0" "rc_connecting u app v rc0" "rc_outputs rc0 = outs0"
      "clientHeard outs0 = []"
      "clientCalls N outs0 = [AtProxy (ClientConnected TransportTcp ?k ?p (ne_now N)), AtClient (SigState ConnectedState)]"
    using client_starts [OF url, of E u app v N] unfolding nw(2) by blast
  obtain t1 where t1: "proxy_step E s (ClientConnected TransportTcp ?k ?p (ne_now N)) = t1" "proxy_inv t1"
      "idle ?p ?k t1" "ps_effects t1 = ps_effects s @ []" "beside ?k s t1" "rpc_notificationId t1 = rpc_notificationId s"
      "ps_serverConnections t1 = ps_serverConnections s" "ps_clientConnections t1 = ps_clientConnections s"
      "ps_serverObjects t1 = ps_serverObjects s"
    using proxy_connects [OF s(1,2), of E ?p "ne_now N"] by auto
  obtain rc1 outs1 where a1: "rc_step E rc0 (RcSignal (SigState ConnectedState)) = rc1" "rc_awaiting OnHelloFinished u app v rc1"
      "rc_outputs rc1 = rc_outputs rc0 @ outs1" "clientHeard outs1 = []"
      "clientCalls N outs1 = [AtProxy (DataAvailable ?k (env_toJson E helloRequest @ [newline]))]"
    using client_says_hello [OF a0(2)] by blast
  have h1: "handlerOf t1 ''RemoteProxy'' = Some newJsonRpcServer" "ps_configuration t1 = ps_configuration s"
    using s(3) t1(5) by (simp_all add: handlerOf_def beside_def)
  obtain t2 where t2: "proxy_step E t1 (DataAvailable ?k (env_toJson E helloRequest @ [newline])) = t2" "proxy_inv t2"
      "idle ?p ?k t2" "core t2 = core t1" "beside ?k t1 t2" "rpc_notificationId t2 = rpc_notificationId t1"
      "ps_effects t2 = ps_effects t1 @ [SendData TransportTcp ?k (env_toJson E (helloReply E (ps_configuration s)) @ [newline])]"
    using proxy_greets [OF t1(2,3) Q(1) ms(1) h1(1)] unfolding h1(2) by blast
  obtain r where r: "good_reply E (env_toJson E (helloReply E (ps_configuration s))) r"
    using replies_are_good(1) [OF Q(1) ms(2)] by blast
  obtain rc2 outs2 where a2: "rc_step E rc1 (RcSignal (SigData (env_toJson E (helloReply E (ps_configuration s)) @ [newline]))) = rc2"
      "rc_awaiting OnRegistrationFinished u app v rc2" "rc_outputs rc2 = rc_outputs rc1 @ outs2" "clientHeard outs2 = []"
      "clientCalls N outs2 = [AtProxy (DataAvailable ?k (env_toJson E (clientRequest E u app v) @ [newline]))]"
    using client_hears_hello [OF a1(2) r] by blast
  have h2: "handlerOf t2 ''TunnelProxy'' = Some newTunnelProxyHandler"
    using s(4) t1(5) t2(5) by (simp add: handlerOf_def beside_def)
  have free: "map_of (ps_clientConnections t2) u = None" "map_of (ps_serverConnections t2) u = None"
      "serverConnectionOf t2 v = Some (?q, sc)"
    using u(3,4) q(2) by (simp_all add: serverConnectionOf_Some core_fields(1-3) [OF t2(4)] t1(7-9))
  have reader: "readerOf t2 ?q = Some (True, [])" "interfaceOf t2 ?q = Some TransportTcp"
    using q(1,3,4) t1(5) t2(5) by (simp_all add: beside_def)
  obtain t3 cc sc' where t3: "proxy_step E t2 (DataAvailable ?k (env_toJson E (clientRequest E u app v) @ [newline])) = t3" "proxy_inv t3"
      "ps_effects t3 = ps_effects t2 @
        [SendData TransportTcp ?q (serializeData (buildFrame \<lparr>fr_socketAddress = 0,
           fr_data = env_toJson E (clientNews E (rpc_notificationId s) u app ?p a) @ [newline]\<rparr>)),
         SendData TransportTcp ?k (env_toJson E clientReply @ [newline])]"
      "map_of (ps_clientObjects t3) ?k = Some cc" "cc_serverConnection cc = Some ?q" "cc_socketAddress cc = a"
      "map_of (ps_serverObjects t3) ?q = Some sc'" "getClientConnection sc' a = Some ?k"
      "readerOf t3 ?q = Some (True, [])" "interfaceOf t3 ?q = Some TransportTcp" "interfaceOf t3 ?k = Some TransportTcp"
      "rpc_notificationId t3 = rpc_notificationId s + 1"
    using proxy_registers_client [OF t2(2,3) Q(1) ms(3) h2 u(1,2) free reader a(1)] unfolding t2(6) t1(6) by blast
  obtain ss where b: "ss_step E (nw_server nw) (SsSignal (SigData (serializeData (buildFrame
      \<lparr>fr_socketAddress = 0, fr_data = env_toJson E (clientNews E (rpc_notificationId s) u app ?p a) @ [newline]\<rparr>)))) = ss"
      "ss_online ss" "ss_outputs ss = ss_outputs (nw_server nw) @ [SsClientConnected (newTunnelProxySocket app u ?p a)]"
      "map_of (ss_tunnelProxySockets ss) a = Some (newTunnelProxySocket app u ?p a)"
    using server_hears_of_client [OF nw(3) Q(1) ms(5) n] by blast
  obtain r' where r': "good_reply E (env_toJson E clientReply) r'"
      "vtoString E (vvalue (vtoMap (vvalue r' ''params'')) ''tunnelProxyError'') = ''TunnelProxyErrorNoError''"
    using replies_are_good(3) [OF Q(1) ms(4)] by blast
  obtain rc3 outs3 where a3: "rc_step E rc2 (RcSignal (SigData (env_toJson E clientReply @ [newline]))) = rc3" "rc_open rc3"
      "rc_outputs rc3 = rc_outputs rc2 @ outs3" "clientHeard outs3 = []" "clientCalls N outs3 = []"
    using client_is_open [OF a2(2) r'] by blast
  let ?nw = "nw\<lparr>nw_proxy := t3, nw_server := ss, nw_client := rc3\<rparr>"
  have "nw_clientEvent E N (RcConnect url v) nw = (nw\<lparr>nw_client := rc0\<rparr>,
      [AtProxy (ClientConnected TransportTcp ?k ?p (ne_now N)), AtClient (SigState ConnectedState)])"
    using client_event [OF a0(1), of outs0 N] a0(3,5) nw(2) by (simp add: newRemoteConnection_def)
  moreover have "nw_settles E N (nw\<lparr>nw_client := rc0\<rparr>,
      [AtProxy (ClientConnected TransportTcp ?k ?p (ne_now N)), AtClient (SigState ConnectedState)]) ?nw"
    apply (rule settle_proxy [OF _ t1(1,4)], simp add: nw(1), simp)
    apply (rule settle_client [OF _ a1(1,3,5)], simp, simp)
    apply (rule settle_proxy [OF _ t2(1,7)], simp, simp add: q(1) q(1) [symmetric])
    apply (rule settle_client [OF _ a2(1,3,5)], simp, simp)
    apply (rule settle_proxy [OF _ t3(1,3)], simp, simp add: q(1) q(1) [symmetric])
    apply (rule settle_server [OF _ b(1,3) refl], simp, simp)
    apply (rule settle_client [OF _ a3(1,3,5)], simp, simp add: nw_settles_done)
    done
  moreover have "nw_open N a (rpc_notificationId s + 1) ?nw"
    using t3(2,4-12) a3(2) b(2,4) q(1) a(2) by (simp add: nw_open_def newTunnelProxySocket_def)
  ultimately show ?thesis
    using a0(3,4) a1(3,4) a2(3,4) a3(3,4) b(3) by (intro exI [of _ ?nw]) simp
qed

end
