(* ===== verification/Session.thy ===== *)
theory Session
  imports Opening
begin

text \<open>
  Sessions: the calls of two applications, each worked through by the network before the next.
\<close>

section \<open>Data through an open tunnel\<close>

lemma reader_of_others:
  assumes inv: "proxy_inv s" and cc: "map_of (ps_clientObjects s) k = Some cc" and p: "p \<noteq> k"
  shows "readerOf (onClientDataAvailable E k data s) p = readerOf s p"
proof -
  obtain c where c: "map_of (ps_proxyClients s) k = Some c" "pc_type c = TypeClient"
    using registry_client_object [OF inv cc] by blast
  have "readerOf (tunnelToServer x data t) p = readerOf t p" for x t
    by (auto simp: tunnelToServer_def readerOf_def addThroughput_def client_sendData_def tc_sendData_def
        addTxDataCount_def split: option.split)
  moreover have "readerOf (updClient k f s) p = readerOf s p" for f
    using p by (simp add: readerOf_def)
  ultimately show ?thesis
    using c by (simp add: onClientDataAvailable_def Let_def)
qed

text \<open>Data needs no notification.\<close>

lemma notificationId_frames:
  "\<forall>f \<in> set fs. fr_socketAddress (parseFrame f) \<noteq> 0 \<Longrightarrow>
     rpc_notificationId (processFrames E q u fs s) = rpc_notificationId s"
  by (induction fs arbitrary: s) (simp_all add: processFrame_def addThroughput_def Let_def split: option.split)

lemma notificationId_server_data:
  assumes "map_of (ps_proxyClients s) q = Some c" "pc_type c = TypeServer" "tc_slipEnabled c"
    and "slip_loop (tc_dataBuffer c) data = (fs, rest)" "\<forall>f \<in> set fs. fr_socketAddress (parseFrame f) \<noteq> 0"
  shows "rpc_notificationId (onClientDataAvailable E q data s) = rpc_notificationId s"
  using assms notificationId_frames [OF assms(5)]
  by (simp add: onClientDataAvailable_def processData_def Let_def)

lemma notificationId_client_data:
  assumes "map_of (ps_proxyClients s) k = Some c" "pc_type c = TypeClient"
  shows "rpc_notificationId (onClientDataAvailable E k data s) = rpc_notificationId s"
  using assms
  by (simp add: onClientDataAvailable_def tunnelToServer_def addThroughput_def Let_def split: option.split)

lemma client_says:
  assumes "nw_open N a n nw"
  shows "\<exists>nw'. nw_settles E N (nw_clientEvent E N (RcSend d) nw) nw' \<and> nw_open N a n nw' \<and>
    serverHeard (ss_outputs (nw_server nw')) = serverHeard (ss_outputs (nw_server nw)) @ [(a, d)] \<and>
    clientHeard (rc_outputs (nw_client nw')) = clientHeard (rc_outputs (nw_client nw)) \<and>
    (\<exists>outs. ss_outputs (nw_server nw') = ss_outputs (nw_server nw) @ outs)"
proof -
  let ?s = "nw_proxy nw" and ?q = "ne_server N" and ?k = "ne_client N"
  let ?w = "serializeData (buildFrame \<lparr>fr_socketAddress = a, fr_data = d\<rparr>)"
  obtain cc sc x where o: "proxy_inv ?s" "ss_online (nw_server nw)" "rc_open (nw_client nw)" "?q \<noteq> ?k" "a \<noteq> 0"
      "rpc_notificationId ?s = n" "readerOf ?s ?q = Some (True, [])" "interfaceOf ?s ?q = Some TransportTcp" "interfaceOf ?s ?k = Some TransportTcp"
      "map_of (ps_clientObjects ?s) ?k = Some cc" "cc_serverConnection cc = Some ?q" "cc_socketAddress cc = a"
      "map_of (ps_serverObjects ?s) ?q = Some sc" "getClientConnection sc a = Some ?k"
      "map_of (ss_tunnelProxySockets (nw_server nw)) a = Some x" "ts_socketAddress x = a"
    using assms by (auto simp: nw_open_def)
  obtain rc where rc: "rc_step E (nw_client nw) (RcSend d) = rc" "rc_open rc"
      "rc_outputs rc = rc_outputs (nw_client nw) @ [RcSocket (OpWrite d)]"
    using client_writes [OF o(3)] by blast
  define t where "t = onClientDataAvailable E ?k d ?s"
  note C = client_chunk_delivers [OF o(1,10,11), of E d, folded t_def, unfolded o(8,12) option.sel]
  have step: "proxy_step E ?s (DataAvailable ?k d) = t" by (simp add: t_def)
  obtain ss where ss: "ss_step E (nw_server nw) (SsSignal (SigData ?w)) = ss" "ss_online ss"
      "ss_outputs ss = ss_outputs (nw_server nw) @ [SsDataReceived a d]"
      "ss_tunnelProxySockets ss = ss_tunnelProxySockets (nw_server nw)"
    using server_hears_client [OF o(2,15,5)] by blast
  let ?nw = "nw\<lparr>nw_client := rc, nw_proxy := t, nw_server := ss\<rparr>"
  have "nw_clientEvent E N (RcSend d) nw = (nw\<lparr>nw_client := rc\<rparr>, [AtProxy (DataAvailable ?k d)])"
    using client_event [OF rc(1,3)] by simp
  moreover have "nw_settles E N (nw\<lparr>nw_client := rc\<rparr>, [AtProxy (DataAvailable ?k d)]) ?nw"
    apply (rule settle_proxy [OF _ step C(1)], simp, simp)
    apply (rule settle_server [OF _ ss(1,3) refl], simp, simp add: nw_settles_done)
    done
  moreover have "rpc_notificationId t = n"
    using registry_client_object [OF o(1,10)] notificationId_client_data o(6) unfolding t_def by metis
  then have "nw_open N a n ?nw"
    using o rc(2) ss(2,4) proxy_inv_same [OF C(2) o(1)] reader_of_others [OF o(1,10,4), of E d, folded t_def]
    by (simp add: nw_open_def C(3) addressing_core [OF C(2)])
  ultimately show ?thesis
    using rc(3) ss(3) by (intro exI [of _ ?nw]) simp
qed

lemma server_says:
  assumes "nw_open N a n nw" and d: "escapeFree \<lparr>fr_socketAddress = a, fr_data = d\<rparr>"
  shows "\<exists>nw'. nw_settles E N (nw_serverEvent E N (SsWriteData a d) nw) nw' \<and> nw_open N a n nw' \<and>
    serverHeard (ss_outputs (nw_server nw')) = serverHeard (ss_outputs (nw_server nw)) \<and>
    clientHeard (rc_outputs (nw_client nw')) = clientHeard (rc_outputs (nw_client nw)) @ [d] \<and>
    (\<exists>outs. ss_outputs (nw_server nw') = ss_outputs (nw_server nw) @ outs)"
proof -
  let ?s = "nw_proxy nw" and ?q = "ne_server N" and ?k = "ne_client N"
  let ?w = "serializeData (buildFrame \<lparr>fr_socketAddress = a, fr_data = d\<rparr>)"
  obtain cc sc x where o: "proxy_inv ?s" "ss_online (nw_server nw)" "rc_open (nw_client nw)" "?q \<noteq> ?k" "a \<noteq> 0"
      "rpc_notificationId ?s = n" "readerOf ?s ?q = Some (True, [])" "interfaceOf ?s ?q = Some TransportTcp" "interfaceOf ?s ?k = Some TransportTcp"
      "map_of (ps_clientObjects ?s) ?k = Some cc" "cc_serverConnection cc = Some ?q" "cc_socketAddress cc = a"
      "map_of (ps_serverObjects ?s) ?q = Some sc" "getClientConnection sc a = Some ?k"
      "map_of (ss_tunnelProxySockets (nw_server nw)) a = Some x" "ts_socketAddress x = a"
    using assms(1) by (auto simp: nw_open_def)
  obtain ss where ss: "ss_step E (nw_server nw) (SsWriteData a d) = ss" "ss_online ss"
      "ss_outputs ss = ss_outputs (nw_server nw) @ [SsSocket (OpWrite ?w)]"
      "ss_tunnelProxySockets ss = ss_tunnelProxySockets (nw_server nw)"
    using server_writes [OF o(2,15,16)] by blast
  obtain c where c: "map_of (ps_proxyClients ?s) ?q = Some c" "tc_slipEnabled c" "tc_dataBuffer c = []"
    using o(7) by (auto simp: readerOf_def)
  have f: "parseFrame (serialize_loop (buildFrame \<lparr>fr_socketAddress = a, fr_data = d\<rparr>)) = \<lparr>fr_socketAddress = a, fr_data = d\<rparr>"
    using wireFrame_plain [OF d] by (simp add: wireFrame_def)
  have r: "slip_loop (tc_dataBuffer c) ?w = ([serialize_loop (buildFrame \<lparr>fr_socketAddress = a, fr_data = d\<rparr>)], [])"
    by (simp add: c(3) slip_loop_packet)
  define t where "t = onClientDataAvailable E ?q ?w ?s"
  have C: "ps_effects t = ps_effects ?s @ [SendData TransportTcp ?k d]" "core t = core ?s"
      "\<And>p. interfaceOf t p = interfaceOf ?s p" "readerOf t ?q = Some (True, [])"
    using chunk_delivers [OF o(1,13) c(1,2) r, of E] o(5,9,14) f
    by (auto simp: t_def deliver_def readerOf_def)
  have step: "proxy_step E ?s (DataAvailable ?q ?w) = t" by (simp add: t_def)
  obtain rc where rc: "rc_step E (nw_client nw) (RcSignal (SigData d)) = rc" "rc_open rc"
      "rc_outputs rc = rc_outputs (nw_client nw) @ [RcDataReady d]"
    using client_hears_server [OF o(3)] by blast
  let ?nw = "nw\<lparr>nw_server := ss, nw_proxy := t, nw_client := rc\<rparr>"
  have "nw_serverEvent E N (SsWriteData a d) nw = (nw\<lparr>nw_server := ss\<rparr>, [AtProxy (DataAvailable ?q ?w)])"
    using server_event [OF ss(1,3)] by simp
  moreover have "nw_settles E N (nw\<lparr>nw_server := ss\<rparr>, [AtProxy (DataAvailable ?q ?w)]) ?nw"
    apply (rule settle_proxy [OF _ step C(1)], simp, simp add: o(4) o(4) [symmetric])
    apply (rule settle_client [OF _ rc(1,3) refl], simp, simp add: nw_settles_done)
    done
  moreover have "rpc_notificationId t = n"
    unfolding t_def using notificationId_server_data [OF c(1) _ c(2) r] registry_server_object [OF o(1,13)] c(1) f o(5,6) by auto
  then have "nw_open N a n ?nw"
    using o rc(2) ss(2,4) proxy_inv_same [OF C(2) o(1)] C(4)
    by (simp add: nw_open_def C(3) addressing_core [OF C(2)])
  ultimately show ?thesis
    using rc(3) ss(3) by (intro exI [of _ ?nw]) simp
qed

text \<open>The client leaves: its server is told, and its tunnel is gone.\<close>

lemma client_closes:
  assumes "nw_open N a n nw" and Q: "qt_json E num ms" "clientGone n a \<in> set ms" and n: "- (2 ^ 31) \<le> n" "n < 2 ^ 31"
  shows "\<exists>nw' x outs. nw_settles E N (nw_clientEvent E N RcDisconnect nw) nw' \<and> proxy_inv (nw_proxy nw') \<and>
    tunnelOf (nw_proxy nw') (ne_client N) = None \<and> map_of (ps_serverObjects (nw_proxy nw')) (ne_server N) \<noteq> None \<and>
    rc_state (nw_client nw') = remote_state.StateDisconnected \<and>
    rc_outputs (nw_client nw') = rc_outputs (nw_client nw) @ outs \<and> clientHeard outs = [] \<and>
    RcRemoteConnectedChanged False \<in> set outs \<and>
    ss_online (nw_server nw') \<and> map_of (ss_tunnelProxySockets (nw_server nw')) a = None \<and>
    ts_socketAddress x = a \<and> ss_outputs (nw_server nw') =
      ss_outputs (nw_server nw) @ [SsSocketDisconnected x, SsClientDisconnected x]"
proof -
  let ?s = "nw_proxy nw" and ?q = "ne_server N" and ?k = "ne_client N"
  let ?w = "serializeData (buildFrame \<lparr>fr_socketAddress = 0, fr_data = env_toJson E (clientGone n a) @ [newline]\<rparr>)"
  obtain cc sc x where o: "proxy_inv ?s" "ss_online (nw_server nw)" "rc_open (nw_client nw)" "rpc_notificationId ?s = n"
      "readerOf ?s ?q = Some (True, [])" "interfaceOf ?s ?q = Some TransportTcp"
      "map_of (ps_clientObjects ?s) ?k = Some cc" "cc_serverConnection cc = Some ?q" "cc_socketAddress cc = a"
      "map_of (ps_serverObjects ?s) ?q = Some sc"
      "map_of (ss_tunnelProxySockets (nw_server nw)) a = Some x" "ts_socketAddress x = a"
    using assms(1) by (auto simp: nw_open_def)
  obtain rc outs where rc: "rc_step E (nw_client nw) RcDisconnect = rc" "rc_open rc"
      "rc_outputs rc = rc_outputs (nw_client nw) @ outs" "clientHeard outs = []"
      "clientCalls N outs = [AtProxy (ClientDisconnected ?k), AtClient SigDisconnected]"
    using client_leaves [OF o(3), of E N] by blast
  define t where "t = proxy_step E ?s (ClientDisconnected ?k)"
  have "jsonPacket ?s ?q j = serializeData (buildFrame \<lparr>fr_socketAddress = 0, fr_data = j @ [newline]\<rparr>)" for j
    using o(5) by (auto simp: readerOf_def jsonPacket_def)
  then have C: "ps_effects t = ps_effects ?s @ [SendData TransportTcp ?q ?w]" "tunnelOf t ?k = None"
      "map_of (ps_serverObjects t) ?q \<noteq> None" "proxy_inv t"
    using client_gone_effects [OF o(1,7,8,10), of E] proxy_inv_step [OF o(1), of E "ClientDisconnected ?k"] o(4,6,9)
    by (simp_all add: t_def clientGone_def)
  obtain rc' outs' where rc': "rc_step E rc (RcSignal SigDisconnected) = rc'" "rc_state rc' = remote_state.StateDisconnected"
      "rc_outputs rc' = rc_outputs rc @ outs'" "clientHeard outs' = []" "clientCalls N outs' = []"
      "RcRemoteConnectedChanged False \<in> set outs'"
    using client_is_closed [OF rc(2), of E N] by blast
  obtain ss where ss: "ss_step E (nw_server nw) (SsSignal (SigData ?w)) = ss" "ss_online ss"
      "ss_outputs ss = ss_outputs (nw_server nw) @ [SsSocketDisconnected (setDisconnected x), SsClientDisconnected (setDisconnected x)]"
      "map_of (ss_tunnelProxySockets ss) a = None"
    using server_hears_of_leaving [OF o(2) Q n o(11)] by blast
  let ?nw = "nw\<lparr>nw_proxy := t, nw_client := rc', nw_server := ss\<rparr>"
  have "nw_clientEvent E N RcDisconnect nw = (nw\<lparr>nw_client := rc\<rparr>, [AtProxy (ClientDisconnected ?k), AtClient SigDisconnected])"
    using client_event [OF rc(1,3), of N] rc(5) by simp
  moreover have "nw_settles E N (nw\<lparr>nw_client := rc\<rparr>, [AtProxy (ClientDisconnected ?k), AtClient SigDisconnected]) ?nw"
    apply (rule settle_proxy [OF _ t_def [symmetric] C(1)], simp, simp)
    apply (rule settle_client [OF _ rc'(1,3,5)], simp, simp)
    apply (rule settle_server [OF _ ss(1,3) refl], simp, simp add: nw_settles_done)
    done
  ultimately show ?thesis
    using C(2-4) rc(3,4) rc'(2-4,6) ss(2-4) o(12)
    by (intro exI [of _ ?nw] exI [of _ "setDisconnected x"] exI [of _ "outs @ outs'"]) (simp add: setDisconnected_def)
qed

section \<open>Sessions\<close>

datatype app_call = ServerApp server_event | ClientApp remote_event

fun nw_call :: "env \<Rightarrow> network_ends \<Rightarrow> app_call \<Rightarrow> tunnel_network \<Rightarrow> tunnel_network \<times> delivery list" where
  "nw_call E N (ServerApp e) nw = nw_serverEvent E N e nw"
| "nw_call E N (ClientApp e) nw = nw_clientEvent E N e nw"

inductive nw_session :: "env \<Rightarrow> network_ends \<Rightarrow> tunnel_network \<Rightarrow> app_call list \<Rightarrow> tunnel_network \<Rightarrow> bool" for E N where
  session_end: "nw_session E N nw [] nw"
| session_call: "nw_settles E N (nw_call E N c nw) nw' \<Longrightarrow> nw_session E N nw' cs nw'' \<Longrightarrow> nw_session E N nw (c # cs) nw''"

inductive_cases nw_session_NilE: "nw_session E N nw [] nw'"
inductive_cases nw_session_ConsE: "nw_session E N nw (c # cs) nw'"

text \<open>The calls decide the outcome.\<close>

lemma nw_session_unique: "nw_session E N nw cs a \<Longrightarrow> nw_session E N nw cs b \<Longrightarrow> a = b"
proof (induction arbitrary: b rule: nw_session.induct)
  case (session_end nw)
  then show ?case by (rule nw_session_NilE) simp
next
  case (session_call c nw nw' cs nw'')
  from session_call.prems show ?case
    by (rule nw_session_ConsE) (use session_call.hyps(1) session_call.IH nw_settles_unique in blast)
qed

text \<open>A conversation: the client's words on the left, the server's on the right.\<close>

fun saying :: "quint16 \<Rightarrow> bytes + bytes \<Rightarrow> app_call" where
  "saying a (Inl d) = ClientApp (RcSend d)"
| "saying a (Inr d) = ServerApp (SsWriteData a d)"

definition clientSaid :: "(bytes + bytes) list \<Rightarrow> bytes list" where
  "clientSaid ws = map projl (filter isl ws)"

definition serverSaid :: "(bytes + bytes) list \<Rightarrow> bytes list" where
  "serverSaid ws = map projr (filter (Not \<circ> isl) ws)"

lemma said_simps [simp]:
  "clientSaid [] = []" "clientSaid (Inl d # ws) = d # clientSaid ws" "clientSaid (Inr d # ws) = clientSaid ws"
  "serverSaid [] = []" "serverSaid (Inl d # ws) = serverSaid ws" "serverSaid (Inr d # ws) = d # serverSaid ws"
  by (simp_all add: clientSaid_def serverSaid_def)

lemma conversation:
  assumes "nw_open N a n nw" "\<forall>d \<in> set (serverSaid ws). escapeFree \<lparr>fr_socketAddress = a, fr_data = d\<rparr>"
  shows "\<exists>nw'. nw_session E N nw (map (saying a) ws) nw' \<and> nw_open N a n nw' \<and>
    serverHeard (ss_outputs (nw_server nw')) = serverHeard (ss_outputs (nw_server nw)) @ map (Pair a) (clientSaid ws) \<and>
    clientHeard (rc_outputs (nw_client nw')) = clientHeard (rc_outputs (nw_client nw)) @ serverSaid ws \<and>
    (\<exists>outs. ss_outputs (nw_server nw') = ss_outputs (nw_server nw) @ outs)"
  using assms
proof (induction ws arbitrary: nw)
  case Nil
  then show ?case by (auto intro: session_end)
next
  case (Cons w ws)
  obtain nw1 where nw1: "nw_settles E N (nw_call E N (saying a w) nw) nw1" "nw_open N a n nw1"
      "serverHeard (ss_outputs (nw_server nw1)) = serverHeard (ss_outputs (nw_server nw)) @ map (Pair a) (clientSaid [w])"
      "clientHeard (rc_outputs (nw_client nw1)) = clientHeard (rc_outputs (nw_client nw)) @ serverSaid [w]"
      "\<exists>outs. ss_outputs (nw_server nw1) = ss_outputs (nw_server nw) @ outs"
  proof (cases w)
    case (Inl d)
    then show ?thesis using client_says [OF Cons.prems(1), of E d] that by auto
  next
    case (Inr d)
    then show ?thesis using server_says [OF Cons.prems(1), of d E] Cons.prems(2) that by auto
  qed
  have "\<forall>d \<in> set (serverSaid ws). escapeFree \<lparr>fr_socketAddress = a, fr_data = d\<rparr>"
    using Cons.prems(2) by (cases w) simp_all
  from Cons.IH [OF nw1(2) this] obtain nw2 where nw2: "nw_session E N nw1 (map (saying a) ws) nw2" "nw_open N a n nw2"
      "serverHeard (ss_outputs (nw_server nw2)) = serverHeard (ss_outputs (nw_server nw1)) @ map (Pair a) (clientSaid ws)"
      "clientHeard (rc_outputs (nw_client nw2)) = clientHeard (rc_outputs (nw_client nw1)) @ serverSaid ws"
      "\<exists>outs. ss_outputs (nw_server nw2) = ss_outputs (nw_server nw1) @ outs"
    by blast
  have "nw_session E N nw (map (saying a) (w # ws)) nw2"
    using session_call [OF nw1(1) nw2(1)] by simp
  then show ?case
    using nw1(3-5) nw2(2-5) by (intro exI [of _ nw2]) (cases w; auto)
qed

text \<open>The messages of a session in which one client opens the first tunnel to a server, and leaves.\<close>

definition session_messages ::
  "env \<Rightarrow> proxy_server \<Rightarrow> network_ends \<Rightarrow> uuid \<Rightarrow> string \<Rightarrow> uuid \<Rightarrow> string \<Rightarrow> variant list" where
  "session_messages E s N u app v name =
     [helloRequest, helloReply E (ps_configuration s), serverRequest E v name, serverReply, clientRequest E u app v,
      clientReply, clientNews E (rpc_notificationId s) u app (ne_clientPeer N) 1, clientGone (rpc_notificationId s + 1) 1]"

text \<open>A server and a client the proxy does not know yet, with different uuids, that connect by TCP.\<close>

definition newcomers :: "network_ends \<Rightarrow> proxy_server \<Rightarrow> uuid \<Rightarrow> uuid \<Rightarrow> proxy_url \<Rightarrow> bool" where
  "newcomers N s u v url =
     (ne_server N \<noteq> ne_client N \<and> map_of (ps_proxyClients s) (ne_server N) = None \<and>
      map_of (ps_proxyClients s) (ne_client N) = None \<and> u \<noteq> v \<and> u \<noteq> nullUuid \<and> v \<noteq> nullUuid \<and>
      map_of (ps_serverConnections s) u = None \<and> map_of (ps_serverConnections s) v = None \<and>
      map_of (ps_clientConnections s) u = None \<and> map_of (ps_clientConnections s) v = None \<and>
      pu_scheme url = ''tcp'' \<and> pu_valid url)"

definition beginning :: "proxy_server \<Rightarrow> uuid \<Rightarrow> string \<Rightarrow> uuid \<Rightarrow> string \<Rightarrow> tunnel_network" where
  "beginning s u app v name =
     \<lparr>nw_proxy = s, nw_server = newSocketServer v name ConnectionTypeTcpSocket,
      nw_client = newRemoteConnection u app ConnectionTypeTcpSocket\<rparr>"

lemma remoteProxy_run: "handlerOf (proxy_run E cfg es) ''RemoteProxy'' = Some newJsonRpcServer"
  by (simp add: handlerOf_def handlers_run newTunnelProxyServer_def registerHandler_def tunnelProxy_tables
      remoteProxy_tables remoteProxyName_def tunnelProxyName_def)

lemma session_opens:
  assumes inv: "proxy_inv s"
    and handlers: "handlerOf s ''RemoteProxy'' = Some newJsonRpcServer" "handlerOf s ''TunnelProxy'' = Some newTunnelProxyHandler"
    and new: "newcomers N s u v url"
    and n: "- (2 ^ 31) \<le> rpc_notificationId s" "rpc_notificationId s < 2 ^ 31"
    and Q: "qt_json E num (session_messages E s N u app v name)"
  shows "\<exists>nw. nw_session E N (beginning s u app v name) [ServerApp (SsStart url), ClientApp (RcConnect url v)] nw \<and>
    nw_open N 1 (rpc_notificationId s + 1) nw \<and> serverHeard (ss_outputs (nw_server nw)) = [] \<and> clientHeard (rc_outputs (nw_client nw)) = [] \<and>
    SsClientConnected (newTunnelProxySocket app u (ne_clientPeer N) 1) \<in> set (ss_outputs (nw_server nw))"
proof -
  let ?nw = "beginning s u app v name"
  have nw: "nw_proxy ?nw = s" "nw_server ?nw = newSocketServer v name ConnectionTypeTcpSocket"
      "nw_client ?nw = newRemoteConnection u app ConnectionTypeTcpSocket"
    by (simp_all add: beginning_def)
  have ids: "ne_server N \<noteq> ne_client N" "map_of (ps_proxyClients s) (ne_server N) = None" "map_of (ps_proxyClients s) (ne_client N) = None"
    and uuids: "u \<noteq> v" "u \<noteq> nullUuid" "v \<noteq> nullUuid" "map_of (ps_serverConnections s) u = None"
      "map_of (ps_serverConnections s) v = None" "map_of (ps_clientConnections s) u = None" "map_of (ps_clientConnections s) v = None"
    and url: "pu_scheme url = ''tcp''" "pu_valid url"
    using new by (simp_all add: newcomers_def)
  let ?sc = "newServerConnection (ne_server N) v name"
  have ms: "{helloRequest, helloReply E (ps_configuration s), serverRequest E v name, serverReply}
      \<subseteq> set (session_messages E s N u app v name)"
    by (simp add: session_messages_def)
  obtain t ss where t: "nw_settles E N (nw_serverEvent E N (SsStart url) ?nw) (?nw\<lparr>nw_proxy := t, nw_server := ss\<rparr>)"
      "ss_online ss" "serverHeard (ss_outputs ss) = []" "proxy_inv t" "readerOf t (ne_server N) = Some (True, [])"
      "interfaceOf t (ne_server N) = Some TransportTcp" "serverConnectionOf t v = Some (ne_server N, ?sc)"
      "map_of (ps_serverConnections t) = (map_of (ps_serverConnections s))(v \<mapsto> ne_server N)"
      "ps_clientConnections t = ps_clientConnections s" "beside (ne_server N) s t" "rpc_notificationId t = rpc_notificationId s"
    using server_goes_online [OF inv ids(2) handlers uuids(3,5,7) url Q ms nw(1,2)] by blast
  have kept: "handlerOf t h = handlerOf s h" "ps_configuration t = ps_configuration s" for h
    using t(10) by (simp_all add: handlerOf_def beside_def)
  have "readerOf t (ne_client N) = readerOf s (ne_client N)"
    using t(10) ids(1) by (simp add: beside_def)
  then have k: "map_of (ps_proxyClients t) (ne_client N) = None"
    using ids(3) by (simp add: readerOf_def)
  have a: "1 = fst (getFreeAddress ?sc)" "(1 :: quint16) \<noteq> 0"
    by code_simp+
  have ms': "{helloRequest, helloReply E (ps_configuration t), clientRequest E u app v, clientReply,
      clientNews E (rpc_notificationId t) u app (ne_clientPeer N) 1} \<subseteq> set (session_messages E s N u app v name)"
    by (simp add: session_messages_def kept t(11))
  obtain nw where nw: "nw_settles E N (nw_clientEvent E N (RcConnect url v) (?nw\<lparr>nw_proxy := t, nw_server := ss\<rparr>)) nw"
      "nw_open N 1 (rpc_notificationId s + 1) nw" "ss_outputs (nw_server nw) =
      ss_outputs ss @ [SsClientConnected (newTunnelProxySocket app u (ne_clientPeer N) 1)]" "clientHeard (rc_outputs (nw_client nw)) = []"
    using client_opens_tunnel [OF t(4) k handlers [folded kept(1)] ids(1) t(7,5,6) a uuids(2,3) _ _ url(1) _ _ Q ms',
        of "?nw\<lparr>nw_proxy := t, nw_server := ss\<rparr>"] t(2,8,9,11) uuids(1,4,6) n nw(3) by auto
  have "nw_session E N ?nw [ServerApp (SsStart url), ClientApp (RcConnect url v)] nw"
    by (rule session_call [where nw' = "?nw\<lparr>nw_proxy := t, nw_server := ss\<rparr>", OF _ session_call [OF _ session_end]])
      (simp_all only: nw_call.simps t(1) nw(1))
  then show ?thesis using nw(2-4) t(3) by (intro exI [of _ nw]) simp
qed

lemma session_append: "nw_session E N a xs b \<Longrightarrow> nw_session E N b ys c \<Longrightarrow> nw_session E N a (xs @ ys) c"
  by (induction rule: nw_session.induct) (auto intro: session_call)

lemma open_tunnelOf: "nw_open N a n nw \<Longrightarrow> tunnelOf (nw_proxy nw) (ne_client N) = Some (ne_server N)"
  by (auto simp: nw_open_def tunnelOf_def)

lemma open_running: "nw_open N a n nw \<Longrightarrow> ss_state (nw_server nw) = StateRunning \<and> remoteConnected (nw_client nw)"
  by (auto simp: nw_open_def ss_online_def rc_open_def)

lemma session_talks:
  assumes "newcomers N (proxy_run E cfg es) u v url"
    and "- (2 ^ 31) \<le> rpc_notificationId (proxy_run E cfg es)" "rpc_notificationId (proxy_run E cfg es) < 2 ^ 31"
    and "qt_json E num (session_messages E (proxy_run E cfg es) N u app v name)"
    and "\<forall>d \<in> set (serverSaid ws). escapeFree \<lparr>fr_socketAddress = 1, fr_data = d\<rparr>"
  shows "\<exists>nw. nw_session E N (beginning (proxy_run E cfg es) u app v name)
      (ServerApp (SsStart url) # ClientApp (RcConnect url v) # map (saying 1) ws) nw \<and>
    nw_open N 1 (rpc_notificationId (proxy_run E cfg es) + 1) nw \<and>
    SsClientConnected (newTunnelProxySocket app u (ne_clientPeer N) 1) \<in> set (ss_outputs (nw_server nw)) \<and>
    serverHeard (ss_outputs (nw_server nw)) = map (Pair 1) (clientSaid ws) \<and>
    clientHeard (rc_outputs (nw_client nw)) = serverSaid ws"
proof -
  let ?n = "rpc_notificationId (proxy_run E cfg es) + 1"
  obtain nw1 where nw1: "nw_session E N (beginning (proxy_run E cfg es) u app v name)
        [ServerApp (SsStart url), ClientApp (RcConnect url v)] nw1"
      "nw_open N 1 ?n nw1" "serverHeard (ss_outputs (nw_server nw1)) = []" "clientHeard (rc_outputs (nw_client nw1)) = []"
      "SsClientConnected (newTunnelProxySocket app u (ne_clientPeer N) 1) \<in> set (ss_outputs (nw_server nw1))"
    using session_opens [OF run_inv remoteProxy_run handlerOf_run assms(1-4)] by blast
  obtain nw2 where "nw_session E N nw1 (map (saying 1) ws) nw2" "nw_open N 1 ?n nw2"
      "serverHeard (ss_outputs (nw_server nw2)) = serverHeard (ss_outputs (nw_server nw1)) @ map (Pair 1) (clientSaid ws)"
      "clientHeard (rc_outputs (nw_client nw2)) = clientHeard (rc_outputs (nw_client nw1)) @ serverSaid ws"
      "\<exists>outs. ss_outputs (nw_server nw2) = ss_outputs (nw_server nw1) @ outs"
    using conversation [OF nw1(2) assms(5), of E] by blast
  with session_append [OF nw1(1) this(1)] nw1(3-5) show ?thesis
    by (intro exI [of _ nw2]) auto
qed



text \<open>An environment for one session: the JSON text of its \<open>i\<close>th message is \<open>{i}\<close>.\<close>

definition talk_ends :: network_ends where
  "talk_ends = \<lparr>ne_server = 21, ne_client = 22, ne_serverPeer = ''10.0.0.1'', ne_clientPeer = ''10.0.0.2'', ne_now = 0\<rparr>"

definition talk_base :: env where
  "talk_base = demo_env\<lparr>env_toUInt := (\<lambda>x. case x of VInt i \<Rightarrow> word_of_int i | _ \<Rightarrow> 0),
     env_uuidToString := (\<lambda>u. replicate (unat u) CHR ''u''), env_uuidOfString := (\<lambda>t. of_nat (length t)),
     env_canConvert := (\<lambda>t x. True)\<rparr>"

definition talk_messages :: "variant list" where
  "talk_messages = session_messages talk_base (newTunnelProxyServer defaultConfiguration) talk_ends 2 ''app'' 1 ''nymea''"

definition talk_env :: env where
  "talk_env = talk_base
     \<lparr>env_toJson := (\<lambda>m. case map_of (zip talk_messages [0, 1, 2, 3, 4, 5, 6, 7]) m of
        None \<Rightarrow> [] | Some i \<Rightarrow> [123, i, 125]),
      env_fromJson := (\<lambda>d. case map_of (zip [0, 1, 2, 3, 4, 5, 6, 7] talk_messages) (d ! 1) of
        None \<Rightarrow> Inl ''illegal value'' | Some m \<Rightarrow> Inr (jsonValue talk_base VInt m))\<rparr>"

lemma talk_env_messages:
  "session_messages talk_env (newTunnelProxyServer defaultConfiguration) talk_ends 2 ''app'' 1 ''nymea'' = talk_messages"
  by (simp add: talk_messages_def session_messages_def message_defs talk_env_def)

lemma jsonValue_cong: "env_uuidToString E = env_uuidToString F \<Longrightarrow> jsonValue E num m = jsonValue F num m"
proof (induction m)
  case (VMap m)
  then have "map_prod id (jsonValue E num) x = map_prod id (jsonValue F num) x" if "x \<in> set m" for x
    using that by (cases x) fastforce
  then show ?case by simp
qed simp_all

lemma talk_texts: "map (env_toJson talk_env) talk_messages = map (\<lambda>i. [123, i, 125]) [0, 1, 2, 3, 4, 5, 6, 7]"
  by code_simp

lemma talk_readable:
  assumes "i < 8"
  shows "json_message (env_toJson talk_env (talk_messages ! i)) \<and>
    env_fromJson talk_env (env_toJson talk_env (talk_messages ! i) @ [newline]) = Inr (jsonValue talk_env VInt (talk_messages ! i))"
proof -
  have len: "length talk_messages = 8" by (simp add: talk_messages_def session_messages_def)
  then have written: "env_toJson talk_env (talk_messages ! i) = [123, [0, 1, 2, 3, 4, 5, 6, 7] ! i, 125]"
    using arg_cong [OF talk_texts, of "\<lambda>xs. xs ! i"] assms by (simp del: list.map)
  have base: "jsonValue talk_env VInt m = jsonValue talk_base VInt m" for m
    by (rule jsonValue_cong) (simp add: talk_env_def)
  have "map_of (zip [0, 1, 2, 3, 4, 5, 6, 7 :: byte] talk_messages) ([0, 1, 2, 3, 4, 5, 6, 7] ! i) = Some (talk_messages ! i)"
    by (rule map_of_zip_nth) (use assms len in simp_all)
  moreover have "json_message [123, [0, 1, 2, 3, 4, 5, 6, 7] ! i, 125]"
  proof -
    have "i \<in> {0, 1, 2, 3, 4, 5, 6, 7}" using assms by auto
    then show ?thesis by (auto simp: json_message_def braceOpen_def braceClose_def newline_def)
  qed
  ultimately show ?thesis
    unfolding written base by (simp add: talk_env_def)
qed

lemma talk_json: "qt_json talk_env VInt talk_messages"
proof -
  have "length talk_messages = 8" by (simp add: talk_messages_def session_messages_def)
  then have "\<forall>m \<in> set talk_messages. json_message (env_toJson talk_env m) \<and>
      env_fromJson talk_env (env_toJson talk_env m @ [newline]) = Inr (jsonValue talk_env VInt m)"
    using talk_readable by (metis in_set_conv_nth)
  then show ?thesis
    by (simp add: qt_json_def) (simp add: talk_env_def talk_base_def)
qed

lemma talk_begins:
  "newcomers talk_ends (proxy_run talk_env defaultConfiguration []) 2 1 demo_url"
  "rpc_notificationId (proxy_run talk_env defaultConfiguration []) = 0"
  by (simp_all add: newcomers_def talk_ends_def demo_url_def newTunnelProxyServer_def registerHandler_def)

lemma talk_speaks:
  "qt_json talk_env VInt (session_messages talk_env (proxy_run talk_env defaultConfiguration []) talk_ends 2 ''app'' 1 ''nymea'')"
  using talk_json by (simp add: talk_env_messages)

definition talk_words :: "(bytes + bytes) list" where
  "talk_words = [Inl [5, 0xC0], Inr [7], Inr [8], Inl [9]]"

lemma talk_plain: "\<forall>d \<in> set (serverSaid talk_words). escapeFree \<lparr>fr_socketAddress = 1, fr_data = d\<rparr>"
  by (simp add: talk_words_def escapeFree_def buildFrame_def stream_write_u16_def protocol_bytes)



end
