(* ===== verification/Race.thy ===== *)
theory Race
  imports Session
begin

text \<open>
  What the uncut deliveries of \<open>Session\<close> leave out: the reply to the registration of a client and the first
  bytes from the server may reach its socket in one chunk.
\<close>

section \<open>Words that come with the reply\<close>

lemma no_cut:
  assumes "newline \<notin> set m" "newline \<notin> set d" "d = [] \<or> hd d \<noteq> braceOpen"
  shows "indexOf [braceClose, newline, braceOpen] (m @ newline # d) = None"
  using assms(1)
proof (induction m)
  case Nil
  have "indexOf [braceClose, newline, braceOpen] d = None"
    using assms(2) by (intro indexOf_no_separator) (auto dest: in_set_butlastD)
  then show ?case by (simp add: braceClose_def newline_def)
next
  case (Cons x m)
  have "take 3 (x # m @ newline # d) \<noteq> [braceClose, newline, braceOpen]"
  proof (cases m)
    case Nil
    then show ?thesis using assms(3) by (cases d) auto
  next
    case (Cons y ys)
    then show ?thesis using \<open>newline \<notin> set (x # m)\<close> by auto
  qed
  with Cons show ?case by (simp add: numeral_3_eq_3)
qed

lemma reply_stays_in_buffer:
  assumes "json_message m" "newline \<notin> set d" "d \<noteq> []" "hd d \<noteq> braceOpen" "last d \<noteq> braceClose" "b @ x = m @ newline # d"
  shows "json_feed b x = ([], m @ newline # d)"
proof -
  have "newline \<notin> set m" using assms(1) by (simp add: json_message_def)
  then have "json_split (m @ newline # d) = ([], m @ newline # d)"
    using no_cut assms(2-4) by (simp add: json_split.simps)
  moreover have "last (m @ newline # d) \<noteq> braceClose" "last (m @ newline # d) \<noteq> newline"
    using assms(2,3,5) last_in_set [of d] by (auto simp del: last_in_set)
  then have "\<not> endsWith (m @ newline # d) [braceClose, newline]" "\<not> endsWith (m @ newline # d) [braceClose]"
    unfolding endsWith_append_iff by (metis last_snoc append.assoc append_Cons append_Nil, metis last_snoc)
  ultimately show ?thesis
    by (simp add: json_feed_def assms(6))
qed

definition rc_stuck :: "bytes \<Rightarrow> remote_connection \<Rightarrow> bool" where
  "rc_stuck buffer rc =
     (\<exists>c jc. rc_connection rc = Some c \<and> con_type c = ConnectionTypeTcpSocket \<and> con_connected c \<and>
        rc_jsonClient rc = Some jc \<and> jc_dataBuffer jc = buffer \<and> rc_state rc \<noteq> StateRemoteConnected)"

lemma stays_stuck:
  assumes "rc_stuck b rc" "json_message m" "b @ x = m @ newline # d"
    and "newline \<notin> set d" "d \<noteq> []" "hd d \<noteq> braceOpen" "last d \<noteq> braceClose"
  shows "rc_stuck (m @ newline # d) (rc_step E rc (RcSignal (SigData x))) \<and>
    rc_outputs (rc_step E rc (RcSignal (SigData x))) = rc_outputs rc"
  using assms(1) reply_stays_in_buffer [OF assms(2,4-7,3)]
  by (auto simp: rc_stuck_def rc_step_defs rc_onConnectionDataAvailable_def jc_packets_def)

definition binaryChunk :: "bytes \<Rightarrow> bool" where
  "binaryChunk d = (newline \<notin> set d \<and> (d \<noteq> [] \<longrightarrow> last d \<noteq> braceClose))"

lemma stuck_for_good:
  assumes "rc_stuck (m @ newline # d) rc" "json_message m" "d \<noteq> []" "hd d \<noteq> braceOpen"
    and "binaryChunk d" "\<forall>x \<in> set xs. binaryChunk x"
  shows "rc_outputs (run_events (rc_step E) rc (map (RcSignal \<circ> SigData) xs)) = rc_outputs rc \<and>
    rc_state (run_events (rc_step E) rc (map (RcSignal \<circ> SigData) xs)) \<noteq> StateRemoteConnected"
  using assms
proof (induction xs arbitrary: d rc)
  case Nil
  then show ?case by (auto simp: rc_stuck_def)
next
  case (Cons x xs)
  have d: "newline \<notin> set (d @ x)" "d @ x \<noteq> []" "hd (d @ x) \<noteq> braceOpen" "last (d @ x) \<noteq> braceClose"
    using Cons.prems(3-6) by (auto simp: binaryChunk_def last_append)
  have step: "rc_stuck (m @ newline # d @ x) (rc_step E rc (RcSignal (SigData x)))"
      "rc_outputs (rc_step E rc (RcSignal (SigData x))) = rc_outputs rc"
    using stays_stuck [OF Cons.prems(1,2) _ d, of x E] by simp_all
  have "binaryChunk (d @ x)" "\<forall>x \<in> set xs. binaryChunk x"
    using d Cons.prems(6) by (simp_all add: binaryChunk_def)
  from Cons.IH [OF step(1) Cons.prems(2) d(2,3) this] show ?case
    by (simp add: step(2) del: rc_step.simps)
qed



end
