(* ===== verification/Spec2Isabelle.thy ===== *)
theory Spec2Isabelle
  imports Delivery Departure Answers Streams FramingProperties LinkProperties EngineProperties ClientProperties
    TunnelClients MonitorUi Process Closing WholeServer Interleaving Race
begin

text \<open>
  Verification of nymea-remoteproxy, a proxy through which applications reach nymea servers that
  stand behind a router.

  \<^bold>\<open>The program.\<close> A server (a nymea core) and its clients (the apps) both connect to the proxy, by
  TCP or SSL, by WebSocket, or by a local socket. In JSON requests the one registers as a tunnel server
  under its uuid, the others as tunnel clients of that uuid. From then on the proxy is a switch: bytes of a client
  go to its server as a SLIP packet that starts with a 16 bit address of the client, packets of the server
  go to the client they are addressed to, and address 0 stays for JSON. A client library
  (\<open>libnymea-remoteproxyclient\<close>) has the other ends of the tunnels, a monitor program shows
  the statistics of the proxy.

  \<^bold>\<open>Conventions.\<close>
  \<^item> A class is a record with the fields of the class and one definition per member function, named as
    in the code (with a prefix where two classes share a name: \<open>tcp_\<close>, \<open>ws_\<close>, \<open>ux_\<close> for the transports,
    \<open>rc_\<close> and \<open>ss_\<close> for the two client classes, \<open>eng_\<close>, \<open>mon_\<close>, \<open>log_\<close>). Getters are the record's fields.
  \<^item> The objects of the proxy that point to each other (clients and connection objects) live in tables of
    \<open>proxy_server\<close>; the pointer to an object is the id of its transport client. A null
    pointer is \<open>None\<close>. Where the code would follow a null pointer the model says so: an output of its own
    (\<open>RcNullPointer\<close>, \<open>SsNullPointer\<close>), which is proved never to occur, or no result.
  \<^item> A \<open>QHash\<close> is an association list without duplicates in the order of insertion; no theorem depends
    on that order. Iterations over a \<open>QMap\<close> sort the keys (\<open>qkeys\<close>).
  \<^item> \<open>quint8\<close>, \<open>quint16\<close>, \<open>quint32\<close>, \<open>quint64\<close> are words and wrap; \<open>int\<close> is an integer, wrapped to
    32 bits where it can overflow (\<open>wrap32\<close>, \<open>m_currentTimeCounter\<close>).
  \<^item> What the code asks of a socket, a file or the screen is a value: the effects \<open>ps_effects\<close> of the
    proxy, the \<open>socket_op\<close>s of a transport, the outputs of the client classes, the \<open>log_op\<close>s.
  \<^item> A call of \<open>close\<close> or \<open>abort\<close> reports the disconnection as a later event. A real socket may also report it
    within the call; \<open>Closing\<close> is about such sockets. An object given to
    \<open>deleteLater\<close> is gone when its handler ends. Sockets deliver data only while they are connected.
  \<^item> Qt and the operating system are parameters: \<open>env\<close> (JSON parser and printer, conversions of
    \<open>QVariant\<close> and \<open>QUuid\<close>, version strings), \<open>files\<close>, \<open>listeners\<close> (what can be listened to or
    opened), \<open>texts\<close>, \<open>utf8\<close>, \<open>rand\<close>, the clock and the uuids that \<open>createUuid\<close> gives.

  \<^bold>\<open>Theories.\<close> \<open>Prelude\<close> has the machine types, the operations of the hashes, runs of event lists and the locales
  \<open>byte_receiver\<close>, \<open>frame_link\<close> and \<open>event_machine\<close>; \<open>Variant\<close> has \<open>QVariant\<close> and \<open>env\<close>.

  The proxy (\<open>src/common\<close>, \<open>src/libnymea-remoteproxy\<close>):
  \<^item> \<open>Slip\<close>: \<open>slipdataprocessor\<close>; \<open>TransportClient\<close>, \<open>ProxyClient\<close>: \<open>transportclient\<close>, \<open>tunnelproxyclient\<close>
    (role, inactivity timer, reassembly of packets);
    \<open>Connections\<close>: \<open>tunnelproxyserverconnection\<close>, \<open>tunnelproxyclientconnection\<close>;
  \<^item> \<open>JsonTypes\<close>, \<open>JsonHandler\<close>, \<open>Handlers\<close>, \<open>JsonRpc\<close>: \<open>jsontypes\<close>, \<open>jsonhandler\<close>, \<open>jsonreply\<close>,
    \<open>tunnelproxyhandler\<close>, \<open>jsonrpcserver\<close>;
  \<^item> \<open>ProxyState\<close>, \<open>TunnelServer\<close>, \<open>ProxyData\<close>: \<open>tunnelproxyserver\<close>; \<open>proxy_step\<close> is the step of the proxy for each signal
    it is connected to, \<open>proxy_run\<close> the run from its start;
  \<^item> \<open>Transports\<close>: the interface \<open>transportinterface\<close> as a locale, interpreted on \<open>TcpSocketServer\<close>,
    \<open>WebSocketServer\<close> and \<open>UnixSocketServer\<close>, the models of the three files of that name;
  \<^item> \<open>Config\<close>, \<open>LogEngine\<close>, \<open>MonitorServer\<close>, \<open>Engine\<close>: \<open>proxyconfiguration\<close>, \<open>logengine\<close>,
    \<open>monitorserver\<close>, \<open>engine\<close>; \<open>System\<close>: proxy and transports wired as \<open>Engine::start\<close> does it,
    with sockets at the outside.

  The client library (\<open>src/libnymea-remoteproxyclient\<close>): \<open>ClientJson\<close> (\<open>proxyjsonrpcclient\<close>, \<open>jsonreply\<close>),
  \<open>ProxyConnection\<close> (\<open>proxyconnection\<close> and its TCP and WebSocket classes), \<open>RemoteConnection\<close>
  (\<open>tunnelproxyremoteconnection\<close>), \<open>SocketServer\<close> (\<open>tunnelproxysocketserver\<close>, \<open>tunnelproxysocket\<close>).

  The programs (\<open>src/server\<close>, \<open>src/tunnelclient\<close>, \<open>src/monitor\<close>): \<open>Applications\<close> (the decisions of the three main
  functions and the monitor's client), \<open>TunnelClients\<close> (the echoing server and the client with random text),
  \<open>MonitorUi\<close> (what the monitor prints and paints), \<open>Process\<close> (log lines and filters, quit signals, the one engine).

  All of it together: \<open>Network\<close> wires a proxy, a server and a client of the library; \<open>Handshake\<close>
  and \<open>Opening\<close> follow both sides through Hello and registration, \<open>Session\<close> has the sessions of two
  applications. Every delivery is worked through, in the order the messages were sent; the network does not
  cut them here (\<open>Streams\<close>, \<open>Interleaving\<close> and \<open>Race\<close> say what that changes).

  \<^bold>\<open>What is proved.\<close>
  \<^item> The whole: \<open>Session\<close>: from a start of both applications against a proxy in any state it can reach, the
    handshakes come to their end, a conversation of any length is delivered both ways, and a client that leaves
    is reported to its server. What is relied on of Qt's JSON is \<open>qt_json\<close>, for the messages of the session.
  \<^item> Consistency: \<open>Registry\<close>, \<open>ProxyInvariant\<close>, \<open>ProxyState\<close>: the invariant \<open>proxy_inv\<close> of the hashes of the proxy, kept
    by every operation; \<open>Closing\<close>: also when sockets report a disconnection in the middle of a handler.
  \<^item> Refinement: \<open>RegistrySpec\<close>: an abstract registry of connections, roles and tunnels. Each
    operation is a specified step of it, each event a sequence of such steps.
  \<^item> Chunks of data: \<open>Requests\<close>: the locales \<open>connection_steps\<close> and \<open>request_steps\<close> lift a relation from the
    single actions to everything a chunk can do; \<open>Isolation\<close>, \<open>Addresses\<close>, \<open>LinkProperties\<close>, \<open>RegistrySpec\<close> and
    \<open>Interleaving\<close> interpret them.
  \<^item> Traffic: \<open>Tunnels\<close>, \<open>TunnelProxy\<close>, \<open>Delivery\<close>, \<open>Streams\<close>: what a client or a server sends arrives, once, in order and
    nowhere else, however the network cuts it; \<open>Streams\<close> and \<open>TunnelClients\<close> follow data to the
    application at the other end and back; \<open>Interleaving\<close>: so it is while any other connections are active. \<open>Routes\<close>, \<open>System\<close>, \<open>WholeServer\<close>: the same from socket to socket.
  \<^item> Requests: \<open>Answers\<close>, \<open>Departure\<close>: which requests are accepted, how the others are refused, what a
    disconnection brings about, and that replies have the form the handlers declare.
  \<^item> Framing: \<open>FramingProperties\<close>, \<open>JsonFraming\<close>: round trips of SLIP, the packets the decoder accepts, how a stream of
    JSON objects is cut, the choice of free addresses.
  \<^item> The life of the programs: \<open>EngineProperties\<close>, \<open>Process\<close>; the client classes: \<open>ClientProperties\<close>,
    \<open>SocketServerInvariant\<close>: state machines that never use a pointer they do not have, announce the
    states they are in, and reconnect.
  \<^item> Some properties state what goes wrong: data with END or ESC bytes from a server arrives escaped, a
    packet that cannot be decoded deafens the proxy for this server, a WebSocket cannot carry SLIP, all requests of the
    client library have the id 0, a client is lost when its registration reply comes in one chunk with the first data
    (\<open>Race\<close>), a stop that comes before the event loop runs is undone.

  \<^bold>\<open>Bounds.\<close> The loop of \<open>getFreeAddress\<close> makes at most 100 attempts, the fuel of \<open>freeAddress_loop\<close>:
  enough for a free address while the server has at most 98 clients, since two more addresses are
  reserved. Nothing in the code enforces this limit; a run of less than 100 events cannot reach it. The second counter of the engine is right
  while ticks are less than about 24 days apart. JSON buffers end at 10 KiB; the buffer of a server in SLIP mode
  has no limit. All loops are structural recursions, or have a measure (\<open>json_split\<close>). Runs are
  finite lists of events of any length.

  \<^bold>\<open>Not modelled.\<close> The logging categories (macros of Qt), debug output operators, the texts of log messages
  other than the line format, destructors that only stop what \<open>stopServer\<close> stops, slots that only write a log
  message; the drawing of ncurses is a list of its calls, without its effect on a terminal. Event loop, timers and
  threads of Qt: any order of events is allowed that the sockets can produce.
\<close>

end
